theory Spec2Isabelle
  imports Complex_Main "HOL-Library.Word"
begin

unbundle bit_operations_syntax

chapter \<open>Payment routing core: a shallow embedding\<close>

text \<open>
  The C sources are embedded function by function. Machine integers are words
  (\<open>u8\<close>, \<open>u32\<close>, \<open>u64\<close>); a struct is a record; a pointer that may be NULL
  is an option; \<open>plugin_err\<close>, \<open>paymod_err\<close> and a failed \<open>assert\<close> abort the
  process and are the error branch of a result. A node id (a 33-byte public key) is a
  natural number, a short channel id likewise.
\<close>

type_synonym u8 = "8 word"
type_synonym u32 = "32 word"
type_synonym u64 = "64 word"
type_synonym node_id = nat
type_synonym short_channel_id = nat

section \<open>gossipd/dhcache: the double-buffered distance cache\<close>

definition DHCACHE_MAXIMUM_DISTANCE :: u32 where
  "DHCACHE_MAXIMUM_DISTANCE = 0x7FFFFFFF"

definition DHCACHE_DISTANCE_MASK :: u32 where
  "DHCACHE_DISTANCE_MASK = 0x7FFFFFFF"

definition DHCACHE_VISITED_MASK :: u32 where
  "DHCACHE_VISITED_MASK = 0x80000000"

definition DHCACHE_NEWNODE_VALUE :: u32 where
  "DHCACHE_NEWNODE_VALUE = 0xFFFFFFFF"

definition DHCACHE_START_PREPROCESSING_VALUE :: u32 where
  "DHCACHE_START_PREPROCESSING_VALUE = 0x7FFFFFFF"

text \<open>
  \<open>struct chan\<close> and \<open>struct node\<close> come from gossipd/routing.h, which is not among
  the sources; only the fields the cache and the refresher touch are kept:
  the two endpoints of a channel, and for a node its id, its \<open>dhcache_distance[2]\<close>
  array (a pair, indexed by a selector that is 0 or 1) and its channels.
\<close>

record chan =
  chan_scid :: short_channel_id
  chan_nodes0 :: node_id
  chan_nodes1 :: node_id

record node =
  node_ident :: node_id
  dhcache_distance :: "u32 \<times> u32"
  node_chans :: "chan list"

text \<open>The array accesses \<open>dhcache_distance[selector]\<close>, for reading and for writing.\<close>

definition slot_get :: "nat \<Rightarrow> u32 \<times> u32 \<Rightarrow> u32" where
  "slot_get selector d = (if selector = 0 then fst d else snd d)"

definition slot_set :: "nat \<Rightarrow> u32 \<Rightarrow> u32 \<times> u32 \<Rightarrow> u32 \<times> u32" where
  "slot_set selector v d = (if selector = 0 then (v, snd d) else (fst d, v))"

text \<open>
  \<open>struct routing_state\<close>: the node map (\<open>get_node\<close> is the lookup, NULL when the
  node is unknown) and the id of the local node.
\<close>

record routing_state =
  rs_nodes :: "node_id \<rightharpoonup> node"
  local_id :: node_id

definition get_node :: "routing_state \<Rightarrow> node_id \<Rightarrow> node option" where
  "get_node rstate n = rs_nodes rstate n"

record dhcache =
  writer_selector :: u8
  available :: u8

definition dhcache_new :: dhcache where
  "dhcache_new = \<lparr>writer_selector = 0, available = 0\<rparr>"

definition dhcache_available :: "dhcache \<Rightarrow> bool" where
  "dhcache_available dhc = (available dhc \<noteq> 0)"

text \<open>\<open>writer_selector = !writer_selector\<close> on a \<open>u8\<close>.\<close>

definition dhcache_flip :: "dhcache \<Rightarrow> dhcache" where
  "dhcache_flip dhc =
     dhc\<lparr>writer_selector := (if writer_selector dhc = 0 then 1 else 0), available := 1\<rparr>"

definition dhcache_node_init :: "node \<Rightarrow> node" where
  "dhcache_node_init n =
     n\<lparr>dhcache_distance := (DHCACHE_NEWNODE_VALUE, DHCACHE_NEWNODE_VALUE)\<rparr>"

record dhcache_reader =
  reader_selector :: nat
  distance_goal :: u32

definition dhcache_reader_init :: "dhcache \<Rightarrow> node \<Rightarrow> dhcache_reader" where
  "dhcache_reader_init dhc goal =
     (let selector = (if writer_selector dhc = 0 then 1 else 0 :: nat)
      in \<lparr>reader_selector = selector,
          distance_goal = slot_get selector (dhcache_distance goal) AND DHCACHE_DISTANCE_MASK\<rparr>)"

definition dhcache_reader_is_reachable :: "dhcache_reader \<Rightarrow> node \<Rightarrow> bool" where
  "dhcache_reader_is_reachable reader n =
     (slot_get (reader_selector reader) (dhcache_distance n) AND DHCACHE_VISITED_MASK \<noteq> 0)"

text \<open>
  \<open>dhcache_reader_distance\<close> asserts that the node is reachable; \<open>None\<close> is the failed
  assertion.
\<close>

definition dhcache_reader_distance :: "dhcache_reader \<Rightarrow> node \<Rightarrow> u32 option" where
  "dhcache_reader_distance reader n =
     (let distance_goal = distance_goal reader;
          distance_node = slot_get (reader_selector reader) (dhcache_distance n)
                          AND DHCACHE_DISTANCE_MASK
      in if \<not> dhcache_reader_is_reachable reader n then None
         else if distance_node > distance_goal then Some (distance_node - distance_goal)
         else Some (distance_goal - distance_node))"

record dhcache_writer =
  wr_selector :: nat

definition dhcache_writer_init :: "dhcache \<Rightarrow> dhcache_writer" where
  "dhcache_writer_init dhc = \<lparr>wr_selector = (if writer_selector dhc \<noteq> 0 then 1 else 0)\<rparr>"

definition dhcache_writer_clear_all_nodes ::
  "dhcache_writer \<Rightarrow> routing_state \<Rightarrow> routing_state" where
  "dhcache_writer_clear_all_nodes w rstate =
     rstate\<lparr>rs_nodes := (\<lambda>k. map_option
        (\<lambda>n. n\<lparr>dhcache_distance :=
                 slot_set (wr_selector w) DHCACHE_START_PREPROCESSING_VALUE (dhcache_distance n)\<rparr>)
        (rs_nodes rstate k))\<rparr>"

definition dhcache_writer_get_visited :: "dhcache_writer \<Rightarrow> node \<Rightarrow> bool" where
  "dhcache_writer_get_visited w n =
     (slot_get (wr_selector w) (dhcache_distance n) AND DHCACHE_VISITED_MASK \<noteq> 0)"

definition dhcache_writer_mark_visited :: "dhcache_writer \<Rightarrow> node \<Rightarrow> node" where
  "dhcache_writer_mark_visited w n =
     n\<lparr>dhcache_distance :=
         slot_set (wr_selector w)
           (slot_get (wr_selector w) (dhcache_distance n) OR DHCACHE_VISITED_MASK)
           (dhcache_distance n)\<rparr>"

definition dhcache_writer_get_distance :: "dhcache_writer \<Rightarrow> node \<Rightarrow> u32" where
  "dhcache_writer_get_distance w n =
     slot_get (wr_selector w) (dhcache_distance n) AND DHCACHE_DISTANCE_MASK"

text \<open>
  \<open>dhcache_writer_set_distance\<close> asserts \<open>distance <= DHCACHE_MAXIMUM_DISTANCE\<close>;
  \<open>None\<close> is the failed assertion.
\<close>

definition dhcache_writer_set_distance :: "dhcache_writer \<Rightarrow> node \<Rightarrow> u32 \<Rightarrow> node option" where
  "dhcache_writer_set_distance w n distance =
     (let selector = wr_selector w;
          visited = slot_get selector (dhcache_distance n) AND DHCACHE_VISITED_MASK
      in if \<not> distance \<le> DHCACHE_MAXIMUM_DISTANCE then None
         else Some (n\<lparr>dhcache_distance :=
                slot_set selector (visited OR (distance AND DHCACHE_DISTANCE_MASK))
                  (dhcache_distance n)\<rparr>))"

text \<open>
  The cache together with the graph it annotates, and the operations a client can
  perform on it: the three writer operations (each through a writer initialised from
  the cache as it is at that moment, which is how the refresher obtains its writer)
  and the flip. A writer operation on a node takes the node's id; an id the graph does
  not hold leaves the graph as it is.
\<close>

record dhc_system =
  sys_dhcache :: dhcache
  sys_rstate :: routing_state

datatype dhc_op =
    Op_clear_all
  | Op_set_distance node_id u32
  | Op_mark_visited node_id
  | Op_flip

definition update_node :: "routing_state \<Rightarrow> node_id \<Rightarrow> node \<Rightarrow> routing_state" where
  "update_node rstate k n = rstate\<lparr>rs_nodes := (rs_nodes rstate)(k \<mapsto> n)\<rparr>"

fun dhc_apply :: "dhc_op \<Rightarrow> dhc_system \<Rightarrow> dhc_system option" where
  "dhc_apply Op_clear_all s =
     Some (s\<lparr>sys_rstate :=
        dhcache_writer_clear_all_nodes (dhcache_writer_init (sys_dhcache s)) (sys_rstate s)\<rparr>)"
| "dhc_apply (Op_set_distance k d) s =
     (case get_node (sys_rstate s) k of
        None \<Rightarrow> Some s
      | Some n \<Rightarrow>
          (case dhcache_writer_set_distance (dhcache_writer_init (sys_dhcache s)) n d of
             None \<Rightarrow> None
           | Some n' \<Rightarrow> Some (s\<lparr>sys_rstate := update_node (sys_rstate s) k n'\<rparr>)))"
| "dhc_apply (Op_mark_visited k) s =
     (case get_node (sys_rstate s) k of
        None \<Rightarrow> Some s
      | Some n \<Rightarrow>
          Some (s\<lparr>sys_rstate := update_node (sys_rstate s) k
                  (dhcache_writer_mark_visited (dhcache_writer_init (sys_dhcache s)) n)\<rparr>))"
| "dhc_apply Op_flip s = Some (s\<lparr>sys_dhcache := dhcache_flip (sys_dhcache s)\<rparr>)"

fun dhc_run :: "dhc_op list \<Rightarrow> dhc_system \<Rightarrow> dhc_system option" where
  "dhc_run [] s = Some s"
| "dhc_run (x # xs) s = (case dhc_apply x s of None \<Rightarrow> None | Some s' \<Rightarrow> dhc_run xs s')"

text \<open>What a reader shows for the node with a given id: its reachability and its distance.\<close>

definition reader_view ::
  "dhcache_reader \<Rightarrow> routing_state \<Rightarrow> node_id \<Rightarrow> (bool \<times> u32 option) option" where
  "reader_view reader rstate k =
     map_option (\<lambda>n. (dhcache_reader_is_reachable reader n, dhcache_reader_distance reader n))
       (get_node rstate k)"

text \<open>
  Whether every writer operation of a sequence runs while the writer's slot is the one
  it was at the start: \<open>flipped\<close> tells whether an odd number of flips came before.
\<close>

fun writes_keep_slot :: "bool \<Rightarrow> dhc_op list \<Rightarrow> bool" where
  "writes_keep_slot flipped [] = True"
| "writes_keep_slot flipped (Op_flip # xs) = writes_keep_slot (\<not> flipped) xs"
| "writes_keep_slot flipped (x # xs) = (\<not> flipped \<and> writes_keep_slot flipped xs)"


text \<open>A cache over a one-node graph, with a first refresh already flipped in.\<close>

definition ex_node :: node where
  "ex_node = \<lparr>node_ident = 7, dhcache_distance = (0x7FFFFFFF, 0x80000005), node_chans = []\<rparr>"

definition ex_sys :: dhc_system where
  "ex_sys = \<lparr>sys_dhcache = \<lparr>writer_selector = 0, available = 1\<rparr>,
            sys_rstate = \<lparr>rs_nodes = [7 \<mapsto> ex_node], local_id = 7\<rparr>\<rparr>"

text \<open>The value a slot of a node holds, if the graph has the node.\<close>

definition node_slot :: "nat \<Rightarrow> routing_state \<Rightarrow> node_id \<Rightarrow> u32 option" where
  "node_slot r rstate k = map_option (\<lambda>n. slot_get r (dhcache_distance n)) (rs_nodes rstate k)"

section \<open>gossipd/priority_queue: the binary heap\<close>

record 'a priority_queue_entry =
  priority :: u64
  item :: 'a

text \<open>\<open>struct priority_queue\<close> holds one array of entries; the model is that array.\<close>

type_synonym 'a priority_queue = "'a priority_queue_entry list"

definition priority_queue_new :: "'a priority_queue" where
  "priority_queue_new = []"

text \<open>The up-sift loop of \<open>priority_queue_add\<close>, from index \<open>i\<close>.\<close>

function upsift :: "'a priority_queue \<Rightarrow> nat \<Rightarrow> 'a priority_queue" where
  "upsift array i =
     (if i > 0 then
        (if priority (array ! i) < priority (array ! ((i - 1) div 2))
         then upsift (array[i := array ! ((i - 1) div 2), (i - 1) div 2 := array ! i])
                ((i - 1) div 2)
         else array)
      else array)"
  by pat_completeness auto
termination
  by (relation "measure (\<lambda>(array, i). i)") auto

declare upsift.simps [simp del]

definition priority_queue_add :: "'a priority_queue \<Rightarrow> 'a \<Rightarrow> u64 \<Rightarrow> 'a priority_queue" where
  "priority_queue_add queue it prio =
     upsift (queue @ [\<lparr>priority = prio, item = it\<rparr>]) (length queue)"

text \<open>The down-sink loop of \<open>priority_queue_get_min\<close>, from index \<open>i\<close>; \<open>s\<close> is the array's length.\<close>

definition smaller_child :: "'a priority_queue \<Rightarrow> nat \<Rightarrow> nat" where
  "smaller_child array i =
     (if i * 2 + 2 \<ge> length array then i * 2 + 1
      else if priority (array ! (i * 2 + 1)) < priority (array ! (i * 2 + 2)) then i * 2 + 1
      else i * 2 + 2)"

function downsink :: "'a priority_queue \<Rightarrow> nat \<Rightarrow> 'a priority_queue" where
  "downsink array i =
     (if i < length array then
        (if i * 2 + 1 \<ge> length array then array
         else if priority (array ! smaller_child array i) < priority (array ! i)
         then downsink (array[i := array ! smaller_child array i, smaller_child array i := array ! i])
                (smaller_child array i)
         else array)
      else array)"
  by pat_completeness auto
termination
  by (relation "measure (\<lambda>(array, i). length array - i)") (auto simp: smaller_child_def)

declare downsink.simps [simp del]

text \<open>
  \<open>priority_queue_get_min\<close> returns the item of the root entry only (its priority is
  not returned), or NULL on an empty queue; the model returns the item together
  with the array as the call leaves it.
\<close>

definition priority_queue_get_min :: "'a priority_queue \<Rightarrow> ('a \<times> 'a priority_queue) option" where
  "priority_queue_get_min queue =
     (let s = length queue in
      if s = 0 then None
      else if s = 1 then Some (item (queue ! 0), [])
      else Some (item (queue ! 0), downsink (take (s - 1) (queue[0 := queue ! (s - 1)])) 0))"

section \<open>gossipd/dhcache_refresher: the cooperative Dijkstra\<close>

datatype refresh_process_step_result =
    refresh_process_step_result_continue
  | refresh_process_step_result_failed
  | refresh_process_step_result_completed

text \<open>The function pointer \<open>process->step\<close>.\<close>

datatype refresh_step_fn = Refresh_process_step_init | Refresh_process_step_loop

text \<open>
  \<open>struct refresh_process\<close>. The queue holds node ids (the C code stores malloc-ed
  copies of them and the model takes \<open>malloc\<close> to succeed). The coster of the process
  is not a field here: \<open>dhcache_coster_get\<close> has no computation and no return statement
  in the sources, so the cost of a channel is a parameter \<open>cost\<close> of the step
  functions, standing for \<open>dhcache_coster_get(coster, from, channel, to).millisatoshis\<close>.
\<close>

record refresh_process =
  rp_rstate :: routing_state
  rp_writer :: dhcache_writer
  rp_queue :: "node_id priority_queue"
  rp_step :: refresh_step_fn

type_synonym channel_cost = "node \<Rightarrow> chan \<Rightarrow> node \<Rightarrow> u64"

text \<open>\<open>other_node\<close> of gossipd/routing.h: the endpoint of the channel that is not \<open>n\<close>.\<close>

definition other_node :: "node \<Rightarrow> chan \<Rightarrow> node_id" where
  "other_node n c = (if chan_nodes1 c = node_ident n then chan_nodes0 c else chan_nodes1 c)"

definition refresh_process_add_node :: "refresh_process \<Rightarrow> node_id \<Rightarrow> u64 \<Rightarrow> refresh_process" where
  "refresh_process_add_node process n prio =
     process\<lparr>rp_queue := priority_queue_add (rp_queue process) n prio\<rparr>"

definition install_refresh_process :: "routing_state \<Rightarrow> dhcache \<Rightarrow> refresh_process" where
  "install_refresh_process rstate dhc =
     \<lparr>rp_rstate = rstate, rp_writer = dhcache_writer_init dhc, rp_queue = priority_queue_new,
      rp_step = Refresh_process_step_init\<rparr>"

text \<open>
  \<open>refresh_process_step_init\<close>. The source passes an undeclared \<open>node\<close> to
  \<open>refresh_process_add_node\<close>; the model passes \<open>self\<close>, the only node in scope.
  \<open>None\<close> is a failed assertion of \<open>dhcache_writer_set_distance\<close>.
\<close>

definition refresh_process_step_init ::
  "refresh_process \<Rightarrow> (refresh_process_step_result \<times> refresh_process) option" where
  "refresh_process_step_init process =
     (let rstate = rp_rstate process; w = rp_writer process in
      case get_node rstate (local_id rstate) of
        None \<Rightarrow> Some (refresh_process_step_result_failed, process)
      | Some _ \<Rightarrow>
          (let rstate1 = dhcache_writer_clear_all_nodes w rstate in
           case get_node rstate1 (local_id rstate1) of
             None \<Rightarrow> Some (refresh_process_step_result_failed, process)
           | Some self \<Rightarrow>
               (case dhcache_writer_set_distance w self 0 of
                  None \<Rightarrow> None
                | Some self1 \<Rightarrow>
                    Some (refresh_process_step_result_continue,
                      (refresh_process_add_node
                         (process\<lparr>rp_rstate := update_node rstate1 (local_id rstate1)
                                     (dhcache_writer_mark_visited w self1)\<rparr>)
                         (local_id rstate1) 0)\<lparr>rp_step := Refresh_process_step_loop\<rparr>))))"

text \<open>
  One iteration of the loop over the channels of the popped node: the body of the
  \<open>for\<close> in \<open>refresh_process_step_loop\<close>. \<open>node_total_cost\<close> was read before the
  loop. A neighbour is a node of the graph; an id the graph does not hold (the C
  pointer cannot be dangling) leaves the process as it is.
\<close>

definition refresh_relax ::
  "channel_cost \<Rightarrow> node \<Rightarrow> u32 \<Rightarrow> refresh_process \<Rightarrow> chan \<Rightarrow> refresh_process option" where
  "refresh_relax cost n node_total_cost process c =
     (let w = rp_writer process; rstate = rp_rstate process in
      case get_node rstate (other_node n c) of
        None \<Rightarrow> Some process
      | Some neighbor \<Rightarrow>
          (let cost_num = cost n c neighbor;
               sum_cost = (ucast node_total_cost :: u64) + cost_num;
               neighbor_total_cost =
                 (if sum_cost > ucast DHCACHE_MAXIMUM_DISTANCE
                  then ucast DHCACHE_MAXIMUM_DISTANCE else sum_cost)
           in if \<not> dhcache_writer_get_visited w neighbor
                 \<or> (ucast (dhcache_writer_get_distance w neighbor) :: u64) > neighbor_total_cost
              then (case dhcache_writer_set_distance w (dhcache_writer_mark_visited w neighbor)
                           (ucast neighbor_total_cost) of
                      None \<Rightarrow> None
                    | Some neighbor1 \<Rightarrow>
                        Some (refresh_process_add_node
                                (process\<lparr>rp_rstate := update_node rstate (other_node n c) neighbor1\<rparr>)
                                (other_node n c) neighbor_total_cost))
              else Some process))"

fun refresh_relax_all ::
  "channel_cost \<Rightarrow> node \<Rightarrow> u32 \<Rightarrow> chan list \<Rightarrow> refresh_process \<Rightarrow> refresh_process option" where
  "refresh_relax_all cost n d [] process = Some process"
| "refresh_relax_all cost n d (c # cs) process =
     (case refresh_relax cost n d process c of
        None \<Rightarrow> None
      | Some process1 \<Rightarrow> refresh_relax_all cost n d cs process1)"

definition refresh_process_step_loop ::
  "channel_cost \<Rightarrow> refresh_process \<Rightarrow> (refresh_process_step_result \<times> refresh_process) option" where
  "refresh_process_step_loop cost process =
     (case priority_queue_get_min (rp_queue process) of
        None \<Rightarrow> Some (refresh_process_step_result_completed, process)
      | Some (popped, queue1) \<Rightarrow>
          (let process1 = process\<lparr>rp_queue := queue1\<rparr> in
           case get_node (rp_rstate process1) popped of
             None \<Rightarrow> Some (refresh_process_step_result_continue, process1)
           | Some n \<Rightarrow>
               (case refresh_relax_all cost n
                       (dhcache_writer_get_distance (rp_writer process1) n)
                       (node_chans n) process1 of
                  None \<Rightarrow> None
                | Some process2 \<Rightarrow> Some (refresh_process_step_result_continue, process2))))"

definition refresh_process_step ::
  "channel_cost \<Rightarrow> refresh_process \<Rightarrow> (refresh_process_step_result \<times> refresh_process) option" where
  "refresh_process_step cost process =
     (case rp_step process of
        Refresh_process_step_init \<Rightarrow> refresh_process_step_init process
      | Refresh_process_step_loop \<Rightarrow> refresh_process_step_loop cost process)"

text \<open>Steps in a row, as \<open>refresher_reawaken\<close> runs them while the result is \<open>continue\<close>.\<close>

fun refresh_steps :: "nat \<Rightarrow> channel_cost \<Rightarrow> refresh_process \<Rightarrow> refresh_process option" where
  "refresh_steps 0 cost process = Some process"
| "refresh_steps (Suc k) cost process =
     (case refresh_process_step cost process of
        Some (refresh_process_step_result_continue, process1) \<Rightarrow> refresh_steps k cost process1
      | _ \<Rightarrow> None)"


text \<open>
  A graph for the refresher: the local node 0 with channels to node 1 (cost 10) and to
  node 2 (cost 1), and a channel between 2 and 1 (cost 1). \<open>ex_stale\<close> is the process
  after the init step and three loop steps on it, once gossip has added a node 3 with a
  channel to node 1 while the refresher slept: its queue holds the entry of node 1 that
  was pushed at priority 10, and the writer slot of node 1 says 2.
\<close>

definition cLA :: chan where "cLA = \<lparr>chan_scid = 100, chan_nodes0 = 0, chan_nodes1 = 1\<rparr>"
definition cLB :: chan where "cLB = \<lparr>chan_scid = 101, chan_nodes0 = 0, chan_nodes1 = 2\<rparr>"
definition cAB :: chan where "cAB = \<lparr>chan_scid = 102, chan_nodes0 = 1, chan_nodes1 = 2\<rparr>"

definition ex_cost :: channel_cost where
  "ex_cost n c m = (if chan_scid c = 100 then 10 else 1)"

definition ex_graph :: routing_state where
  "ex_graph = \<lparr>rs_nodes =
       [0 \<mapsto> \<lparr>node_ident = 0, dhcache_distance = (0xFFFFFFFF, 0xFFFFFFFF), node_chans = [cLA, cLB]\<rparr>,
        1 \<mapsto> \<lparr>node_ident = 1, dhcache_distance = (0xFFFFFFFF, 0xFFFFFFFF), node_chans = [cLA, cAB]\<rparr>,
        2 \<mapsto> \<lparr>node_ident = 2, dhcache_distance = (0xFFFFFFFF, 0xFFFFFFFF), node_chans = [cLB, cAB]\<rparr>],
     local_id = 0\<rparr>"



section \<open>plugins/multifundchannel: the funding orchestrator\<close>

datatype multifundchannel_start =
    multifundchannel_start_not_yet
  | multifundchannel_started
  | multifundchannel_start_failed
  | multifundchannel_complete_failed
  | multifundchannel_done

type_synonym bitcoin_txid = string

text \<open>
  \<open>struct multifundchannel_destination\<close>. The back pointer to the command is left out;
  \<open>spark\<close> tells whether the completion token of a running spark is stored (non-NULL).
  The fields \<open>id\<close>, \<open>all\<close> and \<open>error\<close> are \<open>dest_id\<close>, \<open>dest_all\<close> and
  \<open>dest_error\<close> here.
\<close>

record multifundchannel_destination =
  dest_id :: string
  their_features :: "u8 list option"
  fundchannel_start_state :: multifundchannel_start
  placeholder_addr_str :: "string option"
  funding_script :: "u8 list option"
  funding_addr :: "string option"
  dest_all :: bool
  amount :: u64
  outnum :: u32
  announce :: bool
  push_msat :: u64
  channel_id :: "string option"
  spark :: bool
  dest_error :: "string option"

text \<open>
  \<open>struct multifundchannel_command\<close>, without the plugin command and the array of
  sparks (a spark that runs is the \<open>spark\<close> flag of its destination).
\<close>

record multifundchannel_command =
  destinations :: "multifundchannel_destination list"
  feerate_str :: "string option"
  minconf :: u32
  utxos_str :: "string option"
  has_all :: bool
  txid :: "bitcoin_txid option"
  final_tx :: "string option"
  final_txid :: "string option"

text \<open>
  What the command needs from outside the file: \<open>sha256\<close>, the address encoding of a
  script for the chain in use, whether the large-channels feature was negotiated with a
  peer (\<open>feature_negotiated(plugin_feature_set(..), their_features, OPT_LARGE_CHANNELS)\<close>)
  and \<open>chainparams->max_funding\<close>.
\<close>

record mfc_env =
  sha256 :: "string \<Rightarrow> u8 list"
  encode_scriptpubkey_to_addr :: "u8 list \<Rightarrow> string"
  large_channels_negotiated :: "u8 list option \<Rightarrow> bool"
  max_funding :: u64

text \<open>An output of a prepared transaction: whether its asset is the main one, its amount
  in satoshi and its script.\<close>

record tx_output =
  out_is_main :: bool
  out_amount :: u64
  out_script :: "u8 list"

datatype txprepare_amount = Amount_all | Amount_sat u64

datatype mfc_reply =
    Reply_success "string option" "string option" "string option list"
  | Reply_fail int string
  | Reply_err_raw string
  | Reply_param_failed

text \<open>
  What the command does that is visible from outside, in the order it does it: the
  requests it sends, every assignment to a destination's \<open>fundchannel_start_state\<close>,
  the reply to the caller, and the abort of the plugin by \<open>plugin_err\<close> or by a failed
  assertion.
\<close>

datatype mfc_event =
    Req_multiconnect "string list"
  | Req_txprepare "(string option \<times> txprepare_amount) list"
  | Req_fundchannel_start string u64 bool u64
  | Req_txdiscard bitcoin_txid
  | Req_fundchannel_complete string bitcoin_txid u32
  | Req_fundchannel_cancel string
  | Req_txsend bitcoin_txid
  | Ev_set_state nat multifundchannel_start
  | Ev_reply mfc_reply
  | Ev_abort

text \<open>
  Where the command stands between two callbacks: which request (or which family of
  sparks) it waits for. \<open>Ph_cleanup k r\<close>: \<open>k\<close> cleanup sparks have not completed yet
  and \<open>r\<close> is the reply to give once they have.
\<close>

datatype mfc_phase =
    Ph_multiconnect
  | Ph_dryrun_txprepare
  | Ph_fundchannel_start
  | Ph_txdiscard
  | Ph_txprepare
  | Ph_fundchannel_complete
  | Ph_txsend
  | Ph_cleanup nat mfc_reply
  | Ph_replied
  | Ph_aborted

record mfc_config =
  mfc :: multifundchannel_command
  phase :: mfc_phase
  trace :: "mfc_event list"

definition JSONRPC2_INVALID_PARAMS :: int where
  "JSONRPC2_INVALID_PARAMS = -32602"

definition emit :: "mfc_event list \<Rightarrow> mfc_config \<Rightarrow> mfc_config" where
  "emit evs c = c\<lparr>trace := trace c @ evs\<rparr>"

text \<open>\<open>plugin_err\<close>, a failed \<open>assert\<close> and the use of a NULL pointer end the process.\<close>

definition mfc_abort :: "mfc_config \<Rightarrow> mfc_config" where
  "mfc_abort c = (emit [Ev_abort] c)\<lparr>phase := Ph_aborted\<rparr>"

subsection \<open>Command cleanup\<close>

text \<open>
  The requests of the sparks \<open>mfc_cleanup_\<close> starts, in the order it starts them: a
  \<open>txdiscard\<close> if the command holds a txid, then a \<open>fundchannel_cancel\<close> for each
  destination whose state is \<open>multifundchannel_started\<close>.
\<close>

definition mfc_cleanup_requests :: "multifundchannel_command \<Rightarrow> mfc_event list" where
  "mfc_cleanup_requests m =
     (case txid m of None \<Rightarrow> [] | Some t \<Rightarrow> [Req_txdiscard t])
     @ map (\<lambda>dest. Req_fundchannel_cancel (dest_id dest))
         (filter (\<lambda>dest. fundchannel_start_state dest = multifundchannel_started)
            (destinations m))"

text \<open>
  \<open>mfc_cleanup_\<close> with the callback that gives the reply \<open>r\<close>. The sparks run as soon as
  the caller blocks in \<open>plugin_wait_all_sparks\<close>, each sending its request; the callback
  is called once all have completed, and immediately when there is none.
\<close>

definition mfc_cleanup :: "mfc_reply \<Rightarrow> mfc_config \<Rightarrow> mfc_config" where
  "mfc_cleanup r c =
     (let reqs = mfc_cleanup_requests (mfc c) in
      if reqs = [] then (emit [Ev_reply r] c)\<lparr>phase := Ph_replied\<rparr>
      else (emit reqs c)\<lparr>phase := Ph_cleanup (length reqs) r\<rparr>)"

text \<open>\<open>mfc_cleanup_spark_done\<close> and, after the last spark, \<open>mfc_cleanup_complete\<close>.\<close>

definition mfc_cleanup_spark_done :: "nat \<Rightarrow> mfc_reply \<Rightarrow> mfc_config \<Rightarrow> mfc_config" where
  "mfc_cleanup_spark_done k r c =
     (if k \<le> 1 then (emit [Ev_reply r] c)\<lparr>phase := Ph_replied\<rparr>
      else c\<lparr>phase := Ph_cleanup (k - 1) r\<rparr>)"

definition mfc_fail :: "int \<Rightarrow> string \<Rightarrow> mfc_config \<Rightarrow> mfc_config" where
  "mfc_fail code msg c = mfc_cleanup (Reply_fail code msg) c"

definition mfc_err_raw :: "string \<Rightarrow> mfc_config \<Rightarrow> mfc_config" where
  "mfc_err_raw json_string c = mfc_cleanup (Reply_err_raw json_string) c"

definition mfc_forward_error :: "string \<Rightarrow> mfc_config \<Rightarrow> mfc_config" where
  "mfc_forward_error err c = mfc_err_raw err c"

definition mfc_finished :: "mfc_reply \<Rightarrow> mfc_config \<Rightarrow> mfc_config" where
  "mfc_finished response c = mfc_cleanup response c"

subsection \<open>Input validation\<close>

text \<open>One entry of the \<open>destinations\<close> argument as \<open>param\<close> parses it; the amount
  \<open>-1ULL\<close> stands for "all".\<close>

record destination_param =
  prm_id :: string
  prm_amount :: u64
  prm_announce :: bool
  prm_push_msat :: u64

text \<open>The arguments of the command: \<open>None\<close> for \<open>prm_destinations\<close> is a value that is
  not an array, \<open>None\<close> for an entry is an entry \<open>param\<close> refuses.\<close>

record mfc_params =
  prm_destinations :: "destination_param option list option"
  prm_feerate :: "string option"
  prm_minconf :: u32
  prm_utxos :: "string option"

text \<open>An entry of the array \<open>tal_arrz\<close> returns: all fields zero.\<close>

definition zero_destination :: multifundchannel_destination where
  "zero_destination =
     \<lparr>dest_id = [], their_features = None,
      fundchannel_start_state = multifundchannel_start_not_yet,
      placeholder_addr_str = None, funding_script = None, funding_addr = None,
      dest_all = False, amount = 0, outnum = 0, announce = False, push_msat = 0,
      channel_id = None, spark = False, dest_error = None\<rparr>"

definition init_destination :: "destination_param \<Rightarrow> multifundchannel_destination" where
  "init_destination prm =
     \<lparr>dest_id = prm_id prm, their_features = None,
      fundchannel_start_state = multifundchannel_start_not_yet,
      placeholder_addr_str = None, funding_script = None, funding_addr = None,
      dest_all = (prm_amount prm = - 1),
      amount = (if prm_amount prm = - 1 then 0 else prm_amount prm),
      outnum = 0, announce = prm_announce prm, push_msat = prm_push_msat prm,
      channel_id = None, spark = False, dest_error = None\<rparr>"

datatype cda_result = Cda_ok | Cda_param_failed | Cda_fail string

text \<open>
  The loop of \<open>create_destinations_array\<close> from entry \<open>i\<close> on: the destinations filled
  so far, the flag \<open>*has_all\<close>, and how the loop ended.
\<close>

fun create_destinations_loop ::
  "destination_param option list \<Rightarrow> nat \<Rightarrow> multifundchannel_destination list \<Rightarrow> bool
   \<Rightarrow> multifundchannel_destination list \<times> bool \<times> cda_result" where
  "create_destinations_loop [] i dests h = (dests, h, Cda_ok)"
| "create_destinations_loop (None # rest) i dests h = (dests, h, Cda_param_failed)"
| "create_destinations_loop (Some prm # rest) i dests h =
     (let dest = init_destination prm; dests1 = dests[i := dest] in
      if dest_all dest then
        (if h then (dests1, h, Cda_fail ''Only one destination can indicate all for amount.'')
         else create_destinations_loop rest (i + 1) dests1 True)
      else create_destinations_loop rest (i + 1) dests1 h)"

text \<open>\<open>perform_multiconnect\<close>.\<close>

definition perform_multiconnect :: "mfc_config \<Rightarrow> mfc_config" where
  "perform_multiconnect c =
     (emit [Req_multiconnect (map dest_id (destinations (mfc c)))] c)\<lparr>phase := Ph_multiconnect\<rparr>"

text \<open>
  \<open>json_multifundchannel\<close> with \<open>create_destinations_array\<close>: from the arguments to the
  configuration at the first point the command waits. \<open>None\<close> for the arguments is
  the top-level \<open>param\<close> failing.
\<close>

definition json_multifundchannel :: "mfc_params option \<Rightarrow> mfc_config" where
  "json_multifundchannel params =
     (let m0 = \<lparr>destinations = [], feerate_str = None, minconf = 0, utxos_str = None,
                has_all = False, txid = None, final_tx = None, final_txid = None\<rparr>
      in case params of
        None \<Rightarrow> \<lparr>mfc = m0, phase = Ph_replied, trace = [Ev_reply Reply_param_failed]\<rparr>
      | Some prm \<Rightarrow>
          (let m = m0\<lparr>feerate_str := prm_feerate prm, minconf := prm_minconf prm,
                       utxos_str := prm_utxos prm\<rparr>;
               c = \<lparr>mfc = m, phase = Ph_multiconnect, trace = []\<rparr>
           in case prm_destinations prm of
             None \<Rightarrow> mfc_fail JSONRPC2_INVALID_PARAMS ''destinations must be an array.'' c
           | Some entries \<Rightarrow>
               if length entries < 1
               then mfc_fail JSONRPC2_INVALID_PARAMS
                      ''destinations must have at least one entry.'' c
               else
                 (case create_destinations_loop entries 0
                         (replicate (length entries) zero_destination) False of
                    (dests, h, Cda_param_failed) \<Rightarrow>
                      (emit [Ev_reply Reply_param_failed]
                         (c\<lparr>mfc := m\<lparr>destinations := dests, has_all := h\<rparr>\<rparr>))\<lparr>phase := Ph_replied\<rparr>
                  | (dests, h, Cda_fail msg) \<Rightarrow>
                      mfc_fail JSONRPC2_INVALID_PARAMS msg
                        (c\<lparr>mfc := m\<lparr>destinations := dests, has_all := h\<rparr>\<rparr>)
                  | (dests, h, Cda_ok) \<Rightarrow>
                      (let c1 = c\<lparr>mfc := m\<lparr>destinations := dests, has_all := h\<rparr>\<rparr> in
                       if h \<and> length dests > 1
                       then mfc_fail JSONRPC2_INVALID_PARAMS
                              ''There can only be one destination if you specify all.'' c1
                       else perform_multiconnect c1))))"


subsection \<open>The pipeline, callback by callback\<close>

datatype mfc_input =
    In_multiconnect_ok "string list option" "u8 list option list option"
  | In_txprepare_ok "bitcoin_txid option" "tx_output list option"
  | In_txdiscard_ok
  | In_fundchannel_start_ok nat "string option" "u8 list option"
  | In_fundchannel_start_err nat string
  | In_fundchannel_complete_ok nat "string option"
  | In_fundchannel_complete_err nat string
  | In_txsend_ok "string option" "string option"
  | In_rpc_err string
  | In_cleanup_spark_done

definition set_destinations ::
  "multifundchannel_destination list \<Rightarrow> mfc_config \<Rightarrow> mfc_config" where
  "set_destinations dests c = c\<lparr>mfc := (mfc c)\<lparr>destinations := dests\<rparr>\<rparr>"

definition create_placeholder_addr :: "mfc_env \<Rightarrow> string \<Rightarrow> string" where
  "create_placeholder_addr env destid =
     encode_scriptpubkey_to_addr env (0x00 # 0x20 # sha256 env destid)"

definition perform_dryrun_txprepare :: "mfc_env \<Rightarrow> mfc_config \<Rightarrow> mfc_config" where
  "perform_dryrun_txprepare env c =
     (let dests = map (\<lambda>dest. dest\<lparr>placeholder_addr_str :=
                                 Some (create_placeholder_addr env (dest_id dest))\<rparr>)
                    (destinations (mfc c))
      in (emit [Req_txprepare
                  (map (\<lambda>dest. (placeholder_addr_str dest,
                                 if dest_all dest then Amount_all else Amount_sat (amount dest)))
                     dests)]
            (set_destinations dests c))\<lparr>phase := Ph_dryrun_txprepare\<rparr>)"

text \<open>The id of the first destination that a later destination repeats.\<close>

fun first_duplicate :: "string list \<Rightarrow> string option" where
  "first_duplicate [] = None"
| "first_duplicate (x # xs) = (if x \<in> set xs then Some x else first_duplicate xs)"

definition after_multiconnect ::
  "mfc_env \<Rightarrow> string list option \<Rightarrow> u8 list option list option \<Rightarrow> mfc_config \<Rightarrow> mfc_config" where
  "after_multiconnect env ids features c =
     (case ids of
        None \<Rightarrow> mfc_abort c
      | Some idl \<Rightarrow>
          if length idl \<noteq> length (destinations (mfc c)) then mfc_abort c
          else
            (case features of
               None \<Rightarrow> mfc_abort c
             | Some fl \<Rightarrow>
                 if length fl \<noteq> length (destinations (mfc c)) then mfc_abort c
                 else
                   (let dests = map (\<lambda>(dest, i, f). dest\<lparr>dest_id := i, their_features := f\<rparr>)
                                  (zip (destinations (mfc c)) (zip idl fl));
                        c1 = set_destinations dests c
                    in case first_duplicate (map dest_id dests) of
                         Some d \<Rightarrow> mfc_fail JSONRPC2_INVALID_PARAMS (''Duplicate destination: '' @ d) c1
                       | None \<Rightarrow> perform_dryrun_txprepare env c1)))"

text \<open>
  The scan of the outputs for one destination in \<open>after_dryrun_txprepare\<close>: the first
  output of the main asset whose address is the destination's placeholder address gives
  the amount. \<open>None\<close>: no such output, which is a \<open>plugin_err\<close>.
\<close>

fun dryrun_resolve_destination ::
  "mfc_env \<Rightarrow> tx_output list \<Rightarrow> multifundchannel_destination
   \<Rightarrow> multifundchannel_destination option" where
  "dryrun_resolve_destination env [] dest = None"
| "dryrun_resolve_destination env (out # outs) dest =
     (if \<not> out_is_main out then dryrun_resolve_destination env outs dest
      else if Some (encode_scriptpubkey_to_addr env (out_script out)) \<noteq> placeholder_addr_str dest
      then dryrun_resolve_destination env outs dest
      else Some (dest\<lparr>amount :=
                        (if dest_all dest
                            \<and> \<not> large_channels_negotiated env (their_features dest)
                            \<and> out_amount out > max_funding env
                         then max_funding env else out_amount out),
                      dest_all := False\<rparr>))"

text \<open>
  \<open>perform_fundchannel_start\<close>: one spark per destination, each storing its completion
  token and sending \<open>fundchannel_start\<close>; a spark asserts that its destination's amount
  is no longer "all" before it sends.
\<close>

definition perform_fundchannel_start :: "mfc_config \<Rightarrow> mfc_config" where
  "perform_fundchannel_start c =
     (let dests = destinations (mfc c);
          sent = takeWhile (\<lambda>dest. \<not> dest_all dest) dests;
          reqs = map (\<lambda>dest. Req_fundchannel_start (dest_id dest) (amount dest)
                                (announce dest) (push_msat dest)) sent
      in if length sent < length dests then mfc_abort (emit reqs c)
         else (emit reqs (set_destinations (map (\<lambda>dest. dest\<lparr>spark := True\<rparr>) dests) c))
                \<lparr>phase := Ph_fundchannel_start\<rparr>)"

definition after_dryrun_txprepare ::
  "mfc_env \<Rightarrow> bitcoin_txid option \<Rightarrow> tx_output list option \<Rightarrow> mfc_config \<Rightarrow> mfc_config" where
  "after_dryrun_txprepare env txid_result tx_result c =
     (case txid_result of
        None \<Rightarrow> mfc_abort c
      | Some t \<Rightarrow>
          (let c1 = c\<lparr>mfc := (mfc c)\<lparr>txid := Some t\<rparr>\<rparr> in
           case tx_result of
             None \<Rightarrow> mfc_abort c1
           | Some outs \<Rightarrow>
               (case those (map (dryrun_resolve_destination env outs) (destinations (mfc c1))) of
                  None \<Rightarrow> mfc_abort c1
                | Some dests \<Rightarrow>
                    perform_fundchannel_start
                      (c1\<lparr>mfc := (mfc c1)\<lparr>destinations := dests, has_all := False\<rparr>\<rparr>))))"

text \<open>
  \<open>plugin_spark_complete\<close> for a spark of the command's array: the callback given to
  \<open>plugin_wait_all_sparks\<close> runs once no spark of the array is left running.
\<close>

definition plugin_spark_complete :: "(mfc_config \<Rightarrow> mfc_config) \<Rightarrow> mfc_config \<Rightarrow> mfc_config" where
  "plugin_spark_complete cb c = (if list_ex spark (destinations (mfc c)) then c else cb c)"

text \<open>
  The loop of \<open>after_fundchannel_start\<close> and of \<open>after_fundchannel_complete\<close>: each
  destination is asserted to be started or failed (\<open>failed\<close> is the failure state of
  the step), and the first failed one stops the loop with its error.
\<close>

datatype sparks_outcome = All_started | Assert_failed | Failed_dest "string option"

fun check_sparked ::
  "multifundchannel_start \<Rightarrow> multifundchannel_destination list \<Rightarrow> sparks_outcome" where
  "check_sparked failed [] = All_started"
| "check_sparked failed (dest # dests) =
     (if fundchannel_start_state dest \<noteq> multifundchannel_started
         \<and> fundchannel_start_state dest \<noteq> failed then Assert_failed
      else if fundchannel_start_state dest \<noteq> failed then check_sparked failed dests
      else Failed_dest (dest_error dest))"

definition perform_txmodify :: "mfc_config \<Rightarrow> mfc_config" where
  "perform_txmodify c =
     (case txid (mfc c) of
        None \<Rightarrow> mfc_abort c
      | Some t \<Rightarrow> (emit [Req_txdiscard t] (c\<lparr>mfc := (mfc c)\<lparr>txid := None\<rparr>\<rparr>))\<lparr>phase := Ph_txdiscard\<rparr>)"

definition after_sparked ::
  "multifundchannel_start \<Rightarrow> (mfc_config \<Rightarrow> mfc_config) \<Rightarrow> mfc_config \<Rightarrow> mfc_config" where
  "after_sparked failed continue c =
     (case check_sparked failed (destinations (mfc c)) of
        All_started \<Rightarrow> continue c
      | Assert_failed \<Rightarrow> mfc_abort c
      | Failed_dest None \<Rightarrow> mfc_abort c
      | Failed_dest (Some e) \<Rightarrow> mfc_err_raw e c)"

definition after_fundchannel_start :: "mfc_config \<Rightarrow> mfc_config" where
  "after_fundchannel_start c = after_sparked multifundchannel_start_failed perform_txmodify c"

text \<open>The two callbacks of a \<open>fundchannel_start\<close> request, for destination \<open>i\<close>.\<close>

definition fundchannel_start_ok ::
  "nat \<Rightarrow> string option \<Rightarrow> u8 list option \<Rightarrow> mfc_config \<Rightarrow> mfc_config" where
  "fundchannel_start_ok i address script c =
     (case address of
        None \<Rightarrow> mfc_abort c
      | Some a \<Rightarrow>
          (case script of
             None \<Rightarrow> mfc_abort c
           | Some sc \<Rightarrow>
               plugin_spark_complete after_fundchannel_start
                 (emit [Ev_set_state i multifundchannel_started]
                    (set_destinations
                       ((destinations (mfc c))[i := (destinations (mfc c) ! i)
                           \<lparr>funding_addr := Some a, funding_script := Some sc,
                            fundchannel_start_state := multifundchannel_started,
                            spark := False\<rparr>]) c))))"

definition fundchannel_start_err :: "nat \<Rightarrow> string \<Rightarrow> mfc_config \<Rightarrow> mfc_config" where
  "fundchannel_start_err i err c =
     plugin_spark_complete after_fundchannel_start
       (emit [Ev_set_state i multifundchannel_start_failed]
          (set_destinations
             ((destinations (mfc c))[i := (destinations (mfc c) ! i)
                 \<lparr>fundchannel_start_state := multifundchannel_start_failed,
                  spark := False, dest_error := Some err\<rparr>]) c))"

definition perform_txprepare :: "mfc_config \<Rightarrow> mfc_config" where
  "perform_txprepare c =
     (if list_ex dest_all (destinations (mfc c)) then mfc_abort c
      else (emit [Req_txprepare (map (\<lambda>dest. (funding_addr dest, Amount_sat (amount dest)))
                                   (destinations (mfc c)))] c)\<lparr>phase := Ph_txprepare\<rparr>)"

definition after_txdiscard :: "mfc_config \<Rightarrow> mfc_config" where
  "after_txdiscard c = perform_txprepare c"

text \<open>The index of the first output with a given script, counting from \<open>k\<close>.\<close>

fun find_output_script :: "u8 list option \<Rightarrow> tx_output list \<Rightarrow> nat \<Rightarrow> nat option" where
  "find_output_script script [] k = None"
| "find_output_script script (out # outs) k =
     (if Some (out_script out) \<noteq> script then find_output_script script outs (k + 1) else Some k)"

definition perform_fundchannel_complete :: "mfc_config \<Rightarrow> mfc_config" where
  "perform_fundchannel_complete c =
     (case txid (mfc c) of
        None \<Rightarrow> mfc_abort c
      | Some t \<Rightarrow>
          (emit (map (\<lambda>dest. Req_fundchannel_complete (dest_id dest) t (outnum dest))
                   (destinations (mfc c)))
             (set_destinations (map (\<lambda>dest. dest\<lparr>spark := True\<rparr>) (destinations (mfc c))) c))
            \<lparr>phase := Ph_fundchannel_complete\<rparr>)"

definition after_txprepare ::
  "bitcoin_txid option \<Rightarrow> tx_output list option \<Rightarrow> mfc_config \<Rightarrow> mfc_config" where
  "after_txprepare txid_result tx_result c =
     (case txid_result of
        None \<Rightarrow> mfc_abort c
      | Some t \<Rightarrow>
          (let c1 = c\<lparr>mfc := (mfc c)\<lparr>txid := Some t\<rparr>\<rparr> in
           case tx_result of
             None \<Rightarrow> mfc_abort c1
           | Some outs \<Rightarrow>
               (case those (map (\<lambda>dest. map_option (\<lambda>k. dest\<lparr>outnum := of_nat k\<rparr>)
                                          (find_output_script (funding_script dest) outs 0))
                              (destinations (mfc c1))) of
                  None \<Rightarrow> mfc_abort c1
                | Some dests \<Rightarrow> perform_fundchannel_complete (set_destinations dests c1))))"

text \<open>
  \<open>perform_txsend\<close>: every destination is marked done, the txid is taken out of the
  command, and only then is \<open>txsend\<close> sent.
\<close>

definition perform_txsend :: "mfc_config \<Rightarrow> mfc_config" where
  "perform_txsend c =
     (let dests = map (\<lambda>dest. dest\<lparr>fundchannel_start_state := multifundchannel_done\<rparr>)
                    (destinations (mfc c));
          c1 = emit (map (\<lambda>i. Ev_set_state i multifundchannel_done) [0 ..< length dests])
                 (set_destinations dests c)
      in case txid (mfc c1) of
           None \<Rightarrow> mfc_abort c1
         | Some t \<Rightarrow> (emit [Req_txsend t] (c1\<lparr>mfc := (mfc c1)\<lparr>txid := None\<rparr>\<rparr>))\<lparr>phase := Ph_txsend\<rparr>)"

definition after_fundchannel_complete :: "mfc_config \<Rightarrow> mfc_config" where
  "after_fundchannel_complete c =
     after_sparked multifundchannel_complete_failed perform_txsend c"

text \<open>The two callbacks of a \<open>fundchannel_complete\<close> request, for destination \<open>i\<close>.\<close>

definition fundchannel_complete_ok :: "nat \<Rightarrow> string option \<Rightarrow> mfc_config \<Rightarrow> mfc_config" where
  "fundchannel_complete_ok i chan_id c =
     (case chan_id of
        None \<Rightarrow> mfc_abort c
      | Some ch \<Rightarrow>
          plugin_spark_complete after_fundchannel_complete
            (set_destinations
               ((destinations (mfc c))[i := (destinations (mfc c) ! i)
                   \<lparr>channel_id := Some ch, spark := False\<rparr>]) c))"

definition fundchannel_complete_err :: "nat \<Rightarrow> string \<Rightarrow> mfc_config \<Rightarrow> mfc_config" where
  "fundchannel_complete_err i err c =
     plugin_spark_complete after_fundchannel_complete
       (emit [Ev_set_state i multifundchannel_complete_failed]
          (set_destinations
             ((destinations (mfc c))[i := (destinations (mfc c) ! i)
                 \<lparr>fundchannel_start_state := multifundchannel_complete_failed,
                  spark := False, dest_error := Some err\<rparr>]) c))"

definition multifundchannel_finished :: "mfc_config \<Rightarrow> mfc_config" where
  "multifundchannel_finished c =
     mfc_finished (Reply_success (final_tx (mfc c)) (final_txid (mfc c))
                     (map channel_id (destinations (mfc c)))) c"

definition after_txsend :: "string option \<Rightarrow> string option \<Rightarrow> mfc_config \<Rightarrow> mfc_config" where
  "after_txsend tx_result txid_result c =
     (case tx_result of
        None \<Rightarrow> mfc_abort c
      | Some tx \<Rightarrow>
          (case txid_result of
             None \<Rightarrow> mfc_abort (c\<lparr>mfc := (mfc c)\<lparr>final_tx := Some tx\<rparr>\<rparr>)
           | Some t \<Rightarrow>
               multifundchannel_finished
                 (c\<lparr>mfc := (mfc c)\<lparr>final_tx := Some tx, final_txid := Some t\<rparr>\<rparr>)))"

text \<open>
  One callback: the response \<open>input\<close> arrives while the command is in its current phase.
  A response to a request that is not in flight cannot arrive, and leaves the
  configuration as it is: a reply of a spark counts only while the spark of that
  destination runs.
\<close>

definition spark_running :: "nat \<Rightarrow> mfc_config \<Rightarrow> bool" where
  "spark_running i c =
     (i < length (destinations (mfc c)) \<and> spark (destinations (mfc c) ! i))"

definition mfc_handle :: "mfc_env \<Rightarrow> mfc_input \<Rightarrow> mfc_config \<Rightarrow> mfc_config" where
  "mfc_handle env input c =
     (case phase c of
        Ph_multiconnect \<Rightarrow>
          (case input of
             In_multiconnect_ok ids features \<Rightarrow> after_multiconnect env ids features c
           | In_rpc_err e \<Rightarrow> mfc_forward_error e c
           | _ \<Rightarrow> c)
      | Ph_dryrun_txprepare \<Rightarrow>
          (case input of
             In_txprepare_ok t tx \<Rightarrow> after_dryrun_txprepare env t tx c
           | In_rpc_err e \<Rightarrow> mfc_forward_error e c
           | _ \<Rightarrow> c)
      | Ph_fundchannel_start \<Rightarrow>
          (case input of
             In_fundchannel_start_ok i a sc \<Rightarrow>
               if spark_running i c then fundchannel_start_ok i a sc c else c
           | In_fundchannel_start_err i e \<Rightarrow>
               if spark_running i c then fundchannel_start_err i e c else c
           | _ \<Rightarrow> c)
      | Ph_txdiscard \<Rightarrow>
          (case input of
             In_txdiscard_ok \<Rightarrow> after_txdiscard c
           | In_rpc_err e \<Rightarrow> mfc_forward_error e c
           | _ \<Rightarrow> c)
      | Ph_txprepare \<Rightarrow>
          (case input of
             In_txprepare_ok t tx \<Rightarrow> after_txprepare t tx c
           | In_rpc_err e \<Rightarrow> mfc_forward_error e c
           | _ \<Rightarrow> c)
      | Ph_fundchannel_complete \<Rightarrow>
          (case input of
             In_fundchannel_complete_ok i ch \<Rightarrow>
               if spark_running i c then fundchannel_complete_ok i ch c else c
           | In_fundchannel_complete_err i e \<Rightarrow>
               if spark_running i c then fundchannel_complete_err i e c else c
           | _ \<Rightarrow> c)
      | Ph_txsend \<Rightarrow>
          (case input of
             In_txsend_ok tx t \<Rightarrow> after_txsend tx t c
           | In_rpc_err e \<Rightarrow> mfc_forward_error e c
           | _ \<Rightarrow> c)
      | Ph_cleanup k r \<Rightarrow>
          (case input of
             In_cleanup_spark_done \<Rightarrow> mfc_cleanup_spark_done k r c
           | _ \<Rightarrow> c)
      | Ph_replied \<Rightarrow> c
      | Ph_aborted \<Rightarrow> c)"

text \<open>An execution: the command is started and the responses arrive one after the other.\<close>

fun mfc_run :: "mfc_env \<Rightarrow> mfc_input list \<Rightarrow> mfc_config \<Rightarrow> mfc_config" where
  "mfc_run env [] c = c"
| "mfc_run env (input # inputs) c = mfc_run env inputs (mfc_handle env input c)"

definition multifundchannel :: "mfc_env \<Rightarrow> mfc_params option \<Rightarrow> mfc_input list \<Rightarrow> mfc_config" where
  "multifundchannel env params inputs = mfc_run env inputs (json_multifundchannel params)"

text \<open>
  The state of destination \<open>i\<close> that a trace leaves: its last assignment, and
  \<open>multifundchannel_start_not_yet\<close> when there is none.
\<close>

definition apply_state_event ::
  "nat \<Rightarrow> multifundchannel_start \<Rightarrow> mfc_event \<Rightarrow> multifundchannel_start" where
  "apply_state_event i st ev =
     (case ev of Ev_set_state j st1 \<Rightarrow> if j = i then st1 else st | _ \<Rightarrow> st)"

definition state_after :: "mfc_event list \<Rightarrow> nat \<Rightarrow> multifundchannel_start" where
  "state_after evs i = foldl (apply_state_event i) multifundchannel_start_not_yet evs"


text \<open>A command with one destination asking for "all", and a dry-run transaction for it.\<close>

definition ex_env :: mfc_env where
  "ex_env = \<lparr>sha256 = (\<lambda>s. map (of_nat \<circ> of_char) s),
             encode_scriptpubkey_to_addr = (\<lambda>sc. map (char_of \<circ> unat) sc),
             large_channels_negotiated = (\<lambda>f. False),
             max_funding = 16777215\<rparr>"



section \<open>plugins/txaccelerate: the fee acceleration loop\<close>

text \<open>
  \<open>struct txaccelerate_command\<close>, without the plugin command and the logs. The
  \<open>double aggression\<close> is a rational number: the arithmetic below is the arithmetic of
  doubles as long as every operand and result is an integer below \<open>2^53\<close> or a
  quotient of two such integers that a double holds exactly, which is so at the inputs
  evaluated here.
\<close>

record txaccelerate_command =
  acc_txid :: bitcoin_txid
  max_acceptable_fee :: u64
  aggression :: rat
  blockheight :: u32
  txacc_id :: "string option"
  txacc_total_fee :: u64
  txacc_delta_fee :: u64
  txacc_max_fee :: u64
  have_accelerated :: bool
  final_fee :: u64

text \<open>The default of the \<open>aggression\<close> parameter, as \<open>p_opt_def\<close> has it: \<open>(10) * 1000000\<close>.\<close>

definition default_aggression_millionths :: u64 where
  "default_aggression_millionths = 10 * 1000000"

text \<open>
  \<open>json_txaccelerate\<close> after \<open>param\<close>: the fields it sets. The aggression is
  \<open>((double) *aggression_millionths) / (1000000.0 / 100.0)\<close>.
\<close>

definition json_txaccelerate :: "bitcoin_txid \<Rightarrow> u64 \<Rightarrow> u64 option \<Rightarrow> txaccelerate_command" where
  "json_txaccelerate t max_fee aggression_arg =
     (let aggression_millionths =
            (case aggression_arg of None \<Rightarrow> default_aggression_millionths | Some a \<Rightarrow> a)
      in \<lparr>acc_txid = t, max_acceptable_fee = max_fee,
          aggression = of_nat (unat aggression_millionths) / (1000000 / 100),
          blockheight = 0, txacc_id = None,
          txacc_total_fee = 0, txacc_delta_fee = 0, txacc_max_fee = 0,
          have_accelerated = False, final_fee = 0\<rparr>)"

text \<open>\<open>update_txaccelerate_result\<close>, for a result that holds the three fees.\<close>

definition update_txaccelerate_result ::
  "u64 \<Rightarrow> u64 \<Rightarrow> u64 \<Rightarrow> txaccelerate_command \<Rightarrow> txaccelerate_command" where
  "update_txaccelerate_result total_fee delta_fee max_fee acc =
     acc\<lparr>txacc_total_fee := total_fee, txacc_delta_fee := delta_fee, txacc_max_fee := max_fee\<rparr>"

text \<open>What \<open>acc_loop\<close> goes on to do.\<close>

datatype acc_next = Acc_wait_and_retry | Acc_fail_never_accelerated | Acc_execute u64

text \<open>
  \<open>acc_loop\<close>. The tweak is computed in doubles and stored in a \<open>u64\<close>, which
  truncates; the fee passed to \<open>txaccelerate_execute\<close> is \<open>txacc_total_fee\<close>.
\<close>

definition acc_loop :: "txaccelerate_command \<Rightarrow> txaccelerate_command \<times> acc_next" where
  "acc_loop acc =
     (if txacc_delta_fee acc = 0 \<and> txacc_total_fee acc = txacc_max_fee acc
      then (acc, Acc_wait_and_retry)
      else if txacc_total_fee acc > max_acceptable_fee acc
      then (if \<not> have_accelerated acc then (acc, Acc_fail_never_accelerated)
            else (acc, Acc_wait_and_retry))
      else
        (let total_fee_satoshi = txacc_total_fee acc;
             max_acceptable_fee_satoshi = max_acceptable_fee acc;
             tweaked = (word_of_int
                          \<lfloor>of_nat (unat (max_acceptable_fee_satoshi - total_fee_satoshi))
                             * aggression acc
                           + of_nat (unat total_fee_satoshi)\<rfloor> :: u64);
             capped = (if tweaked > txacc_max_fee acc then txacc_max_fee acc else tweaked)
         in (acc\<lparr>txacc_total_fee := capped\<rparr>, Acc_execute capped)))"

text \<open>
  \<open>txaccelerate_execute_err\<close>, on the error code \<open>get_code\<close> extracts (the source of
  \<open>get_code\<close> lacks its \<open>return\<close>; the model returns the code it parsed). The two codes
  it tests are constants of common/jsonrpc_errors.h, parameters here.
\<close>

datatype acc_after_error = Acc_success | Acc_reestimate | Acc_forward_error

definition txaccelerate_execute_err :: "int \<Rightarrow> int \<Rightarrow> int \<Rightarrow> acc_after_error" where
  "txaccelerate_execute_err id_not_found fund_cannot_afford code =
     (if code = id_not_found then Acc_success
      else if code = fund_cannot_afford then Acc_reestimate
      else Acc_forward_error)"

definition txaccelerate_execute_ok :: "txaccelerate_command \<Rightarrow> txaccelerate_command" where
  "txaccelerate_execute_ok acc = acc\<lparr>have_accelerated := True, final_fee := txacc_total_fee acc\<rparr>"


section \<open>common/amount: checked arithmetic on amounts\<close>

text \<open>
  Modelled from the spec: \<open>amount_msat_sub\<close> and \<open>amount_msat_add\<close> of common/amount.c,
  which is not among the sources. The spec takes a difference of amounts to be at
  least zero and the callers' comments say the same: the subtraction fails when the
  result would be negative, the addition fails when it overflows 64 bits.
\<close>

definition amount_msat_sub :: "u64 \<Rightarrow> u64 \<Rightarrow> u64 option" where
  "amount_msat_sub a b = (if b > a then None else Some (a - b))"

definition amount_msat_add :: "u64 \<Rightarrow> u64 \<Rightarrow> u64 option" where
  "amount_msat_add a b = (if unat a + unat b \<ge> 2 ^ 64 then None else Some (a + b))"

section \<open>plugins/permuteroute: route repair\<close>

datatype route_hop_style = ROUTE_HOP_LEGACY | ROUTE_HOP_TLV

text \<open>\<open>struct route_hop\<close> (common/route.h is not among the sources; these are the fields
  the file reads and writes).\<close>

record route_hop =
  hop_channel_id :: short_channel_id
  hop_direction :: nat
  hop_nodeid :: node_id
  hop_amount :: u64
  hop_delay :: u32
  hop_style :: route_hop_style

record permuteroute_channel_data =
  pcd_source :: node_id
  pcd_destination :: node_id
  pcd_scid :: short_channel_id
  pcd_direction :: nat
  pcd_active :: bool
  pcd_base_fee :: u64
  pcd_fee_per_millionth :: u32
  pcd_delay :: u32
  pcd_htlc_minimum_msat :: u64
  pcd_htlc_maximum_msat :: u64

record permuteroute_command =
  prc_route :: "route_hop list"
  prc_erring_index :: nat
  prc_nodefailure :: bool
  prc_startnode :: node_id
  prc_exclude_nodes :: "node_id list"
  prc_exclude_chans :: "(short_channel_id \<times> nat) list"
  prc_dest_index :: nat
  prc_dest_node :: node_id
  prc_dest_amount :: u64
  prc_dest_delay :: u32
  prc_dest_style :: route_hop_style
  prc_source_index :: nat
  prc_source_node :: node_id
  prc_source_out_amount :: u64
  prc_source_channels :: "permuteroute_channel_data list"
  prc_splice_route :: "route_hop list"
  prc_prefix_amount :: u64
  prc_prefix_delay :: u32

datatype prc_error = Invalid_params string | Route_not_found string

text \<open>How the command ends: with a route, with \<open>command_fail\<close>, with
  \<open>command_param_failed\<close>, or with the plugin aborted by \<open>plugin_err\<close>.\<close>

datatype prc_outcome =
    Prc_finished "route_hop list"
  | Prc_fail prc_error
  | Prc_param_failed
  | Prc_plugin_err

datatype exclusion = Excl_node node_id | Excl_chan short_channel_id nat | Excl_unparseable

text \<open>The arguments as \<open>param\<close> parses them. \<open>pp_exclude\<close>: absent, or a value that is
  an array (\<open>Some\<close> of its entries) or is not.\<close>

record permuteroute_params =
  pp_route :: "route_hop list"
  pp_erring_index :: nat
  pp_nodefailure :: bool
  pp_source :: "node_id option"
  pp_exclude :: "exclusion list option option"

text \<open>
  What the command asks of lightningd, and what it uses of other files:
  \<open>listchannels\<close> and \<open>listnodes\<close> answer with an error (\<open>None\<close>) or a result; a
  result without a well-formed array is \<open>Some None\<close>, an entry that does not parse is
  \<open>None\<close> in the array. \<open>amount_msat_add_fee\<close> is the function of common/amount.c
  (\<open>None\<close> when it returns false), \<open>var_onion_offered\<close> is
  \<open>feature_offered(features, OPT_VAR_ONION)\<close>.
\<close>

record prc_env =
  my_id :: node_id
  listchannels :: "node_id \<Rightarrow> permuteroute_channel_data option list option option"
  listnodes :: "node_id \<Rightarrow> u8 list option list option option"
  amount_msat_add_fee :: "u64 \<Rightarrow> u32 \<Rightarrow> u32 \<Rightarrow> u64 option"
  var_onion_offered :: "u8 list \<Rightarrow> bool"

fun json_to_exclusions ::
  "exclusion list \<Rightarrow> (node_id list \<times> (short_channel_id \<times> nat) list) option" where
  "json_to_exclusions [] = Some ([], [])"
| "json_to_exclusions (Excl_node n # rest) =
     map_option (\<lambda>(ns, cs). (n # ns, cs)) (json_to_exclusions rest)"
| "json_to_exclusions (Excl_chan c d # rest) =
     map_option (\<lambda>(ns, cs). (ns, (c, d) # cs)) (json_to_exclusions rest)"
| "json_to_exclusions (Excl_unparseable # rest) = None"

text \<open>\<open>json_permuteroute\<close> up to the call of \<open>prc_start\<close>: the checks and the extraction.\<close>

definition json_permuteroute ::
  "prc_env \<Rightarrow> permuteroute_params \<Rightarrow> prc_error + permuteroute_command" where
  "json_permuteroute env prm =
     (let startnode = (case pp_source prm of None \<Rightarrow> my_id env | Some n \<Rightarrow> n);
          route = pp_route prm;
          erring_index = pp_erring_index prm;
          nodefailure = pp_nodefailure prm;
          excl = (case pp_exclude prm of
                    None \<Rightarrow> Some ([], [])
                  | Some None \<Rightarrow> None
                  | Some (Some entries) \<Rightarrow> json_to_exclusions entries)
      in case excl of
           None \<Rightarrow> Inl (Invalid_params ''excludes could not be parsed'')
         | Some (exclude_nodes, exclude_chans) \<Rightarrow>
             if length route = 0 then Inl (Invalid_params ''route cannot be empty.'')
             else if nodefailure \<and> erring_index = 0
             then Inl (Invalid_params ''erring_index cannot be 0 for node failures.'')
             else if erring_index \<ge> length route
             then Inl (Invalid_params ''erring_index cannot exceed route length.'')
             else
               (let source_index = (if nodefailure then erring_index - 1 else erring_index);
                    dest_index = erring_index + 1
                in Inr \<lparr>prc_route = route, prc_erring_index = erring_index,
                         prc_nodefailure = nodefailure, prc_startnode = startnode,
                         prc_exclude_nodes = exclude_nodes @ map hop_nodeid route @ [startnode],
                         prc_exclude_chans = exclude_chans,
                         prc_dest_index = dest_index,
                         prc_dest_node = hop_nodeid (route ! (dest_index - 1)),
                         prc_dest_amount = hop_amount (route ! (dest_index - 1)),
                         prc_dest_delay = hop_delay (route ! (dest_index - 1)),
                         prc_dest_style = hop_style (route ! (dest_index - 1)),
                         prc_source_index = source_index,
                         prc_source_node =
                           (if source_index = 0 then startnode
                            else hop_nodeid (route ! (source_index - 1))),
                         prc_source_out_amount = hop_amount (route ! source_index),
                         prc_source_channels = [], prc_splice_route = [],
                         prc_prefix_amount = 0, prc_prefix_delay = 0\<rparr>))"

definition is_excluded_chan :: "permuteroute_command \<Rightarrow> short_channel_id \<Rightarrow> nat \<Rightarrow> bool" where
  "is_excluded_chan prc scid direction = ((scid, direction) \<in> set (prc_exclude_chans prc))"

definition is_excluded_node :: "permuteroute_command \<Rightarrow> node_id \<Rightarrow> bool" where
  "is_excluded_node prc n = (n \<in> set (prc_exclude_nodes prc))"

text \<open>Whether the loop of \<open>prc_filter_source_chans\<close> keeps a channel.\<close>

definition source_chan_usable :: "permuteroute_command \<Rightarrow> permuteroute_channel_data \<Rightarrow> bool" where
  "source_chan_usable prc one_chan =
     (pcd_source one_chan = prc_source_node prc
      \<and> \<not> prc_source_out_amount prc < pcd_htlc_minimum_msat one_chan
      \<and> \<not> prc_source_out_amount prc > pcd_htlc_maximum_msat one_chan
      \<and> \<not> is_excluded_chan prc (pcd_scid one_chan) (pcd_direction one_chan)
      \<and> \<not> is_excluded_node prc (pcd_destination one_chan))"

text \<open>Whether the loop of \<open>prc_check_destination_chans\<close> goes on to look for a match.\<close>

definition dest_chan_usable :: "permuteroute_command \<Rightarrow> permuteroute_channel_data \<Rightarrow> bool" where
  "dest_chan_usable prc one_chan =
     (pcd_destination one_chan = prc_dest_node prc
      \<and> \<not> prc_dest_amount prc < pcd_htlc_minimum_msat one_chan
      \<and> \<not> prc_dest_amount prc > pcd_htlc_maximum_msat one_chan
      \<and> \<not> is_excluded_chan prc (pcd_scid one_chan) (pcd_direction one_chan))"

text \<open>
  \<open>prc_splice\<close>: the two hops of the splice and what must arrive at its start. The base
  fee is passed to a \<open>u32\<close> parameter of \<open>amount_msat_add_fee\<close>.
\<close>

definition prc_splice ::
  "prc_env \<Rightarrow> permuteroute_command \<Rightarrow> permuteroute_channel_data \<Rightarrow> permuteroute_channel_data
   \<Rightarrow> prc_error + permuteroute_command" where
  "prc_splice env prc hop1 hop2 =
     (let h2 = \<lparr>hop_channel_id = pcd_scid hop2, hop_direction = pcd_direction hop2,
                hop_nodeid = pcd_destination hop2, hop_amount = prc_dest_amount prc,
                hop_delay = prc_dest_delay prc, hop_style = prc_dest_style prc\<rparr>
      in case amount_msat_add_fee env (prc_dest_amount prc) (ucast (pcd_base_fee hop2))
                (pcd_fee_per_millionth hop2) of
           None \<Rightarrow> Inl (Route_not_found ''Route fee overflow.'')
         | Some amount1 \<Rightarrow>
             (let h1 = \<lparr>hop_channel_id = pcd_scid hop1, hop_direction = pcd_direction hop1,
                        hop_nodeid = pcd_destination hop1, hop_amount = amount1,
                        hop_delay = prc_dest_delay prc + pcd_delay hop2,
                        hop_style = ROUTE_HOP_LEGACY\<rparr>
              in case amount_msat_add_fee env amount1 (ucast (pcd_base_fee hop1))
                        (pcd_fee_per_millionth hop1) of
                   None \<Rightarrow> Inl (Route_not_found ''Route fee overflow.'')
                 | Some prefix_amount \<Rightarrow>
                     Inr (prc\<lparr>prc_splice_route := [h1, h2],
                              prc_prefix_amount := prefix_amount,
                              prc_prefix_delay := hop_delay h1 + pcd_delay hop1\<rparr>)))"

text \<open>
  The loop of \<open>prc_complete\<close> over the copied prefix, last hop first: \<open>hops\<close> is the
  prefix reversed. \<open>None\<close>: an addition overflowed, which is a \<open>plugin_err\<close>.
\<close>

fun adjust_prefix :: "route_hop list \<Rightarrow> u64 \<Rightarrow> u32 \<Rightarrow> route_hop list option" where
  "adjust_prefix [] amount_delta delay_delta = Some []"
| "adjust_prefix (e # hops) amount_delta delay_delta =
     (case amount_msat_add (hop_amount e) amount_delta of
        None \<Rightarrow> None
      | Some a \<Rightarrow>
          (case amount_msat_add amount_delta 1 of
             None \<Rightarrow> None
           | Some amount_delta1 \<Rightarrow>
               map_option (\<lambda>r. e\<lparr>hop_amount := a, hop_delay := hop_delay e + delay_delta\<rparr> # r)
                 (adjust_prefix hops amount_delta1 delay_delta)))"

definition prc_output :: "permuteroute_command \<Rightarrow> route_hop list \<Rightarrow> prc_outcome" where
  "prc_output prc prefix =
     Prc_finished (prefix @ take 2 (prc_splice_route prc) @ drop (prc_dest_index prc) (prc_route prc))"

definition prc_complete :: "permuteroute_command \<Rightarrow> prc_outcome" where
  "prc_complete prc =
     (if prc_source_index prc = 0 then prc_output prc []
      else
        (let prefix = take (prc_source_index prc) (prc_route prc);
             amount_last = hop_amount (prefix ! (length prefix - 1));
             delay_last = hop_delay (prefix ! (length prefix - 1));
             amount_delta = (case amount_msat_sub (prc_prefix_amount prc) amount_last of
                               None \<Rightarrow> 0 | Some d \<Rightarrow> d);
             delay_delta = (if prc_prefix_delay prc > delay_last
                            then prc_prefix_delay prc - delay_last else 0)
         in if amount_delta = 0 \<and> delay_delta = 0 then prc_output prc prefix
            else (case adjust_prefix (rev prefix) amount_delta delay_delta of
                    None \<Rightarrow> Prc_plugin_err
                  | Some r \<Rightarrow> prc_output prc (rev r))))"

text \<open>\<open>prc_get_listnodes_features\<close>, on a result of \<open>listnodes\<close>.\<close>

definition prc_get_listnodes_features ::
  "prc_env \<Rightarrow> u8 list option list option \<Rightarrow> permuteroute_command \<Rightarrow> prc_outcome" where
  "prc_get_listnodes_features env result prc =
     (case result of
        None \<Rightarrow> Prc_plugin_err
      | Some nodes \<Rightarrow>
          if length nodes \<noteq> 1
          then Prc_fail (Route_not_found ''Intermediate node disappeared in a race condition, cowardly failing.'')
          else
            (case nodes ! 0 of
               None \<Rightarrow> Prc_plugin_err
             | Some features \<Rightarrow>
                 prc_complete
                   (prc\<lparr>prc_splice_route :=
                          (prc_splice_route prc)
                            [0 := (prc_splice_route prc ! 0)
                               \<lparr>hop_style := (if var_onion_offered env features
                                               then ROUTE_HOP_TLV else ROUTE_HOP_LEGACY)\<rparr>]\<rparr>)))"

text \<open>\<open>prc_splice\<close> with the \<open>listnodes\<close> request it sends and the callbacks of that
  request.\<close>

definition prc_splice_and_complete ::
  "prc_env \<Rightarrow> permuteroute_command \<Rightarrow> permuteroute_channel_data \<Rightarrow> permuteroute_channel_data
   \<Rightarrow> prc_outcome" where
  "prc_splice_and_complete env prc hop1 hop2 =
     (case prc_splice env prc hop1 hop2 of
        Inl err \<Rightarrow> Prc_fail err
      | Inr prc1 \<Rightarrow>
          (case listnodes env (pcd_destination hop1) of
             None \<Rightarrow> Prc_fail (Route_not_found ''Failed RPC command: listnodes'')
           | Some result \<Rightarrow> prc_get_listnodes_features env result prc1))"

text \<open>The loop of \<open>prc_check_destination_chans\<close> over the entries of the result.\<close>

fun prc_check_destination_loop ::
  "prc_env \<Rightarrow> permuteroute_command \<Rightarrow> permuteroute_channel_data option list \<Rightarrow> prc_outcome" where
  "prc_check_destination_loop env prc [] =
     Prc_fail (Route_not_found ''No route to fix erring_index.'')"
| "prc_check_destination_loop env prc (None # entries) = Prc_plugin_err"
| "prc_check_destination_loop env prc (Some one_chan # entries) =
     (if \<not> dest_chan_usable prc one_chan then prc_check_destination_loop env prc entries
      else (case find (\<lambda>src. pcd_source one_chan = pcd_destination src)
                   (prc_source_channels prc) of
              None \<Rightarrow> prc_check_destination_loop env prc entries
            | Some src \<Rightarrow> prc_splice_and_complete env prc src one_chan))"

definition prc_get_dest_channels :: "prc_env \<Rightarrow> permuteroute_command \<Rightarrow> prc_outcome" where
  "prc_get_dest_channels env prc =
     (case listchannels env (prc_dest_node prc) of
        None \<Rightarrow> Prc_fail (Route_not_found ''Failed RPC command: listchannels destination'')
      | Some None \<Rightarrow> Prc_plugin_err
      | Some (Some entries) \<Rightarrow> prc_check_destination_loop env prc entries)"

definition prc_filter_source_chans ::
  "prc_env \<Rightarrow> permuteroute_channel_data option list option \<Rightarrow> permuteroute_command
   \<Rightarrow> prc_outcome" where
  "prc_filter_source_chans env result prc =
     (case result of
        None \<Rightarrow> Prc_plugin_err
      | Some entries \<Rightarrow>
          (case those entries of
             None \<Rightarrow> Prc_plugin_err
           | Some chans \<Rightarrow>
               (let prc1 = prc\<lparr>prc_source_channels := filter (source_chan_usable prc) chans\<rparr>
                in if length (prc_source_channels prc1) = 0
                   then Prc_fail (Route_not_found ''No other usable channels before erring_index.'')
                   else prc_get_dest_channels env prc1)))"

definition prc_start :: "prc_env \<Rightarrow> permuteroute_command \<Rightarrow> prc_outcome" where
  "prc_start env prc =
     (case listchannels env (prc_source_node prc) of
        None \<Rightarrow> Prc_fail (Route_not_found ''Failed RPC command: listchannels source'')
      | Some result \<Rightarrow> prc_filter_source_chans env result prc)"

text \<open>The command: \<open>None\<close> for the arguments is \<open>param\<close> failing.\<close>

definition permuteroute :: "prc_env \<Rightarrow> permuteroute_params option \<Rightarrow> prc_outcome" where
  "permuteroute env params =
     (case params of
        None \<Rightarrow> Prc_param_failed
      | Some prm \<Rightarrow>
          (case json_permuteroute env prm of
             Inl err \<Rightarrow> Prc_fail err
           | Inr prc \<Rightarrow> prc_start env prc))"

text \<open>The prefix \<open>prc_complete\<close> puts before the splice, hop by hop: what the claim says
  it is.\<close>

definition prefix_amount_delta :: "permuteroute_command \<Rightarrow> u64" where
  "prefix_amount_delta prc =
     (let amount_last = hop_amount (prc_route prc ! (prc_source_index prc - 1))
      in if prc_prefix_amount prc \<ge> amount_last then prc_prefix_amount prc - amount_last else 0)"

definition prefix_delay_delta :: "permuteroute_command \<Rightarrow> u32" where
  "prefix_delay_delta prc =
     (let delay_last = hop_delay (prc_route prc ! (prc_source_index prc - 1))
      in if prc_prefix_delay prc > delay_last then prc_prefix_delay prc - delay_last else 0)"


text \<open>
  The repair of the spec's scenario: the route A (1, the payer), B (2), C (3), D (4) with
  the channel between B and C failing, and a node F (6) with channels to B and to C.
  The fee function of the example adds the base fee and the proportional part.
\<close>

definition ex_route :: "route_hop list" where
  "ex_route =
     [\<lparr>hop_channel_id = 12, hop_direction = 0, hop_nodeid = 2, hop_amount = 1003,
       hop_delay = 30, hop_style = ROUTE_HOP_TLV\<rparr>,
      \<lparr>hop_channel_id = 23, hop_direction = 0, hop_nodeid = 3, hop_amount = 1001,
       hop_delay = 20, hop_style = ROUTE_HOP_TLV\<rparr>,
      \<lparr>hop_channel_id = 34, hop_direction = 0, hop_nodeid = 4, hop_amount = 1000,
       hop_delay = 10, hop_style = ROUTE_HOP_LEGACY\<rparr>]"

definition ex_chanBF :: permuteroute_channel_data where
  "ex_chanBF = \<lparr>pcd_source = 2, pcd_destination = 6, pcd_scid = 26, pcd_direction = 0,
                pcd_active = True, pcd_base_fee = 1, pcd_fee_per_millionth = 0, pcd_delay = 6,
                pcd_htlc_minimum_msat = 0, pcd_htlc_maximum_msat = 1000000000\<rparr>"

definition ex_chanFC :: permuteroute_channel_data where
  "ex_chanFC = \<lparr>pcd_source = 6, pcd_destination = 3, pcd_scid = 63, pcd_direction = 1,
                pcd_active = True, pcd_base_fee = 2, pcd_fee_per_millionth = 0, pcd_delay = 5,
                pcd_htlc_minimum_msat = 0, pcd_htlc_maximum_msat = 1000000000\<rparr>"

definition ex_prc_env :: prc_env where
  "ex_prc_env =
     \<lparr>my_id = 1,
      listchannels = (\<lambda>n. if n = 2 then Some (Some [Some ex_chanBF])
                           else if n = 3 then Some (Some [Some ex_chanFC])
                           else Some (Some [])),
      listnodes = (\<lambda>n. Some (Some [Some [0x02]])),
      amount_msat_add_fee = (\<lambda>a b p. Some (a + ucast b + (a * ucast p) div 1000000)),
      var_onion_offered = (\<lambda>f. f \<noteq> [])\<rparr>"

definition ex_prc_params :: permuteroute_params where
  "ex_prc_params = \<lparr>pp_route = ex_route, pp_erring_index = 1, pp_nodefailure = False,
                    pp_source = None, pp_exclude = None\<rparr>"

definition ex_repaired :: "route_hop list" where
  "ex_repaired =
     [\<lparr>hop_channel_id = 12, hop_direction = 0, hop_nodeid = 2, hop_amount = 1004,
       hop_delay = 31, hop_style = ROUTE_HOP_TLV\<rparr>,
      \<lparr>hop_channel_id = 26, hop_direction = 0, hop_nodeid = 6, hop_amount = 1003,
       hop_delay = 25, hop_style = ROUTE_HOP_TLV\<rparr>,
      \<lparr>hop_channel_id = 63, hop_direction = 1, hop_nodeid = 3, hop_amount = 1001,
       hop_delay = 20, hop_style = ROUTE_HOP_TLV\<rparr>,
      \<lparr>hop_channel_id = 34, hop_direction = 0, hop_nodeid = 4, hop_amount = 1000,
       hop_delay = 10, hop_style = ROUTE_HOP_LEGACY\<rparr>]"


section \<open>plugins/libplugin-pathdiversity: the path-diversity tree\<close>

text \<open>
  \<open>struct pathdiversity_edge\<close>: a pair of nodes whose channels are banned, and the
  parent edge (NULL at a child of the root). The list node that links it into the
  queue is the queue's list here.
\<close>

datatype pathdiversity_edge =
  Pathdiversity_edge (pde_source: node_id) (pde_destination: node_id)
    (pde_parent: "pathdiversity_edge option")

definition new_pathdiversity_edge ::
  "node_id \<Rightarrow> node_id \<Rightarrow> pathdiversity_edge option \<Rightarrow> pathdiversity_edge" where
  "new_pathdiversity_edge source destination parent = Pathdiversity_edge source destination parent"

type_synonym pathdiversity_queue = "pathdiversity_edge list"

definition new_pathdiversity_queue :: pathdiversity_queue where
  "new_pathdiversity_queue = []"

definition pathdiversity_queue_push ::
  "pathdiversity_queue \<Rightarrow> pathdiversity_edge \<Rightarrow> pathdiversity_queue" where
  "pathdiversity_queue_push q e = q @ [e]"

definition pathdiversity_queue_pop ::
  "pathdiversity_queue \<Rightarrow> pathdiversity_edge option \<times> pathdiversity_queue" where
  "pathdiversity_queue_pop q = (case q of [] \<Rightarrow> (None, []) | e # rest \<Rightarrow> (Some e, rest))"

definition pathdiversity_queue_clear :: "pathdiversity_queue \<Rightarrow> pathdiversity_queue" where
  "pathdiversity_queue_clear q = []"

text \<open>\<open>struct pathdiversity_routecache\<close>: the array of the routes stored, each the array
  of the node ids of its hops.\<close>

type_synonym pathdiversity_routecache = "node_id list list"

definition new_pathdiversity_routecache :: pathdiversity_routecache where
  "new_pathdiversity_routecache = []"

text \<open>
  \<open>pathdiversity_routecache_lookup_or_insert\<close>: the stored routes are scanned from the
  last to the first; one of another size is skipped, one that has the node id of every
  hop is a match. True if not found and inserted, false if already there.
\<close>

definition routecache_match :: "route_hop list \<Rightarrow> node_id list \<Rightarrow> bool" where
  "routecache_match route scan =
     (length scan = length route \<and> list_all2 (\<lambda>n hop. n = hop_nodeid hop) scan route)"

definition pathdiversity_routecache_lookup_or_insert ::
  "pathdiversity_routecache \<Rightarrow> route_hop list \<Rightarrow> bool \<times> pathdiversity_routecache" where
  "pathdiversity_routecache_lookup_or_insert rc route =
     (if list_ex (routecache_match route) (rev rc) then (False, rc)
      else (True, rc @ [map hop_nodeid route]))"

definition pathdiversity_routecache_clear :: "pathdiversity_routecache \<Rightarrow> pathdiversity_routecache" where
  "pathdiversity_routecache_clear rc = []"

text \<open>
  An entry of the \<open>exclude\<close> array of \<open>getroute\<close>: a channel in one direction
  (\<open>scid/0\<close> or \<open>scid/1\<close>) or a node.
\<close>

datatype pd_exclude = Ex_channel short_channel_id nat | Ex_node node_id

text \<open>
  \<open>struct payment\<close> of plugins/libplugin-pay.h (not among the sources): the fields
  this file reads and writes. \<open>pay_excludes\<close> is what
  \<open>payment_getroute_splice_excludes\<close> writes into the request.
\<close>

record payment =
  pay_destination :: node_id
  pay_getroute_amount :: u64
  pay_getroute_cltv :: u32
  pay_max_hops :: nat
  pay_riskfactorppm :: u64
  pay_amount :: u64
  fee_budget :: u64
  cltv_budget :: u32
  pay_local_id :: node_id
  pay_excludes :: "pd_exclude list"
  pay_route :: "route_hop list option"
  pay_got_route :: bool

record getroute_request =
  gr_id :: node_id
  gr_msatoshi :: u64
  gr_cltv :: u32
  gr_maxhops :: nat
  gr_riskfactorppm :: u64
  gr_exclude :: "pd_exclude list"

text \<open>A channel of a \<open>listchannels\<close> result: its destination and its short channel id,
  each \<open>None\<close> when missing or unparseable.\<close>

record pd_channel =
  pdc_destination :: "node_id option"
  pdc_scid :: "short_channel_id option"

text \<open>
  The world outside the file. The two requests are answered as functions of the time
  (the number of requests sent before) and of their arguments, so that the same
  request may be answered differently later. \<open>pd_listchannels\<close>: \<open>None\<close> when the
  answer has no array \<open>channels\<close> (an error answer has none). \<open>pd_getroute\<close>: \<open>None\<close>
  for an error, \<open>Some None\<close> for a result whose route does not parse. The two budget
  repair helpers are functions of plugins/libplugin-pay.c, not among the sources.
\<close>

record pd_env =
  pd_listchannels :: "nat \<Rightarrow> node_id \<Rightarrow> pd_channel list option"
  pd_getroute :: "nat \<Rightarrow> getroute_request \<Rightarrow> route_hop list option option"
  payment_exclude_most_expensive :: "payment \<Rightarrow> route_hop list \<Rightarrow> payment"
  payment_exclude_longest_delay :: "payment \<Rightarrow> route_hop list \<Rightarrow> payment"

text \<open>
  The loop of \<open>pathdiversity_exclusion_after_listchannels\<close> over the channels of a
  result, for the edge with destination \<open>d\<close>. \<open>None\<close> is \<open>paymod_err\<close>.
\<close>

fun exclusion_scan ::
  "node_id \<Rightarrow> pd_channel list \<Rightarrow> short_channel_id list \<Rightarrow> short_channel_id list option" where
  "exclusion_scan d [] excludes = Some excludes"
| "exclusion_scan d (ch # chans) excludes =
     (case pdc_destination ch of
        None \<Rightarrow> None
      | Some destination \<Rightarrow>
          if destination \<noteq> d then exclusion_scan d chans excludes
          else (case pdc_scid ch of
                  None \<Rightarrow> None
                | Some scid \<Rightarrow> exclusion_scan d chans (excludes @ [scid])))"

text \<open>
  \<open>pathdiversity_exclusion_step\<close> with its callback: one \<open>listchannels\<close> per edge of
  the chain, from the edge up to the root. The result is the array handed to the
  callback (\<open>None\<close> after a \<open>paymod_err\<close>) and the time afterwards.
\<close>

fun pathdiversity_exclusion_step ::
  "pd_env \<Rightarrow> nat \<Rightarrow> pathdiversity_edge option \<Rightarrow> short_channel_id list
   \<Rightarrow> short_channel_id list option \<times> nat" where
  "pathdiversity_exclusion_step env clock None excludes = (Some excludes, clock)"
| "pathdiversity_exclusion_step env clock (Some (Pathdiversity_edge s d parent)) excludes =
     (case pd_listchannels env clock s of
        None \<Rightarrow> (None, clock + 1)
      | Some chans \<Rightarrow>
          (case exclusion_scan d chans excludes of
             None \<Rightarrow> (None, clock + 1)
           | Some excludes1 \<Rightarrow> pathdiversity_exclusion_step env (clock + 1) parent excludes1))"

definition pathdiversity_get_exclusions ::
  "pd_env \<Rightarrow> nat \<Rightarrow> pathdiversity_edge option \<Rightarrow> short_channel_id list option \<times> nat" where
  "pathdiversity_get_exclusions env clock e = pathdiversity_exclusion_step env clock e []"

text \<open>The request \<open>pathdiversity_getroute_got_exclusions\<close> sends.\<close>

definition pathdiversity_getroute_got_exclusions ::
  "payment \<Rightarrow> short_channel_id list \<Rightarrow> getroute_request" where
  "pathdiversity_getroute_got_exclusions p excs =
     \<lparr>gr_id = pay_destination p, gr_msatoshi = pay_getroute_amount p,
      gr_cltv = pay_getroute_cltv p, gr_maxhops = pay_max_hops p,
      gr_riskfactorppm = pay_riskfactorppm p,
      gr_exclude = pay_excludes p
                   @ concat (map (\<lambda>scid. [Ex_channel scid 0, Ex_channel scid 1]) excs)\<rparr>"


datatype pathdiversity_constraint_violation =
    PATHDIVERSITY_OK
  | PATHDIVERSITY_OUT_OF_FEES
  | PATHDIVERSITY_OUT_OF_TIME

text \<open>\<open>pathdiversity_check_constraints\<close> on the first hop of the route; \<open>None\<close> is the
  \<open>paymod_err\<close> for a negative fee.\<close>

definition pathdiversity_check_constraints ::
  "payment \<Rightarrow> route_hop \<Rightarrow> (pathdiversity_constraint_violation \<times> u64) option" where
  "pathdiversity_check_constraints p hop0 =
     (case amount_msat_sub (hop_amount hop0) (pay_amount p) of
        None \<Rightarrow> None
      | Some fee \<Rightarrow>
          if fee > fee_budget p then Some (PATHDIVERSITY_OUT_OF_FEES, fee)
          else if hop_delay hop0 > cltv_budget p then Some (PATHDIVERSITY_OUT_OF_TIME, fee)
          else Some (PATHDIVERSITY_OK, fee))"

text \<open>
  What is recorded of the work for one destination: each pop of the queue, each clear
  of the route cache and of the queue, each \<open>getroute\<close> sent, and how each payment
  left: with a route, failed, or with the plugin aborted.
\<close>

datatype pd_event =
    Pd_popped "pathdiversity_edge option"
  | Pd_routecache_cleared
  | Pd_queue_cleared
  | Pd_getroute getroute_request
  | Pd_route_returned "route_hop list"
  | Pd_payment_failed
  | Pd_aborted

text \<open>The queue and the route cache of a \<open>struct pathdiversity_destination\<close>, with the
  time and the record of events.\<close>

record pd_state =
  pd_q :: pathdiversity_queue
  pd_rc :: pathdiversity_routecache
  pd_clock :: nat
  pd_log :: "pd_event list"

datatype pd_outcome = Pd_got_route payment | Pd_failed payment | Pd_paymod_err

text \<open>What a callback of \<open>getroute\<close> does last: it calls \<open>pathdiversity_getroute_step\<close>
  again, or the attempt is over.\<close>

datatype pd_next = Pd_step_again | Pd_done pd_outcome

definition pd_record :: "pd_event list \<Rightarrow> pd_state \<Rightarrow> pd_state" where
  "pd_record evs st = st\<lparr>pd_log := pd_log st @ evs\<rparr>"

text \<open>The edges \<open>pathdiversity_getroute_ok\<close> pushes: one per hop, from the local node to
  the first hop and then from each hop to the next, all with the current edge as parent.\<close>

definition route_edges ::
  "node_id \<Rightarrow> route_hop list \<Rightarrow> pathdiversity_edge option \<Rightarrow> pathdiversity_edge list" where
  "route_edges local route e =
     map (\<lambda>(s, d). new_pathdiversity_edge s d e)
       (zip (local # map hop_nodeid route) (map hop_nodeid route))"

text \<open>\<open>pathdiversity_getroute_fail\<close>.\<close>

definition pathdiversity_getroute_fail ::
  "payment \<Rightarrow> pathdiversity_edge option \<Rightarrow> pd_state \<Rightarrow> pd_state \<times> pd_next" where
  "pathdiversity_getroute_fail p e st =
     (if e = None then (pd_record [Pd_payment_failed] st, Pd_done (Pd_failed p))
      else (st, Pd_step_again))"

text \<open>
  \<open>pathdiversity_getroute_ok\<close>, on the route of the result (\<open>None\<close> when it does not
  parse). The code reads \<open>route[0]\<close> without a check: an empty route is undefined
  behaviour there and an abort here.
\<close>

definition pathdiversity_getroute_ok ::
  "pd_env \<Rightarrow> payment \<Rightarrow> pathdiversity_edge option \<Rightarrow> route_hop list option \<Rightarrow> pd_state
   \<Rightarrow> pd_state \<times> pd_next" where
  "pathdiversity_getroute_ok env p e parsed st =
     (case parsed of
        None \<Rightarrow> (pd_record [Pd_aborted] st, Pd_done Pd_paymod_err)
      | Some route \<Rightarrow>
          (case pathdiversity_routecache_lookup_or_insert (pd_rc st) route of
             (False, rc1) \<Rightarrow> (st, Pd_step_again)
           | (True, rc1) \<Rightarrow>
               (case route of
                  [] \<Rightarrow> (pd_record [Pd_aborted] (st\<lparr>pd_rc := rc1\<rparr>), Pd_done Pd_paymod_err)
                | hop0 # _ \<Rightarrow>
                    (let st1 = st\<lparr>pd_rc := rc1,
                                  pd_q := foldl pathdiversity_queue_push (pd_q st)
                                            (route_edges (pay_local_id p) route e)\<rparr>
                     in case pathdiversity_check_constraints p hop0 of
                          None \<Rightarrow> (pd_record [Pd_aborted] st1, Pd_done Pd_paymod_err)
                        | Some (PATHDIVERSITY_OK, fee) \<Rightarrow>
                            (pd_record [Pd_route_returned route] st1,
                             Pd_done (Pd_got_route (p\<lparr>pay_route := Some route,
                                                      pay_got_route := True\<rparr>)))
                        | Some (res, fee) \<Rightarrow>
                            if e = None then
                              (pd_record [Pd_payment_failed] st1,
                               Pd_done (Pd_failed
                                 (if res = PATHDIVERSITY_OUT_OF_FEES
                                  then payment_exclude_most_expensive env (p\<lparr>pay_route := None\<rparr>) route
                                  else payment_exclude_longest_delay env (p\<lparr>pay_route := None\<rparr>) route)))
                            else
                              (pd_record [Pd_queue_cleared]
                                 (st1\<lparr>pd_q := pathdiversity_queue_clear (pd_q st1)\<rparr>),
                               Pd_step_again)))))"

text \<open>
  One round of \<open>pathdiversity_getroute_step\<close>: the pop, the clear of the route cache
  when the queue was empty, the exclusions, the \<open>getroute\<close> request and its callback.
\<close>

definition pathdiversity_getroute_round ::
  "pd_env \<Rightarrow> payment \<Rightarrow> pd_state \<Rightarrow> pd_state \<times> pd_next" where
  "pathdiversity_getroute_round env p st =
     (let (e, q1) = pathdiversity_queue_pop (pd_q st);
          st1 = pd_record [Pd_popped e] (st\<lparr>pd_q := q1\<rparr>);
          st2 = (if e = None
                 then pd_record [Pd_routecache_cleared]
                        (st1\<lparr>pd_rc := pathdiversity_routecache_clear (pd_rc st1)\<rparr>)
                 else st1)
      in case pathdiversity_get_exclusions env (pd_clock st2) e of
           (None, clock1) \<Rightarrow>
             (pd_record [Pd_aborted] (st2\<lparr>pd_clock := clock1\<rparr>), Pd_done Pd_paymod_err)
         | (Some excs, clock1) \<Rightarrow>
             (let req = pathdiversity_getroute_got_exclusions p excs;
                  st3 = pd_record [Pd_getroute req] (st2\<lparr>pd_clock := clock1 + 1\<rparr>)
              in case pd_getroute env clock1 req of
                   None \<Rightarrow> pathdiversity_getroute_fail p e st3
                 | Some parsed \<Rightarrow> pathdiversity_getroute_ok env p e parsed st3))"


text \<open>A round that ends in another call of \<open>pathdiversity_getroute_step\<close> has made the
  queue shorter: this is why the attempt ends.\<close>

lemma lookup_or_insert_empty:
  "pathdiversity_routecache_lookup_or_insert [] route = (True, [map hop_nodeid route])"
  by (simp add: pathdiversity_routecache_lookup_or_insert_def)

lemma getroute_ok_step_again:
  assumes "pathdiversity_getroute_ok env p e parsed st = (st1, Pd_step_again)"
  shows "e \<noteq> None \<or> pd_rc st \<noteq> []" and "length (pd_q st1) \<le> length (pd_q st)"
proof -
  show "e \<noteq> None \<or> pd_rc st \<noteq> []"
  proof (rule ccontr)
    assume "\<not> (e \<noteq> None \<or> pd_rc st \<noteq> [])"
    then have "e = None" "pd_rc st = []" by auto
    with assms show False
      by (auto simp: pathdiversity_getroute_ok_def lookup_or_insert_empty Let_def
          split: option.splits list.splits pathdiversity_constraint_violation.splits)
  qed
  show "length (pd_q st1) \<le> length (pd_q st)"
    using assms
    by (auto simp: pathdiversity_getroute_ok_def Let_def pd_record_def pathdiversity_queue_clear_def
        split: option.splits list.splits prod.splits bool.splits if_splits
          pathdiversity_constraint_violation.splits)
qed

lemma getroute_round_step_again:
  assumes "pathdiversity_getroute_round env p st = (st1, Pd_step_again)"
  shows "length (pd_q st1) < length (pd_q st)"
proof (cases "pd_q st")
  case Nil
  with assms show ?thesis
    by (auto simp: pathdiversity_getroute_round_def pathdiversity_queue_pop_def Let_def
        pd_record_def pathdiversity_routecache_clear_def pathdiversity_getroute_fail_def
        split: prod.splits option.splits dest!: getroute_ok_step_again(1))
next
  case (Cons e q1)
  with assms show ?thesis
    by (auto simp: pathdiversity_getroute_round_def pathdiversity_queue_pop_def Let_def
        pd_record_def pathdiversity_getroute_fail_def
        split: prod.splits option.splits dest!: getroute_ok_step_again(2))
qed

text \<open>
  \<open>pathdiversity_getroute_step\<close>: rounds until the attempt is over. The result is the
  state of the destination afterwards and how the payment left.
\<close>

function pathdiversity_getroute_step ::
  "pd_env \<Rightarrow> payment \<Rightarrow> pd_state \<Rightarrow> pd_state \<times> pd_outcome" where
  "pathdiversity_getroute_step env p st =
     (case pathdiversity_getroute_round env p st of
        (st1, Pd_done res) \<Rightarrow> (st1, res)
      | (st1, Pd_step_again) \<Rightarrow> pathdiversity_getroute_step env p st1)"
  by pat_completeness auto
termination
  by (relation "measure (\<lambda>(env, p, st). length (pd_q st))")
     (auto dest: getroute_round_step_again [OF sym])

declare pathdiversity_getroute_step.simps [simp del]

definition pathdiversity_getroute :: "pd_env \<Rightarrow> payment \<Rightarrow> pd_state \<Rightarrow> pd_state \<times> pd_outcome" where
  "pathdiversity_getroute env p st = pathdiversity_getroute_step env p st"

text \<open>
  The requests of a sequence of payments to one destination. The destination runs one
  attempt at a time, the next starting when the one before is done
  (\<open>pathdiversity_processing_done\<close>); after an abort of the plugin nothing runs.
\<close>

fun pathdiversity_requests :: "pd_env \<Rightarrow> payment list \<Rightarrow> pd_state \<Rightarrow> pd_state" where
  "pathdiversity_requests env [] st = st"
| "pathdiversity_requests env (p # ps) st =
     (case pathdiversity_getroute env p st of
        (st1, Pd_paymod_err) \<Rightarrow> st1
      | (st1, _) \<Rightarrow> pathdiversity_requests env ps st1)"

text \<open>The state of a destination just created by \<open>pathdiversity_start_payment_of\<close>, at
  a given time.\<close>

definition new_pathdiversity_destination :: "nat \<Rightarrow> pd_state" where
  "new_pathdiversity_destination clock =
     \<lparr>pd_q = new_pathdiversity_queue, pd_rc = new_pathdiversity_routecache,
      pd_clock = clock, pd_log = []\<rparr>"

text \<open>
  Reading a record of events from its start: the routes returned since the last clear
  of the route cache, by the node ids of their hops; \<open>None\<close> once a route is returned
  that was returned before since that clear.
\<close>

fun scan_log :: "node_id list list \<Rightarrow> pd_event list \<Rightarrow> node_id list list option" where
  "scan_log seen [] = Some seen"
| "scan_log seen (Pd_routecache_cleared # evs) = scan_log [] evs"
| "scan_log seen (Pd_route_returned r # evs) =
     (if map hop_nodeid r \<in> set seen then None else scan_log (map hop_nodeid r # seen) evs)"
| "scan_log seen (ev # evs) = scan_log seen evs"

text \<open>
  Two parallel channels (12 and 13) between the local node 1 and node 2, and a payment
  to node 2 that fits its budgets. \<open>getroute\<close> knows the one-hop route and nothing else:
  it fails as soon as a channel is excluded.
\<close>

definition ex_pd_route :: "route_hop list" where
  "ex_pd_route = [\<lparr>hop_channel_id = 12, hop_direction = 0, hop_nodeid = 2, hop_amount = 1000,
                   hop_delay = 9, hop_style = ROUTE_HOP_TLV\<rparr>]"

definition ex_pd_env :: pd_env where
  "ex_pd_env =
     \<lparr>pd_listchannels = (\<lambda>clock n. if n = 1
          then Some [\<lparr>pdc_destination = Some 2, pdc_scid = Some 12\<rparr>,
                     \<lparr>pdc_destination = Some 5, pdc_scid = Some 15\<rparr>,
                     \<lparr>pdc_destination = Some 2, pdc_scid = Some 13\<rparr>]
          else Some []),
      pd_getroute = (\<lambda>clock req. if gr_exclude req = [] then Some (Some ex_pd_route) else None),
      payment_exclude_most_expensive =
        (\<lambda>p route. p\<lparr>pay_excludes := Ex_channel (hop_channel_id (hd route)) 0 # pay_excludes p\<rparr>),
      payment_exclude_longest_delay =
        (\<lambda>p route. p\<lparr>pay_excludes := Ex_channel (hop_channel_id (last route)) 0 # pay_excludes p\<rparr>)\<rparr>"

definition ex_payment :: payment where
  "ex_payment =
     \<lparr>pay_destination = 2, pay_getroute_amount = 1000, pay_getroute_cltv = 9, pay_max_hops = 20,
      pay_riskfactorppm = 10000000, pay_amount = 1000, fee_budget = 5, cltv_budget = 100,
      pay_local_id = 1, pay_excludes = [], pay_route = None, pay_got_route = False\<rparr>"

definition ex_edge :: pathdiversity_edge where
  "ex_edge = Pathdiversity_edge 1 2 None"

text \<open>
  A second world: when the channels between nodes 1 and 2 are excluded, \<open>getroute\<close>
  answers the detour over node 3, which fits the budgets of the payment too.
\<close>

definition ex_pd_detour :: "route_hop list" where
  "ex_pd_detour = [\<lparr>hop_channel_id = 14, hop_direction = 0, hop_nodeid = 3, hop_amount = 1001,
                    hop_delay = 15, hop_style = ROUTE_HOP_TLV\<rparr>,
                   \<lparr>hop_channel_id = 34, hop_direction = 1, hop_nodeid = 2, hop_amount = 1000,
                    hop_delay = 9, hop_style = ROUTE_HOP_TLV\<rparr>]"

definition ex_pd_env_detour :: pd_env where
  "ex_pd_env_detour =
     ex_pd_env\<lparr>pd_getroute := (\<lambda>clock req. if gr_exclude req = [] then Some (Some ex_pd_route)
                                             else Some (Some ex_pd_detour))\<rparr>"

text \<open>
  The record of a destination is consistent with its route cache when no route was
  returned twice since the last clear of the route cache and the routes returned since
  then are all in the route cache.
\<close>

definition log_in_routecache :: "pd_state \<Rightarrow> bool" where
  "log_in_routecache st =
     (case scan_log [] (pd_log st) of
        None \<Rightarrow> False
      | Some seen \<Rightarrow> list_all (\<lambda>ids. ids \<in> set (pd_rc st)) seen)"

section \<open>plugins/multifundchannel: the shape of an execution\<close>

text \<open>
  The phases in which the pipeline still works towards the broadcast, and the events a
  trace holds until then: requests other than \<open>txsend\<close> and \<open>fundchannel_cancel\<close>, and
  assignments of a state other than \<open>multifundchannel_done\<close>.
\<close>

definition early_phase :: "mfc_phase \<Rightarrow> bool" where
  "early_phase ph =
     (case ph of
        Ph_multiconnect \<Rightarrow> True | Ph_dryrun_txprepare \<Rightarrow> True | Ph_fundchannel_start \<Rightarrow> True
      | Ph_txdiscard \<Rightarrow> True | Ph_txprepare \<Rightarrow> True | Ph_fundchannel_complete \<Rightarrow> True
      | _ \<Rightarrow> False)"

definition early_event :: "mfc_event \<Rightarrow> bool" where
  "early_event ev =
     (case ev of
        Req_txsend t \<Rightarrow> False | Req_fundchannel_cancel d \<Rightarrow> False
      | Ev_reply r \<Rightarrow> False | Ev_abort \<Rightarrow> False
      | Ev_set_state i s \<Rightarrow> s \<noteq> multifundchannel_done
      | _ \<Rightarrow> True)"

definition early_config :: "mfc_config \<Rightarrow> bool" where
  "early_config c = (early_phase (phase c) \<and> list_all early_event (trace c))"

text \<open>The assignments of \<open>perform_txsend\<close> for \<open>n\<close> destinations.\<close>

definition all_done :: "nat \<Rightarrow> mfc_event list" where
  "all_done n = map (\<lambda>i. Ev_set_state i multifundchannel_done) [0 ..< n]"

text \<open>
  What a trace looks like in each phase: early events, then either nothing, or the
  requests of a cleanup and the reply, or an abort, or the assignments of
  \<open>perform_txsend\<close> followed by \<open>txsend\<close> (by an abort when there is no txid) and then
  by at most the reply or an abort.
\<close>

definition mfc_inv :: "mfc_config \<Rightarrow> bool" where
  "mfc_inv c =
     (early_config c
      \<or> (\<exists>k r pre. phase c = Ph_cleanup k r \<and> list_all early_event pre
            \<and> trace c = pre @ mfc_cleanup_requests (mfc c))
      \<or> (\<exists>r pre. phase c = Ph_replied \<and> list_all early_event pre
            \<and> trace c = pre @ mfc_cleanup_requests (mfc c) @ [Ev_reply r])
      \<or> (phase c = Ph_replied \<and> trace c = [Ev_reply Reply_param_failed])
      \<or> (\<exists>pre. phase c = Ph_aborted \<and> list_all early_event pre
            \<and> (trace c = pre @ [Ev_abort]
                \<or> trace c = pre @ all_done (length (destinations (mfc c))) @ [Ev_abort]))
      \<or> (\<exists>pre t ends. list_all early_event pre
            \<and> trace c = pre @ all_done (length (destinations (mfc c))) @ Req_txsend t # ends
            \<and> txid (mfc c) = None
            \<and> list_all (\<lambda>dest. fundchannel_start_state dest = multifundchannel_done)
                 (destinations (mfc c))
            \<and> (phase c = Ph_txsend \<and> ends = []
                \<or> phase c = Ph_aborted \<and> ends = [Ev_abort]
                \<or> phase c = Ph_replied \<and> (\<exists>r. ends = [Ev_reply r]))))"

text \<open>
  A command for two peers, and the responses of a run: both channels are started and the
  transaction is prepared. The run then goes on in one of two ways: both channels
  complete and the broadcast fails, or the second peer refuses to complete.
\<close>

definition ex_mfc_params :: mfc_params where
  "ex_mfc_params =
     \<lparr>prm_destinations =
        Some [Some \<lparr>prm_id = ''P1'', prm_amount = 100000, prm_announce = True, prm_push_msat = 0\<rparr>,
              Some \<lparr>prm_id = ''P2'', prm_amount = 200000, prm_announce = True, prm_push_msat = 0\<rparr>],
      prm_feerate = None, prm_minconf = 1, prm_utxos = None\<rparr>"

definition ex_mfc_inputs :: "mfc_input list" where
  "ex_mfc_inputs =
     [In_multiconnect_ok (Some [''P1'', ''P2'']) (Some [None, None]),
      In_txprepare_ok (Some ''dryrun'')
        (Some [\<lparr>out_is_main = True, out_amount = 100000,
                 out_script = 0x00 # 0x20 # sha256 ex_env ''P1''\<rparr>,
               \<lparr>out_is_main = True, out_amount = 200000,
                 out_script = 0x00 # 0x20 # sha256 ex_env ''P2''\<rparr>]),
      In_fundchannel_start_ok 0 (Some ''addr1'') (Some [1]),
      In_fundchannel_start_ok 1 (Some ''addr2'') (Some [2]),
      In_txdiscard_ok,
      In_txprepare_ok (Some ''funding'')
        (Some [\<lparr>out_is_main = True, out_amount = 200000, out_script = [2]\<rparr>,
               \<lparr>out_is_main = True, out_amount = 100000, out_script = [1]\<rparr>])]"

definition ex_broadcast_fails :: "mfc_input list" where
  "ex_broadcast_fails =
     ex_mfc_inputs @ [In_fundchannel_complete_ok 0 (Some ''ch1''),
                      In_fundchannel_complete_ok 1 (Some ''ch2''),
                      In_rpc_err ''broadcast failed'']"


chapter \<open>Verification\<close>

section \<open>Facts about words\<close>

lemma unat_ucast_small: "unat (x::u64) < 2 ^ 32 \<Longrightarrow> unat (ucast x :: u32) = unat x"
  by (simp add: unsigned_ucast_eq take_bit_nat_eq_self)

section \<open>The distance cache\<close>

lemmas dh_defs = DHCACHE_MAXIMUM_DISTANCE_def DHCACHE_DISTANCE_MASK_def DHCACHE_VISITED_MASK_def
  DHCACHE_START_PREPROCESSING_VALUE_def slot_get_def slot_set_def get_node_def update_node_def
  dhcache_writer_get_visited_def dhcache_writer_mark_visited_def dhcache_writer_get_distance_def
  dhcache_writer_set_distance_def dhcache_writer_init_def dhcache_writer_clear_all_nodes_def

lemma slot_get_set_other:
  "r \<noteq> w \<Longrightarrow> r \<le> 1 \<Longrightarrow> w \<le> 1 \<Longrightarrow> slot_get r (slot_set w v d) = slot_get r d"
  by (auto simp: slot_get_def slot_set_def)

lemma reader_selector_init:
  "reader_selector (dhcache_reader_init dhc goal) = (if writer_selector dhc = 0 then 1 else 0)"
  by (simp add: dhcache_reader_init_def Let_def)

lemma wr_selector_init:
  "wr_selector (dhcache_writer_init dhc) = (if writer_selector dhc = 0 then 0 else 1)"
  by (simp add: dhcache_writer_init_def)

lemma wr_selector_flip:
  "wr_selector (dhcache_writer_init (dhcache_flip dhc)) = 1 - wr_selector (dhcache_writer_init dhc)"
  by (simp add: dhcache_writer_init_def dhcache_flip_def)

text \<open>A writer operation leaves the slot it does not write, and the cache itself, alone.\<close>

lemma dhc_apply_keeps_slot:
  assumes "dhc_apply x s = Some s'" and "x \<noteq> Op_flip"
    and "r \<noteq> wr_selector (dhcache_writer_init (sys_dhcache s))" and "r \<le> 1"
  shows "node_slot r (sys_rstate s') k = node_slot r (sys_rstate s) k"
    and "sys_dhcache s' = sys_dhcache s"
  using assms
  by (cases x; auto simp: node_slot_def dhcache_writer_clear_all_nodes_def get_node_def
      update_node_def dhcache_writer_set_distance_def dhcache_writer_mark_visited_def
      slot_get_set_other wr_selector_init Let_def option.map_comp comp_def
      split: option.splits if_splits)+

lemma dhc_run_keeps_slot:
  assumes "writes_keep_slot flipped ops" and "dhc_run ops s = Some s'" and "r \<le> 1"
    and "wr_selector (dhcache_writer_init (sys_dhcache s)) = (if flipped then r else 1 - r)"
  shows "node_slot r (sys_rstate s') k = node_slot r (sys_rstate s) k"
  using assms
proof (induction ops arbitrary: s flipped)
  case Nil
  then show ?case by simp
next
  case (Cons x xs)
  from Cons.prems(2) obtain s1 where s1: "dhc_apply x s = Some s1" and run: "dhc_run xs s1 = Some s'"
    by (auto split: option.splits)
  show ?case
  proof (cases "x = Op_flip")
    case True
    with s1 have eq: "sys_rstate s1 = sys_rstate s" "sys_dhcache s1 = dhcache_flip (sys_dhcache s)"
      by auto
    from True Cons.prems(1) have w: "writes_keep_slot (\<not> flipped) xs" by simp
    have sel: "wr_selector (dhcache_writer_init (sys_dhcache s1)) = (if \<not> flipped then r else 1 - r)"
      using Cons.prems(3,4) by (auto simp: eq wr_selector_flip)
    from Cons.IH[OF w run Cons.prems(3) sel] show ?thesis by (simp add: eq)
  next
    case False
    with Cons.prems(1) have nf: "\<not> flipped" and w: "writes_keep_slot flipped xs"
      by (cases x; simp)+
    have ne: "r \<noteq> wr_selector (dhcache_writer_init (sys_dhcache s))"
      using Cons.prems(3,4) nf by (auto simp: wr_selector_init split: if_splits)
    from dhc_apply_keeps_slot[OF s1 False ne Cons.prems(3)]
    have k: "node_slot r (sys_rstate s1) k = node_slot r (sys_rstate s) k"
      and d: "sys_dhcache s1 = sys_dhcache s" by auto
    have sel: "wr_selector (dhcache_writer_init (sys_dhcache s1)) = (if flipped then r else 1 - r)"
      using Cons.prems(4) d by simp
    from Cons.IH[OF w run Cons.prems(3) sel] k show ?thesis by simp
  qed
qed

text \<open>What a reader shows for a node is a function of the node's value in the reader's slot.\<close>

lemma reader_view_slot:
  "reader_view reader rstate k =
     map_option (\<lambda>v. (v AND DHCACHE_VISITED_MASK \<noteq> 0,
        if \<not> (v AND DHCACHE_VISITED_MASK \<noteq> 0) then None
        else if v AND DHCACHE_DISTANCE_MASK > distance_goal reader
          then Some ((v AND DHCACHE_DISTANCE_MASK) - distance_goal reader)
          else Some (distance_goal reader - (v AND DHCACHE_DISTANCE_MASK))))
      (node_slot (reader_selector reader) rstate k)"
  by (simp add: reader_view_def node_slot_def get_node_def dhcache_reader_is_reachable_def
      dhcache_reader_distance_def Let_def option.map_comp comp_def)

text \<open>
  C8, as amended. A reader captured from the cache keeps returning, for every node, the
  reachability and the distance it returned at capture time, across any sequence of
  writer operations and flips in which every writer operation runs after an even number
  of flips (so in particular across the rest of the refresh that is in progress and the
  flip that completes it). Nothing is promised once the next refresh writes: after one
  flip the writer's slot is the slot the reader reads.
\<close>

theorem dhc_reader_isolation:
  assumes "writes_keep_slot False ops" and "dhc_run ops s = Some s'"
  shows "reader_view (dhcache_reader_init (sys_dhcache s) goal) (sys_rstate s') k =
         reader_view (dhcache_reader_init (sys_dhcache s) goal) (sys_rstate s) k"
proof -
  let ?r = "reader_selector (dhcache_reader_init (sys_dhcache s) goal)"
  have r1: "?r \<le> 1" by (simp add: reader_selector_init)
  have sel: "wr_selector (dhcache_writer_init (sys_dhcache s)) = (if False then ?r else 1 - ?r)"
    by (simp add: reader_selector_init wr_selector_init)
  from dhc_run_keeps_slot[OF assms r1 sel]
  show ?thesis by (simp add: reader_view_slot)
qed

lemma ex_sys_view:
  "reader_view (dhcache_reader_init (sys_dhcache ex_sys) ex_node) (sys_rstate ex_sys) 7
     = Some (True, Some 0)"
  by (simp add: ex_sys_def ex_node_def reader_view_def dhcache_reader_init_def
      dhcache_reader_is_reachable_def dhcache_reader_distance_def dh_defs Let_def)

lemma ex_sys_refresh_run:
  "\<exists>s'. dhc_run [Op_clear_all, Op_set_distance 7 3, Op_mark_visited 7, Op_flip] ex_sys = Some s'"
  by (simp add: ex_sys_def ex_node_def dh_defs Let_def)

theorem dhc_reader_isolation_witness:
  "writes_keep_slot False [Op_clear_all, Op_set_distance 7 3, Op_mark_visited 7, Op_flip]
   \<and> (\<exists>s'. dhc_run [Op_clear_all, Op_set_distance 7 3, Op_mark_visited 7, Op_flip] ex_sys = Some s'
         \<and> reader_view (dhcache_reader_init (sys_dhcache ex_sys) ex_node) (sys_rstate s') 7
            = Some (True, Some 0))"
proof -
  have w: "writes_keep_slot False [Op_clear_all, Op_set_distance 7 3, Op_mark_visited 7, Op_flip]"
    by simp
  from ex_sys_refresh_run obtain s' where
    r: "dhc_run [Op_clear_all, Op_set_distance 7 3, Op_mark_visited 7, Op_flip] ex_sys = Some s'"
    by blast
  from dhc_reader_isolation[OF w r, of ex_node 7] ex_sys_view w r show ?thesis by simp
qed

text \<open>
  C8 as stated fails: the reader of \<open>ex_sys\<close> sees node 7 reachable at distance 0; after
  a flip and the \<open>clear_all\<close> of the next refresh it sees the node unreachable.
\<close>

theorem dhc_reader_isolation_counterexample:
  "\<not> (\<forall>ops s s' goal k. dhcache_available (sys_dhcache s) \<longrightarrow> dhc_run ops s = Some s' \<longrightarrow>
        reader_view (dhcache_reader_init (sys_dhcache s) goal) (sys_rstate s') k =
        reader_view (dhcache_reader_init (sys_dhcache s) goal) (sys_rstate s) k)"
proof
  assume a: "\<forall>ops s s' goal k. dhcache_available (sys_dhcache s) \<longrightarrow> dhc_run ops s = Some s' \<longrightarrow>
        reader_view (dhcache_reader_init (sys_dhcache s) goal) (sys_rstate s') k =
        reader_view (dhcache_reader_init (sys_dhcache s) goal) (sys_rstate s) k"
  have av: "dhcache_available (sys_dhcache ex_sys)"
    by (simp add: ex_sys_def dhcache_available_def)
  have "\<exists>s'. dhc_run [Op_flip, Op_clear_all] ex_sys = Some s' \<and>
     reader_view (dhcache_reader_init (sys_dhcache ex_sys) ex_node) (sys_rstate s') 7
       = Some (False, None)"
    by (simp add: ex_sys_def ex_node_def reader_view_def dhcache_reader_init_def
        dhcache_reader_is_reachable_def dhcache_reader_distance_def dhcache_flip_def dh_defs Let_def)
  then obtain s' where r: "dhc_run [Op_flip, Op_clear_all] ex_sys = Some s'"
    and v: "reader_view (dhcache_reader_init (sys_dhcache ex_sys) ex_node) (sys_rstate s') 7
       = Some (False, None)" by blast
  from a av r have
    "reader_view (dhcache_reader_init (sys_dhcache ex_sys) ex_node) (sys_rstate s') 7 =
     reader_view (dhcache_reader_init (sys_dhcache ex_sys) ex_node) (sys_rstate ex_sys) 7"
    by blast
  with v ex_sys_view show False by simp
qed

section \<open>The refresher\<close>



text \<open>The assertion of \<open>dhcache_writer_set_distance\<close> cannot fail in the loop: the sum is clamped.\<close>

lemma refresh_relax_no_assert: "refresh_relax cost n d process c \<noteq> None"
proof -
  have "(ucast (if x > ucast DHCACHE_MAXIMUM_DISTANCE then ucast DHCACHE_MAXIMUM_DISTANCE else x :: u64) :: u32)
          \<le> DHCACHE_MAXIMUM_DISTANCE" for x
  proof -
    have m: "unat (ucast DHCACHE_MAXIMUM_DISTANCE :: u64) = 2147483647"
      "unat DHCACHE_MAXIMUM_DISTANCE = 2147483647"
      by (simp_all add: DHCACHE_MAXIMUM_DISTANCE_def)
    show ?thesis
      by (auto simp: word_le_nat_alt word_less_nat_alt unat_ucast_small m not_less)
  qed
  then show ?thesis
    by (auto simp: refresh_relax_def Let_def dhcache_writer_set_distance_def split: option.splits)
qed

text \<open>
  An entry whose node the graph still holds is processed: every channel of the node is
  relaxed from the node's current distance in the writer's slot.
\<close>

lemma refresh_step_loop_processes:
  assumes "priority_queue_get_min (rp_queue process) = Some (popped, queue1)"
    and "get_node (rp_rstate process) popped = Some n"
  shows "refresh_process_step_loop cost process =
     map_option (Pair refresh_process_step_result_continue)
       (refresh_relax_all cost n (dhcache_writer_get_distance (rp_writer process) n)
          (node_chans n) (process\<lparr>rp_queue := queue1\<rparr>))"
  using assms by (simp add: refresh_process_step_loop_def Let_def split: option.splits)

text \<open>
  The state \<open>ex_stale\<close> arises in a run: four steps from the installation on \<open>ex_graph\<close>
  leave the entry of node 1 at priority 10 in the queue, and distance 2 in the writer's
  slot of node 1.
\<close>

lemma ex_stale_arises:
  "map_option (\<lambda>p. (rp_queue p,
        map_option (dhcache_writer_get_distance (rp_writer p)) (get_node (rp_rstate p) 1)))
     (refresh_steps 4 ex_cost (install_refresh_process ex_graph dhcache_new))
   = Some ([\<lparr>priority = 10, item = 1\<rparr>], Some 2)"
  by code_simp






section \<open>The funding orchestrator: the amount "all"\<close>




section \<open>The fee acceleration loop\<close>

text \<open>With the default of the parameter the aggression is 1000, not the 0.1 of ten percent.\<close>

lemma default_aggression: "aggression (json_txaccelerate t f None) = 1000"
  by (simp add: json_txaccelerate_def default_aggression_millionths_def)

text \<open>
  C9 at the spec's example. With the default aggression, an estimate of total fee 1000
  sat and maximum fee 2000 sat, and a limit of 10000 sat, the first
  \<open>txaccelerate_execute\<close> is invoked at the cap of 2000 sat (the tweak gives
  \<open>(10000 - 1000) * 1000 + 1000 = 9001000\<close>), not at 1900 sat; with a maximum fee of
  20000000 sat it is invoked at 9001000 sat.
\<close>

theorem acc_loop_default_aggression_example:
  "snd (acc_loop (update_txaccelerate_result 1000 1000 2000
                    (json_txaccelerate ''T'' 10000 None))) = Acc_execute 2000
   \<and> snd (acc_loop (update_txaccelerate_result 1000 1000 20000000
                    (json_txaccelerate ''T'' 10000 None))) = Acc_execute 9001000"
  by (simp add: acc_loop_def update_txaccelerate_result_def json_txaccelerate_def
      default_aggression_millionths_def Let_def)


section \<open>Route repair\<close>

lemma amount_msat_add_Some:
  "amount_msat_add a b = Some c \<Longrightarrow> c = a + b \<and> unat c = unat a + unat b"
  by (auto simp: amount_msat_add_def unat_word_ariths not_le split: if_splits)

lemma adjust_prefix_nth:
  "adjust_prefix hops ad dd = Some r \<Longrightarrow>
     length r = length hops \<and>
     (\<forall>j < length hops.
        r ! j = (hops ! j)\<lparr>hop_amount := hop_amount (hops ! j) + ad + of_nat j,
                           hop_delay := hop_delay (hops ! j) + dd\<rparr>
        \<and> unat (hop_amount (hops ! j)) + unat ad + j < 2 ^ 64)"
proof (induction hops arbitrary: ad r)
  case Nil
  then show ?case by simp
next
  case (Cons e hops)
  from Cons.prems obtain a ad1 r1 where
    a: "amount_msat_add (hop_amount e) ad = Some a"
    and ad1: "amount_msat_add ad 1 = Some ad1"
    and r1: "adjust_prefix hops ad1 dd = Some r1"
    and r: "r = e\<lparr>hop_amount := a, hop_delay := hop_delay e + dd\<rparr> # r1"
    by (auto split: option.splits)
  from amount_msat_add_Some[OF a] have a': "a = hop_amount e + ad" "unat a = unat (hop_amount e) + unat ad"
    by auto
  from amount_msat_add_Some[OF ad1] have d': "ad1 = ad + 1" "unat ad1 = unat ad + 1"
    by auto
  have bound: "unat (hop_amount e) + unat ad < 2 ^ 64"
  proof -
    have "unat a < 2 ^ LENGTH(64)" by (rule unsigned_less)
    with a'(2) show ?thesis by simp
  qed
  from Cons.IH[OF r1] have len: "length r1 = length hops"
    and nth: "\<And>j. j < length hops \<Longrightarrow>
        r1 ! j = (hops ! j)\<lparr>hop_amount := hop_amount (hops ! j) + ad1 + of_nat j,
                           hop_delay := hop_delay (hops ! j) + dd\<rparr>
        \<and> unat (hop_amount (hops ! j)) + unat ad1 + j < 2 ^ 64"
    by auto
  show ?case
  proof (intro conjI allI impI)
    show "length r = length (e # hops)" using r len by simp
  next
    fix j assume j: "j < length (e # hops)"
    show "r ! j = ((e # hops) ! j)\<lparr>hop_amount := hop_amount ((e # hops) ! j) + ad + of_nat j,
                           hop_delay := hop_delay ((e # hops) ! j) + dd\<rparr>"
    proof (cases j)
      case 0
      then show ?thesis using r a' by simp
    next
      case (Suc k)
      with j have "k < length hops" by simp
      from nth[OF this] show ?thesis using Suc r d' by (simp add: algebra_simps)
    qed
  next
    fix j assume j: "j < length (e # hops)"
    show "unat (hop_amount ((e # hops) ! j)) + unat ad + j < 2 ^ 64"
    proof (cases j)
      case 0
      then show ?thesis using bound by simp
    next
      case (Suc k)
      with j have "k < length hops" by simp
      from nth[OF this] show ?thesis using Suc d' by simp
    qed
  qed
qed

lemma amount_msat_sub_delta:
  "(case amount_msat_sub pa al of None \<Rightarrow> 0 | Some d \<Rightarrow> d) = (if pa \<ge> al then pa - al else 0)"
  by (auto simp: amount_msat_sub_def)

lemma prc_complete_alt:
  assumes "0 < prc_source_index prc" and "prc_source_index prc \<le> length (prc_route prc)"
  shows "prc_complete prc =
     (if prefix_amount_delta prc = 0 \<and> prefix_delay_delta prc = 0
      then prc_output prc (take (prc_source_index prc) (prc_route prc))
      else (case adjust_prefix (rev (take (prc_source_index prc) (prc_route prc)))
                   (prefix_amount_delta prc) (prefix_delay_delta prc) of
              None \<Rightarrow> Prc_plugin_err
            | Some r \<Rightarrow> prc_output prc (rev r)))"
proof -
  have len: "length (take (prc_source_index prc) (prc_route prc)) = prc_source_index prc"
    using assms(2) by simp
  have l: "take (prc_source_index prc) (prc_route prc) ! (prc_source_index prc - 1)
             = prc_route prc ! (prc_source_index prc - 1)"
    using assms by simp
  have ne: "prc_source_index prc \<noteq> 0" using assms(1) by simp
  show ?thesis
    unfolding prc_complete_def Let_def len l prefix_amount_delta_def prefix_delay_delta_def
      amount_msat_sub_def
    using ne by (auto simp only: not_less if_False if_True option.case split: if_splits)
qed

lemma prc_complete_prefix:
  assumes "prc_complete prc = Prc_finished r"
    and "prc_source_index prc \<le> length (prc_route prc)"
  shows "\<exists>prefix. r = prefix @ take 2 (prc_splice_route prc) @ drop (prc_dest_index prc) (prc_route prc)
     \<and> length prefix = prc_source_index prc
     \<and> (\<forall>i < length prefix.
          prefix ! i =
            (if prefix_amount_delta prc = 0 \<and> prefix_delay_delta prc = 0 then prc_route prc ! i
             else (prc_route prc ! i)
                    \<lparr>hop_amount := hop_amount (prc_route prc ! i) + prefix_amount_delta prc
                                      + of_nat (length prefix - 1 - i),
                     hop_delay := hop_delay (prc_route prc ! i) + prefix_delay_delta prc\<rparr>))"
proof (cases "prc_source_index prc = 0")
  case True
  with assms show ?thesis by (simp add: prc_complete_def prc_output_def)
next
  case False
  let ?n = "prc_source_index prc"
  let ?prefix = "take ?n (prc_route prc)"
  have len: "length ?prefix = ?n" using assms(2) by simp
  from False have pos: "0 < ?n" by simp
  note alt = prc_complete_alt[OF pos assms(2)]
  show ?thesis
  proof (cases "prefix_amount_delta prc = 0 \<and> prefix_delay_delta prc = 0")
    case True
    with assms(1) alt have "r = ?prefix @ take 2 (prc_splice_route prc) @ drop (prc_dest_index prc) (prc_route prc)"
      by (simp add: prc_output_def)
    with True len show ?thesis by (intro exI[of _ ?prefix]) simp
  next
    case nz: False
    with assms(1) alt obtain r1 where
      adj: "adjust_prefix (rev ?prefix) (prefix_amount_delta prc) (prefix_delay_delta prc) = Some r1"
      and r: "r = rev r1 @ take 2 (prc_splice_route prc) @ drop (prc_dest_index prc) (prc_route prc)"
      by (auto simp: prc_output_def split: option.splits if_splits)
    from adjust_prefix_nth[OF adj] have l1: "length r1 = ?n"
      and nth: "\<And>j. j < ?n \<Longrightarrow> r1 ! j = (rev ?prefix ! j)
          \<lparr>hop_amount := hop_amount (rev ?prefix ! j) + prefix_amount_delta prc + of_nat j,
           hop_delay := hop_delay (rev ?prefix ! j) + prefix_delay_delta prc\<rparr>"
      using len by auto
    have "\<forall>i < length (rev r1). rev r1 ! i = (prc_route prc ! i)
                    \<lparr>hop_amount := hop_amount (prc_route prc ! i) + prefix_amount_delta prc
                                      + of_nat (length (rev r1) - 1 - i),
                     hop_delay := hop_delay (prc_route prc ! i) + prefix_delay_delta prc\<rparr>"
    proof (intro allI impI)
      fix i assume i: "i < length (rev r1)"
      then have i': "i < ?n" using l1 by simp
      then have j: "?n - Suc i < ?n" by simp
      have "rev r1 ! i = r1 ! (?n - Suc i)" using i' l1 by (simp add: rev_nth)
      moreover have "rev ?prefix ! (?n - Suc i) = prc_route prc ! i"
        using i' len assms(2) by (simp add: rev_nth)
      ultimately show "rev r1 ! i = (prc_route prc ! i)
                    \<lparr>hop_amount := hop_amount (prc_route prc ! i) + prefix_amount_delta prc
                                      + of_nat (length (rev r1) - 1 - i),
                     hop_delay := hop_delay (prc_route prc ! i) + prefix_delay_delta prc\<rparr>"
        using nth[OF j] l1 by simp
    qed
    with nz r l1 show ?thesis by (intro exI[of _ "rev r1"]) auto
  qed
qed


lemma json_permuteroute_wf:
  assumes "json_permuteroute env prm = Inr prc"
  shows "prc_source_index prc < length (prc_route prc)"
    and "prc_dest_amount prc = hop_amount (prc_route prc ! (prc_dest_index prc - 1))"
    and "prc_dest_delay prc = hop_delay (prc_route prc ! (prc_dest_index prc - 1))"
    and "prc_dest_style prc = hop_style (prc_route prc ! (prc_dest_index prc - 1))"
    and "prc_dest_index prc = prc_erring_index prc + 1"
    and "prc_source_index prc = (if prc_nodefailure prc then prc_erring_index prc - 1 else prc_erring_index prc)"
  using assms
  by (auto simp: json_permuteroute_def Let_def split: option.splits if_splits prod.splits)

lemma chan_usable_source_channels [simp]:
  "source_chan_usable (prc\<lparr>prc_source_channels := cs\<rparr>) = source_chan_usable prc"
  "dest_chan_usable (prc\<lparr>prc_source_channels := cs\<rparr>) = dest_chan_usable prc"
  by (auto simp: source_chan_usable_def dest_chan_usable_def is_excluded_chan_def
      is_excluded_node_def fun_eq_iff)

lemma prc_check_destination_loop_finished:
  assumes "prc_check_destination_loop env prc entries = Prc_finished r"
  shows "\<exists>hop1 hop2. hop1 \<in> set (prc_source_channels prc) \<and> dest_chan_usable prc hop2
          \<and> pcd_source hop2 = pcd_destination hop1
          \<and> prc_splice_and_complete env prc hop1 hop2 = Prc_finished r"
  using assms
proof (induction entries)
  case Nil
  then show ?case by simp
next
  case (Cons x entries)
  show ?case
  proof (cases x)
    case None
    with Cons.prems show ?thesis by simp
  next
    case (Some one_chan)
    show ?thesis
    proof (cases "dest_chan_usable prc one_chan")
      case False
      with Some Cons show ?thesis by simp
    next
      case True
      show ?thesis
      proof (cases "find (\<lambda>src. pcd_source one_chan = pcd_destination src) (prc_source_channels prc)")
        case None
        with Some True Cons show ?thesis by simp
      next
        case (Some src)
        then have "src \<in> set (prc_source_channels prc)" "pcd_source one_chan = pcd_destination src"
          by (auto simp: find_Some_iff)
        moreover from Some \<open>x = Some one_chan\<close> True Cons.prems
        have "prc_splice_and_complete env prc src one_chan = Prc_finished r" by simp
        ultimately show ?thesis using True by blast
      qed
    qed
  qed
qed

lemma prc_splice_Inr:
  assumes "prc_splice env prc hop1 hop2 = Inr prc1"
  shows "\<exists>h1 h2. prc_splice_route prc1 = [h1, h2]
     \<and> hop_amount h2 = prc_dest_amount prc \<and> hop_delay h2 = prc_dest_delay prc
     \<and> hop_style h2 = prc_dest_style prc
     \<and> hop_nodeid h2 = pcd_destination hop2 \<and> hop_channel_id h2 = pcd_scid hop2
     \<and> hop_nodeid h1 = pcd_destination hop1 \<and> hop_channel_id h1 = pcd_scid hop1
     \<and> amount_msat_add_fee env (hop_amount h2) (ucast (pcd_base_fee hop2))
          (pcd_fee_per_millionth hop2) = Some (hop_amount h1)
     \<and> hop_delay h1 = hop_delay h2 + pcd_delay hop2
     \<and> amount_msat_add_fee env (hop_amount h1) (ucast (pcd_base_fee hop1))
          (pcd_fee_per_millionth hop1) = Some (prc_prefix_amount prc1)
     \<and> prc_prefix_delay prc1 = hop_delay h1 + pcd_delay hop1
     \<and> prc_route prc1 = prc_route prc \<and> prc_source_index prc1 = prc_source_index prc
     \<and> prc_dest_index prc1 = prc_dest_index prc"
  using assms
  by (auto simp: prc_splice_def Let_def split: option.splits)

lemma prefix_delta_splice_route [simp]:
  "prefix_amount_delta (prc\<lparr>prc_splice_route := sr\<rparr>) = prefix_amount_delta prc"
  "prefix_delay_delta (prc\<lparr>prc_splice_route := sr\<rparr>) = prefix_delay_delta prc"
  by (simp_all add: prefix_amount_delta_def prefix_delay_delta_def Let_def)

lemma prc_splice_and_complete_finished:
  assumes "prc_splice_and_complete env prc hop1 hop2 = Prc_finished r"
    and "prc_source_index prc \<le> length (prc_route prc)"
  shows "(\<exists>prc1 h1 h2 prefix.
        prc_splice env prc hop1 hop2 = Inr prc1
      \<and> r = prefix @ [h1, h2] @ drop (prc_dest_index prc) (prc_route prc)
      \<and> hop_amount h2 = prc_dest_amount prc \<and> hop_delay h2 = prc_dest_delay prc
      \<and> hop_style h2 = prc_dest_style prc
      \<and> amount_msat_add_fee env (hop_amount h2) (ucast (pcd_base_fee hop2))
           (pcd_fee_per_millionth hop2) = Some (hop_amount h1)
      \<and> hop_delay h1 = hop_delay h2 + pcd_delay hop2
      \<and> amount_msat_add_fee env (hop_amount h1) (ucast (pcd_base_fee hop1))
           (pcd_fee_per_millionth hop1) = Some (prc_prefix_amount prc1)
      \<and> prc_prefix_delay prc1 = hop_delay h1 + pcd_delay hop1
      \<and> length prefix = prc_source_index prc
      \<and> (\<forall>i < length prefix.
            prefix ! i =
              (if prefix_amount_delta prc1 = 0 \<and> prefix_delay_delta prc1 = 0
               then prc_route prc ! i
               else (prc_route prc ! i)
                      \<lparr>hop_amount := hop_amount (prc_route prc ! i) + prefix_amount_delta prc1
                                        + of_nat (length prefix - 1 - i),
                       hop_delay := hop_delay (prc_route prc ! i) + prefix_delay_delta prc1\<rparr>)))"
proof -
  from assms(1) obtain prc1 features where
    sp: "prc_splice env prc hop1 hop2 = Inr prc1"
    and co: "prc_complete (prc1\<lparr>prc_splice_route := (prc_splice_route prc1)
                [0 := (prc_splice_route prc1 ! 0)
                   \<lparr>hop_style := (if var_onion_offered env features
                                   then ROUTE_HOP_TLV else ROUTE_HOP_LEGACY)\<rparr>]\<rparr>) = Prc_finished r"
    by (auto simp: prc_splice_and_complete_def prc_get_listnodes_features_def
        split: sum.splits option.splits if_splits)
  let ?prc2 = "prc1\<lparr>prc_splice_route := (prc_splice_route prc1)
                [0 := (prc_splice_route prc1 ! 0)
                   \<lparr>hop_style := (if var_onion_offered env features
                                   then ROUTE_HOP_TLV else ROUTE_HOP_LEGACY)\<rparr>]\<rparr>"
  from prc_splice_Inr[OF sp] obtain h1 h2 where
    sr: "prc_splice_route prc1 = [h1, h2]"
    and f: "hop_amount h2 = prc_dest_amount prc" "hop_delay h2 = prc_dest_delay prc"
      "hop_style h2 = prc_dest_style prc"
      "amount_msat_add_fee env (hop_amount h2) (ucast (pcd_base_fee hop2))
          (pcd_fee_per_millionth hop2) = Some (hop_amount h1)"
      "hop_delay h1 = hop_delay h2 + pcd_delay hop2"
      "amount_msat_add_fee env (hop_amount h1) (ucast (pcd_base_fee hop1))
          (pcd_fee_per_millionth hop1) = Some (prc_prefix_amount prc1)"
      "prc_prefix_delay prc1 = hop_delay h1 + pcd_delay hop1"
    and same: "prc_route prc1 = prc_route prc" "prc_source_index prc1 = prc_source_index prc"
      "prc_dest_index prc1 = prc_dest_index prc"
    by blast
  have wf2: "prc_source_index ?prc2 \<le> length (prc_route ?prc2)"
    using assms(2) same by simp
  from prc_complete_prefix[OF co wf2] obtain prefix where
    r: "r = prefix @ take 2 (prc_splice_route ?prc2) @ drop (prc_dest_index ?prc2) (prc_route ?prc2)"
    and len: "length prefix = prc_source_index ?prc2"
    and nth: "\<forall>i < length prefix.
          prefix ! i =
            (if prefix_amount_delta ?prc2 = 0 \<and> prefix_delay_delta ?prc2 = 0 then prc_route ?prc2 ! i
             else (prc_route ?prc2 ! i)
                    \<lparr>hop_amount := hop_amount (prc_route ?prc2 ! i) + prefix_amount_delta ?prc2
                                      + of_nat (length prefix - 1 - i),
                     hop_delay := hop_delay (prc_route ?prc2 ! i) + prefix_delay_delta ?prc2\<rparr>)"
    by blast
  let ?h1 = "h1\<lparr>hop_style := (if var_onion_offered env features
                                   then ROUTE_HOP_TLV else ROUTE_HOP_LEGACY)\<rparr>"
  have r': "r = prefix @ [?h1, h2] @ drop (prc_dest_index prc) (prc_route prc)"
    using r sr same by simp
  have len': "length prefix = prc_source_index prc" using len same by simp
  have nth': "\<forall>i < length prefix.
          prefix ! i =
            (if prefix_amount_delta prc1 = 0 \<and> prefix_delay_delta prc1 = 0 then prc_route prc ! i
             else (prc_route prc ! i)
                    \<lparr>hop_amount := hop_amount (prc_route prc ! i) + prefix_amount_delta prc1
                                      + of_nat (length prefix - 1 - i),
                     hop_delay := hop_delay (prc_route prc ! i) + prefix_delay_delta prc1\<rparr>)"
    using nth same by simp
  show ?thesis
    apply (rule exI[of _ prc1], rule exI[of _ ?h1], rule exI[of _ h2], rule exI[of _ prefix])
    using sp r' len' nth' f by simp
qed

text \<open>
  C4. A successful \<open>permuteroute\<close> found two usable channels, \<open>hop1\<close> out of the source
  node and \<open>hop2\<close> into the destination node, meeting in one node, and returns
  \<open>prefix @ [h1, h2] @\<close> the hops of the route from the destination index on, where
  \<open>h2\<close> has the destination's amount, delay and style, \<open>h1.amount\<close> is
  \<open>add_fee(h2.amount, hop2.base_fee, hop2.fee_ppm)\<close> and \<open>h1.delay\<close> is
  \<open>h2.delay + hop2.delay\<close>, the amount and delay to arrive at the start of the splice are
  \<open>add_fee(h1.amount, hop1.base_fee, hop1.fee_ppm)\<close> and \<open>h1.delay + hop1.delay\<close>, and the
  prefix is the first \<open>source_index\<close> hops of the route: unchanged when both deltas are
  zero, and otherwise each with its amount increased by the amount delta plus one
  millisatoshi for every hop between it and the end of the prefix, and its delay by the
  delay delta. The deltas (\<open>prefix_amount_delta\<close>, \<open>prefix_delay_delta\<close>) are what the
  splice needs beyond what the last hop of the prefix carries, or zero.
\<close>

theorem permuteroute_splice:
  assumes "permuteroute env (Some prm) = Prc_finished r"
  shows "\<exists>prc hop1 hop2.
           json_permuteroute env prm = Inr (prc\<lparr>prc_source_channels := []\<rparr>)
         \<and> source_chan_usable prc hop1 \<and> dest_chan_usable prc hop2
         \<and> pcd_source hop2 = pcd_destination hop1
         \<and> (\<exists>prc1 h1 h2 prefix.
        prc_splice env prc hop1 hop2 = Inr prc1
      \<and> r = prefix @ [h1, h2] @ drop (prc_dest_index prc) (prc_route prc)
      \<and> hop_amount h2 = prc_dest_amount prc \<and> hop_delay h2 = prc_dest_delay prc
      \<and> hop_style h2 = prc_dest_style prc
      \<and> amount_msat_add_fee env (hop_amount h2) (ucast (pcd_base_fee hop2))
           (pcd_fee_per_millionth hop2) = Some (hop_amount h1)
      \<and> hop_delay h1 = hop_delay h2 + pcd_delay hop2
      \<and> amount_msat_add_fee env (hop_amount h1) (ucast (pcd_base_fee hop1))
           (pcd_fee_per_millionth hop1) = Some (prc_prefix_amount prc1)
      \<and> prc_prefix_delay prc1 = hop_delay h1 + pcd_delay hop1
      \<and> length prefix = prc_source_index prc
      \<and> (\<forall>i < length prefix.
            prefix ! i =
              (if prefix_amount_delta prc1 = 0 \<and> prefix_delay_delta prc1 = 0
               then prc_route prc ! i
               else (prc_route prc ! i)
                      \<lparr>hop_amount := hop_amount (prc_route prc ! i) + prefix_amount_delta prc1
                                        + of_nat (length prefix - 1 - i),
                       hop_delay := hop_delay (prc_route prc ! i) + prefix_delay_delta prc1\<rparr>)))"
proof -
  from assms obtain prc0 entries chans where
    j: "json_permuteroute env prm = Inr prc0"
    and lc: "listchannels env (prc_source_node prc0) = Some (Some entries)"
    and th: "those entries = Some chans"
    and d: "prc_get_dest_channels env
              (prc0\<lparr>prc_source_channels := filter (source_chan_usable prc0) chans\<rparr>) = Prc_finished r"
    by (auto simp: permuteroute_def prc_start_def prc_filter_source_chans_def Let_def
        split: sum.splits option.splits if_splits)
  let ?prc = "prc0\<lparr>prc_source_channels := filter (source_chan_usable prc0) chans\<rparr>"
  from d obtain dentries where
    l: "prc_check_destination_loop env ?prc dentries = Prc_finished r"
    by (auto simp: prc_get_dest_channels_def split: option.splits)
  from prc_check_destination_loop_finished[OF l] obtain hop1 hop2 where
    h: "hop1 \<in> set (prc_source_channels ?prc)" "dest_chan_usable ?prc hop2"
      "pcd_source hop2 = pcd_destination hop1"
      "prc_splice_and_complete env ?prc hop1 hop2 = Prc_finished r"
    by blast
  have wf: "prc_source_index ?prc \<le> length (prc_route ?prc)"
    using json_permuteroute_wf(1)[OF j] by simp
  have sc0: "prc_source_channels prc0 = []"
    using j by (auto simp: json_permuteroute_def Let_def split: option.splits if_splits prod.splits)
  have "json_permuteroute env prm = Inr (?prc\<lparr>prc_source_channels := []\<rparr>)"
    using j sc0 by simp
  moreover have "source_chan_usable ?prc hop1" using h(1) by simp
  moreover note h(2,3) prc_splice_and_complete_finished[OF h(4) wf]
  ultimately show ?thesis by blast
qed

lemma ex_permuteroute: "permuteroute ex_prc_env (Some ex_prc_params) = Prc_finished ex_repaired"
  by (simp add: permuteroute_def json_permuteroute_def prc_start_def prc_filter_source_chans_def
      prc_get_dest_channels_def prc_splice_and_complete_def prc_splice_def
      prc_get_listnodes_features_def prc_complete_def prc_output_def
      source_chan_usable_def dest_chan_usable_def is_excluded_chan_def is_excluded_node_def
      amount_msat_sub_def amount_msat_add_def
      ex_prc_env_def ex_prc_params_def ex_route_def ex_chanBF_def ex_chanFC_def ex_repaired_def
      Let_def)

lemma ex_json_permuteroute:
  assumes "json_permuteroute ex_prc_env ex_prc_params = Inr p"
  shows "prc_dest_index p = 2 \<and> prc_route p = ex_route \<and> prc_source_index p = 1
         \<and> prc_dest_amount p = 1001 \<and> prc_dest_delay p = 20"
  using assms
  by (auto simp: json_permuteroute_def ex_prc_params_def ex_prc_env_def ex_route_def Let_def)

theorem permuteroute_splice_witness:
  "permuteroute ex_prc_env (Some ex_prc_params) = Prc_finished ex_repaired
   \<and> (\<exists>prefix h1 h2. ex_repaired = prefix @ [h1, h2] @ drop 2 ex_route
         \<and> length prefix = 1 \<and> hop_amount h2 = 1001 \<and> hop_delay h2 = 20)"
proof -
  from permuteroute_splice[OF ex_permuteroute] obtain prc hop1 hop2 prc1 h1 h2 prefix where
    j: "json_permuteroute ex_prc_env ex_prc_params = Inr (prc\<lparr>prc_source_channels := []\<rparr>)"
    and r: "ex_repaired = prefix @ [h1, h2] @ drop (prc_dest_index prc) (prc_route prc)"
    and h: "hop_amount h2 = prc_dest_amount prc" "hop_delay h2 = prc_dest_delay prc"
    and l: "length prefix = prc_source_index prc"
    by blast
  from ex_json_permuteroute[OF j]
  have "prc_dest_index prc = 2" "prc_route prc = ex_route" "prc_source_index prc = 1"
    "prc_dest_amount prc = 1001" "prc_dest_delay prc = 20"
    by simp_all
  with r h l ex_permuteroute show ?thesis by auto
qed

section \<open>Path diversity: exclusions of an edge\<close>






section \<open>Path diversity: a route over budget\<close>




section \<open>Path diversity: no route twice between two clears of the route cache\<close>

lemma routecache_match_iff: "routecache_match route scan \<longleftrightarrow> scan = map hop_nodeid route"
  by (auto simp: routecache_match_def list_all2_conv_all_nth list_eq_iff_nth_eq)

lemma lookup_or_insert_iff:
  "pathdiversity_routecache_lookup_or_insert rc route =
     (if map hop_nodeid route \<in> set rc then (False, rc) else (True, rc @ [map hop_nodeid route]))"
  by (auto simp: pathdiversity_routecache_lookup_or_insert_def list_ex_iff routecache_match_iff)

lemma scan_log_append:
  "scan_log seen (xs @ ys) =
     (case scan_log seen xs of None \<Rightarrow> None | Some s \<Rightarrow> scan_log s ys)"
  by (induction seen xs rule: scan_log.induct) auto

lemma scan_log_grows:
  "Pd_routecache_cleared \<notin> set ys \<Longrightarrow> scan_log seen ys = Some s \<Longrightarrow> set seen \<subseteq> set s"
  by (induction seen ys rule: scan_log.induct) (auto split: if_splits)

lemma lir_q [simp]: "log_in_routecache (s\<lparr>pd_q := q\<rparr>) = log_in_routecache s"
  by (simp add: log_in_routecache_def cong: option.case_cong)

lemma lir_clock [simp]: "log_in_routecache (s\<lparr>pd_clock := c\<rparr>) = log_in_routecache s"
  by (simp add: log_in_routecache_def cong: option.case_cong)

lemma lir_rc_grows:
  "log_in_routecache s \<Longrightarrow> log_in_routecache (s\<lparr>pd_rc := pd_rc s @ [ids]\<rparr>)"
  by (auto simp: log_in_routecache_def list_all_iff split: option.splits)

lemma lir_cleared:
  "log_in_routecache s \<Longrightarrow>
   log_in_routecache (pd_record [Pd_routecache_cleared] (s\<lparr>pd_rc := []\<rparr>))"
  by (auto simp: log_in_routecache_def pd_record_def scan_log_append split: option.splits)

lemma lir_returned:
  "log_in_routecache s \<Longrightarrow> map hop_nodeid r \<notin> set (pd_rc s) \<Longrightarrow>
   log_in_routecache (pd_record [Pd_route_returned r] (s\<lparr>pd_rc := pd_rc s @ [map hop_nodeid r]\<rparr>))"
  by (auto simp: log_in_routecache_def pd_record_def scan_log_append list_all_iff
      split: option.splits)

lemma lir_record:
  "log_in_routecache s \<Longrightarrow> ev \<noteq> Pd_routecache_cleared \<Longrightarrow> \<forall>r. ev \<noteq> Pd_route_returned r \<Longrightarrow>
   log_in_routecache (pd_record [ev] s)"
  by (cases ev) (auto simp: log_in_routecache_def pd_record_def scan_log_append
      split: option.splits)

lemma pd_record_q: "pd_record evs (s\<lparr>pd_q := q\<rparr>) = (pd_record evs s)\<lparr>pd_q := q\<rparr>"
  by (simp add: pd_record_def)

lemma getroute_ok_log_in_routecache:
  assumes inv: "log_in_routecache st"
  shows "log_in_routecache (fst (pathdiversity_getroute_ok env p e parsed st))"
proof (cases parsed)
  case None
  with inv show ?thesis by (simp add: pathdiversity_getroute_ok_def lir_record)
next
  case (Some route)
  show ?thesis
  proof (cases "map hop_nodeid route \<in> set (pd_rc st)")
    case True
    with Some inv show ?thesis
      by (simp add: pathdiversity_getroute_ok_def lookup_or_insert_iff)
  next
    case False
    let ?st0 = "st\<lparr>pd_rc := pd_rc st @ [map hop_nodeid route]\<rparr>"
    have i0: "log_in_routecache ?st0" using inv by (rule lir_rc_grows)
    show ?thesis
    proof (cases route)
      case Nil
      with Some False i0 show ?thesis
        by (simp add: pathdiversity_getroute_ok_def lookup_or_insert_iff lir_record)
    next
      case (Cons hop0 hops)
      let ?q = "foldl pathdiversity_queue_push (pd_q st) (route_edges (pay_local_id p) route e)"
      have ret: "\<And>q. log_in_routecache (pd_record [Pd_route_returned route] (?st0\<lparr>pd_q := q\<rparr>))"
        unfolding pd_record_q lir_q using inv False by (rule lir_returned)
      have other: "\<And>ev q. ev \<noteq> Pd_routecache_cleared \<Longrightarrow> \<forall>r. ev \<noteq> Pd_route_returned r \<Longrightarrow>
          log_in_routecache (pd_record [ev] (?st0\<lparr>pd_q := q\<rparr>))"
        unfolding pd_record_q lir_q using i0 by (rule lir_record)
      have ok: "pathdiversity_getroute_ok env p e parsed st =
        (case pathdiversity_check_constraints p hop0 of
           None \<Rightarrow> (pd_record [Pd_aborted] (?st0\<lparr>pd_q := ?q\<rparr>), Pd_done Pd_paymod_err)
         | Some (PATHDIVERSITY_OK, fee) \<Rightarrow>
             (pd_record [Pd_route_returned route] (?st0\<lparr>pd_q := ?q\<rparr>),
              Pd_done (Pd_got_route (p\<lparr>pay_route := Some route, pay_got_route := True\<rparr>)))
         | Some (res, fee) \<Rightarrow>
             if e = None then
               (pd_record [Pd_payment_failed] (?st0\<lparr>pd_q := ?q\<rparr>),
                Pd_done (Pd_failed
                  (if res = PATHDIVERSITY_OUT_OF_FEES
                   then payment_exclude_most_expensive env (p\<lparr>pay_route := None\<rparr>) route
                   else payment_exclude_longest_delay env (p\<lparr>pay_route := None\<rparr>) route)))
             else
               (pd_record [Pd_queue_cleared] (?st0\<lparr>pd_q := []\<rparr>), Pd_step_again))"
        using Some False Cons
        by (simp add: pathdiversity_getroute_ok_def lookup_or_insert_iff Let_def
            pathdiversity_queue_clear_def
            cong: option.case_cong prod.case_cong pathdiversity_constraint_violation.case_cong)
      show ?thesis
      proof (cases "pathdiversity_check_constraints p hop0")
        case None
        then show ?thesis unfolding ok by (simp add: other)
      next
        case (Some a)
        obtain res fee where a: "a = (res, fee)" by (cases a)
        show ?thesis
          unfolding ok Some a
          by (cases res; cases "e = None") (simp_all add: other ret)
      qed
    qed
  qed
qed

lemma getroute_fail_log_in_routecache:
  "log_in_routecache s \<Longrightarrow> log_in_routecache (fst (pathdiversity_getroute_fail p e s))"
  by (simp add: pathdiversity_getroute_fail_def lir_record)

lemma getroute_round_tail_log_in_routecache:
  assumes "log_in_routecache s"
  shows "log_in_routecache (fst
     (case r of
        (None, clock1) \<Rightarrow>
          (pd_record [Pd_aborted] (s\<lparr>pd_clock := clock1\<rparr>), Pd_done Pd_paymod_err)
      | (Some excs, clock1) \<Rightarrow>
          (case pd_getroute env clock1 (pathdiversity_getroute_got_exclusions p excs) of
             None \<Rightarrow> pathdiversity_getroute_fail p e
                (pd_record [Pd_getroute (pathdiversity_getroute_got_exclusions p excs)]
                   (s\<lparr>pd_clock := clock1 + 1\<rparr>))
           | Some parsed \<Rightarrow> pathdiversity_getroute_ok env p e parsed
                (pd_record [Pd_getroute (pathdiversity_getroute_got_exclusions p excs)]
                   (s\<lparr>pd_clock := clock1 + 1\<rparr>)))))"
proof -
  obtain a clock1 where r: "r = (a, clock1)" by (cases r)
  have i3: "\<And>ev c. ev \<noteq> Pd_routecache_cleared \<Longrightarrow> \<forall>r. ev \<noteq> Pd_route_returned r \<Longrightarrow>
      log_in_routecache (pd_record [ev] (s\<lparr>pd_clock := c\<rparr>))"
    by (rule lir_record) (use assms in simp_all)
  show ?thesis
  proof (cases a)
    case None
    then show ?thesis unfolding r by (simp add: i3)
  next
    case (Some excs)
    show ?thesis
      unfolding r Some
      by (cases "pd_getroute env clock1 (pathdiversity_getroute_got_exclusions p excs)")
         (simp_all add: i3 getroute_fail_log_in_routecache getroute_ok_log_in_routecache)
  qed
qed

lemma getroute_round_empty:
  assumes "pd_q st = []"
  shows "pathdiversity_getroute_round env p st =
     (case pathdiversity_get_exclusions env (pd_clock st) None of
        (None, clock1) \<Rightarrow>
          (pd_record [Pd_aborted]
             ((pd_record [Pd_popped None, Pd_routecache_cleared] (st\<lparr>pd_q := [], pd_rc := []\<rparr>))
                \<lparr>pd_clock := clock1\<rparr>),
           Pd_done Pd_paymod_err)
      | (Some excs, clock1) \<Rightarrow>
          (case pd_getroute env clock1 (pathdiversity_getroute_got_exclusions p excs) of
             None \<Rightarrow> pathdiversity_getroute_fail p None
                (pd_record [Pd_getroute (pathdiversity_getroute_got_exclusions p excs)]
                   ((pd_record [Pd_popped None, Pd_routecache_cleared] (st\<lparr>pd_q := [], pd_rc := []\<rparr>))
                      \<lparr>pd_clock := clock1 + 1\<rparr>))
           | Some parsed \<Rightarrow> pathdiversity_getroute_ok env p None parsed
                (pd_record [Pd_getroute (pathdiversity_getroute_got_exclusions p excs)]
                   ((pd_record [Pd_popped None, Pd_routecache_cleared] (st\<lparr>pd_q := [], pd_rc := []\<rparr>))
                      \<lparr>pd_clock := clock1 + 1\<rparr>))))"
  using assms
  by (simp add: pathdiversity_getroute_round_def pathdiversity_queue_pop_def Let_def
      pathdiversity_routecache_clear_def pd_record_def
      cong: option.case_cong prod.case_cong)

lemma getroute_round_pop:
  assumes "pd_q st = e # q1"
  shows "pathdiversity_getroute_round env p st =
     (case pathdiversity_get_exclusions env (pd_clock st) (Some e) of
        (None, clock1) \<Rightarrow>
          (pd_record [Pd_aborted]
             ((pd_record [Pd_popped (Some e)] (st\<lparr>pd_q := q1\<rparr>))\<lparr>pd_clock := clock1\<rparr>),
           Pd_done Pd_paymod_err)
      | (Some excs, clock1) \<Rightarrow>
          (case pd_getroute env clock1 (pathdiversity_getroute_got_exclusions p excs) of
             None \<Rightarrow> pathdiversity_getroute_fail p (Some e)
                (pd_record [Pd_getroute (pathdiversity_getroute_got_exclusions p excs)]
                   ((pd_record [Pd_popped (Some e)] (st\<lparr>pd_q := q1\<rparr>))
                      \<lparr>pd_clock := clock1 + 1\<rparr>))
           | Some parsed \<Rightarrow> pathdiversity_getroute_ok env p (Some e) parsed
                (pd_record [Pd_getroute (pathdiversity_getroute_got_exclusions p excs)]
                   ((pd_record [Pd_popped (Some e)] (st\<lparr>pd_q := q1\<rparr>))
                      \<lparr>pd_clock := clock1 + 1\<rparr>))))"
  using assms
  by (simp add: pathdiversity_getroute_round_def pathdiversity_queue_pop_def Let_def
      pd_record_def cong: option.case_cong prod.case_cong)

lemma getroute_round_log_in_routecache:
  assumes inv: "log_in_routecache st"
  shows "log_in_routecache (fst (pathdiversity_getroute_round env p st))"
proof (cases "pd_q st")
  case Nil
  have "log_in_routecache (pd_record [Pd_popped None, Pd_routecache_cleared] (st\<lparr>pd_q := [], pd_rc := []\<rparr>))"
    using inv
    by (auto simp: log_in_routecache_def pd_record_def scan_log_append split: option.splits)
  then show ?thesis
    unfolding getroute_round_empty[OF Nil] by (rule getroute_round_tail_log_in_routecache)
next
  case (Cons e q1)
  have "log_in_routecache (pd_record [Pd_popped (Some e)] (st\<lparr>pd_q := q1\<rparr>))"
    using inv by (simp add: lir_record)
  then show ?thesis
    unfolding getroute_round_pop[OF Cons] by (rule getroute_round_tail_log_in_routecache)
qed

lemma getroute_step_log_in_routecache:
  "log_in_routecache st \<Longrightarrow> log_in_routecache (fst (pathdiversity_getroute_step env p st))"
proof (induction env p st rule: pathdiversity_getroute_step.induct)
  case (1 env p st)
  obtain st1 nxt where r: "pathdiversity_getroute_round env p st = (st1, nxt)"
    by (cases "pathdiversity_getroute_round env p st")
  from getroute_round_log_in_routecache[OF "1.prems", of env p] r
  have i1: "log_in_routecache st1" by simp
  show ?case
  proof (cases nxt)
    case Pd_step_again
    with "1.IH"[OF r[symmetric] Pd_step_again i1] r show ?thesis
      by (simp add: pathdiversity_getroute_step.simps[of env p st])
  next
    case (Pd_done res)
    with r i1 show ?thesis by (simp add: pathdiversity_getroute_step.simps[of env p st])
  qed
qed

lemma requests_log_in_routecache:
  "log_in_routecache st \<Longrightarrow> log_in_routecache (pathdiversity_requests env ps st)"
proof (induction ps arbitrary: st)
  case Nil
  then show ?case by simp
next
  case (Cons p ps)
  from getroute_step_log_in_routecache[OF Cons.prems, of env p]
  have "log_in_routecache (fst (pathdiversity_getroute env p st))"
    by (simp add: pathdiversity_getroute_def)
  with Cons.IH show ?case
    by (auto split: prod.splits pd_outcome.splits)
qed

lemma scan_log_no_duplicate:
  assumes "scan_log seen (xs @ Pd_route_returned r1 # ys @ Pd_route_returned r2 # zs) \<noteq> None"
    and "Pd_routecache_cleared \<notin> set ys"
  shows "map hop_nodeid r1 \<noteq> map hop_nodeid r2"
proof -
  from assms(1) obtain s1 where s1: "scan_log seen xs = Some s1"
    and a: "scan_log s1 (Pd_route_returned r1 # ys @ Pd_route_returned r2 # zs) \<noteq> None"
    by (auto simp: scan_log_append split: option.splits)
  from a have b: "scan_log (map hop_nodeid r1 # s1) (ys @ Pd_route_returned r2 # zs) \<noteq> None"
    by (auto split: if_splits)
  then obtain s2 where s2: "scan_log (map hop_nodeid r1 # s1) ys = Some s2"
    and c: "scan_log s2 (Pd_route_returned r2 # zs) \<noteq> None"
    by (auto simp: scan_log_append split: option.splits)
  from scan_log_grows[OF assms(2) s2] have "map hop_nodeid r1 \<in> set s2" by auto
  moreover from c have "map hop_nodeid r2 \<notin> set s2" by (auto split: if_splits)
  ultimately show ?thesis by auto
qed

lemma getroute_fail_log:
  "\<exists>evs. pd_log (fst (pathdiversity_getroute_fail p e s)) = pd_log s @ evs
         \<and> Pd_routecache_cleared \<notin> set evs"
  by (simp add: pathdiversity_getroute_fail_def pd_record_def)

lemma getroute_ok_log:
  "\<exists>evs. pd_log (fst (pathdiversity_getroute_ok env p e parsed s)) = pd_log s @ evs
         \<and> Pd_routecache_cleared \<notin> set evs"
  by (simp add: pathdiversity_getroute_ok_def pd_record_def Let_def
      split: option.splits list.splits prod.splits bool.splits
        pathdiversity_constraint_violation.splits)

lemma getroute_round_tail_log:
  "\<exists>evs. pd_log (fst
     (case r of
        (None, clock1) \<Rightarrow>
          (pd_record [Pd_aborted] (s\<lparr>pd_clock := clock1\<rparr>), Pd_done Pd_paymod_err)
      | (Some excs, clock1) \<Rightarrow>
          (case pd_getroute env clock1 (pathdiversity_getroute_got_exclusions p excs) of
             None \<Rightarrow> pathdiversity_getroute_fail p e
                (pd_record [Pd_getroute (pathdiversity_getroute_got_exclusions p excs)]
                   (s\<lparr>pd_clock := clock1 + 1\<rparr>))
           | Some parsed \<Rightarrow> pathdiversity_getroute_ok env p e parsed
                (pd_record [Pd_getroute (pathdiversity_getroute_got_exclusions p excs)]
                   (s\<lparr>pd_clock := clock1 + 1\<rparr>))))) = pd_log s @ evs
         \<and> Pd_routecache_cleared \<notin> set evs"
proof -
  obtain a clock1 where r: "r = (a, clock1)" by (cases r)
  show ?thesis
  proof (cases a)
    case None
    then show ?thesis unfolding r by (simp add: pd_record_def)
  next
    case (Some excs)
    let ?s3 = "pd_record [Pd_getroute (pathdiversity_getroute_got_exclusions p excs)]
                   (s\<lparr>pd_clock := clock1 + 1\<rparr>)"
    have l3: "pd_log ?s3 = pd_log s @ [Pd_getroute (pathdiversity_getroute_got_exclusions p excs)]"
      by (simp add: pd_record_def)
    show ?thesis
    proof (cases "pd_getroute env clock1 (pathdiversity_getroute_got_exclusions p excs)")
      case None
      from getroute_fail_log[of p e ?s3] obtain evs where
        "pd_log (fst (pathdiversity_getroute_fail p e ?s3)) = pd_log ?s3 @ evs"
        "Pd_routecache_cleared \<notin> set evs" by blast
      then show ?thesis unfolding r Some using None l3 by simp
    next
      case (Some parsed)
      from getroute_ok_log[of env p e parsed ?s3] obtain evs where
        "pd_log (fst (pathdiversity_getroute_ok env p e parsed ?s3)) = pd_log ?s3 @ evs"
        "Pd_routecache_cleared \<notin> set evs" by blast
      then show ?thesis unfolding r \<open>a = Some excs\<close> using Some l3 by simp
    qed
  qed
qed

lemma getroute_round_clears_routecache:
  "(Pd_routecache_cleared \<in> set (drop (length (pd_log st))
        (pd_log (fst (pathdiversity_getroute_round env p st))))) = (pd_q st = [])"
proof (cases "pd_q st")
  case Nil
  let ?s = "pd_record [Pd_popped None, Pd_routecache_cleared] (st\<lparr>pd_q := [], pd_rc := []\<rparr>)"
  from getroute_round_tail_log[where r = "pathdiversity_get_exclusions env (pd_clock st) None" and s = ?s and env = env and p = p and e = None]
  obtain evs where "pd_log (fst (pathdiversity_getroute_round env p st)) = pd_log ?s @ evs"
    unfolding getroute_round_empty[OF Nil] by blast
  then show ?thesis using Nil by (simp add: pd_record_def)
next
  case (Cons e q1)
  let ?s = "pd_record [Pd_popped (Some e)] (st\<lparr>pd_q := q1\<rparr>)"
  from getroute_round_tail_log[where r = "pathdiversity_get_exclusions env (pd_clock st) (Some e)" and s = ?s and env = env and p = p and e = "Some e"]
  obtain evs where "pd_log (fst (pathdiversity_getroute_round env p st)) = pd_log ?s @ evs"
    "Pd_routecache_cleared \<notin> set evs"
    unfolding getroute_round_pop[OF Cons] by blast
  then show ?thesis using Cons by (simp add: pd_record_def)
qed

text \<open>Claim C5, amended. Across any sequence of requests to one destination, two routes
  returned with no clear of the route cache in between differ, even in the node ids of
  their hops; a candidate route that is in the route cache is skipped, the step running
  again with the state unchanged; and a round of the step clears the route cache exactly
  when its pop finds the queue empty.\<close>

theorem pathdiversity_no_duplicate:
  "(pd_log (pathdiversity_requests env ps (new_pathdiversity_destination clock))
      = xs @ Pd_route_returned r1 # ys @ Pd_route_returned r2 # zs
    \<and> Pd_routecache_cleared \<notin> set ys
    \<longrightarrow> map hop_nodeid r1 \<noteq> map hop_nodeid r2 \<and> r1 \<noteq> r2)
   \<and> (map hop_nodeid route \<in> set (pd_rc st)
    \<longrightarrow> pathdiversity_getroute_ok env p e (Some route) st = (st, Pd_step_again))
   \<and> ((Pd_routecache_cleared \<in> set (drop (length (pd_log st))
          (pd_log (fst (pathdiversity_getroute_round env p st))))) = (pd_q st = []))"
proof (intro conjI impI)
  assume a: "pd_log (pathdiversity_requests env ps (new_pathdiversity_destination clock))
      = xs @ Pd_route_returned r1 # ys @ Pd_route_returned r2 # zs
    \<and> Pd_routecache_cleared \<notin> set ys"
  have "log_in_routecache (new_pathdiversity_destination clock)"
    by (simp add: log_in_routecache_def new_pathdiversity_destination_def)
  from requests_log_in_routecache[OF this, of env ps] a
  have "scan_log [] (xs @ Pd_route_returned r1 # ys @ Pd_route_returned r2 # zs) \<noteq> None"
    by (auto simp: log_in_routecache_def split: option.splits)
  from scan_log_no_duplicate[OF this] a
  show "map hop_nodeid r1 \<noteq> map hop_nodeid r2" by simp
  then show "r1 \<noteq> r2" by auto
next
  assume "map hop_nodeid route \<in> set (pd_rc st)"
  then show "pathdiversity_getroute_ok env p e (Some route) st = (st, Pd_step_again)"
    by (simp add: pathdiversity_getroute_ok_def lookup_or_insert_iff)
next
  show "(Pd_routecache_cleared \<in> set (drop (length (pd_log st))
          (pd_log (fst (pathdiversity_getroute_round env p st))))) = (pd_q st = [])"
    by (rule getroute_round_clears_routecache)
qed

section \<open>Path diversity: two requests in a row\<close>

lemma getroute_step_done:
  "pathdiversity_getroute_round env p st = (st1, Pd_done res) \<Longrightarrow>
   pathdiversity_getroute_step env p st = (st1, res)"
  by (simp add: pathdiversity_getroute_step.simps[of env p st])

lemma getroute_step_again:
  "pathdiversity_getroute_round env p st = (st1, Pd_step_again) \<Longrightarrow>
   pathdiversity_getroute_step env p st = pathdiversity_getroute_step env p st1"
  by (simp add: pathdiversity_getroute_step.simps[of env p st])

lemmas pd_defs = pathdiversity_getroute_round_def pathdiversity_queue_pop_def Let_def
  pd_record_def pathdiversity_get_exclusions_def pathdiversity_getroute_fail_def
  pathdiversity_getroute_ok_def pathdiversity_routecache_clear_def
  pathdiversity_getroute_got_exclusions_def pathdiversity_routecache_lookup_or_insert_def
  routecache_match_def pathdiversity_check_constraints_def amount_msat_sub_def
  route_edges_def pathdiversity_queue_push_def new_pathdiversity_edge_def
  pathdiversity_queue_clear_def

lemmas ex_pd_defs = new_pathdiversity_destination_def new_pathdiversity_queue_def
  new_pathdiversity_routecache_def ex_pd_env_def ex_pd_env_detour_def ex_payment_def
  ex_pd_route_def ex_pd_detour_def ex_edge_def

lemma ex_first_request:
  assumes "env = ex_pd_env \<or> env = ex_pd_env_detour"
  shows "pathdiversity_getroute env ex_payment (new_pathdiversity_destination 0)
   = (\<lparr>pd_q = [ex_edge], pd_rc = [[2]], pd_clock = 1,
       pd_log = [Pd_popped None, Pd_routecache_cleared,
                 Pd_getroute (pathdiversity_getroute_got_exclusions ex_payment []),
                 Pd_route_returned ex_pd_route]\<rparr>,
      Pd_got_route (ex_payment\<lparr>pay_route := Some ex_pd_route, pay_got_route := True\<rparr>))"
  unfolding pathdiversity_getroute_def
  by (rule getroute_step_done) (use assms in \<open>auto simp: pd_defs ex_pd_defs\<close>)

lemma ex_second_request_detour:
  "pathdiversity_getroute ex_pd_env_detour ex_payment
     \<lparr>pd_q = [ex_edge], pd_rc = [[2]], pd_clock = Suc 0,
      pd_log = [Pd_popped None, Pd_routecache_cleared,
                Pd_getroute (pathdiversity_getroute_got_exclusions ex_payment []),
                Pd_route_returned ex_pd_route]\<rparr>
   = (\<lparr>pd_q = [Pathdiversity_edge 1 3 (Some ex_edge), Pathdiversity_edge 3 2 (Some ex_edge)],
       pd_rc = [[2], [3, 2]], pd_clock = 3,
       pd_log = [Pd_popped None, Pd_routecache_cleared,
                 Pd_getroute (pathdiversity_getroute_got_exclusions ex_payment []),
                 Pd_route_returned ex_pd_route,
                 Pd_popped (Some ex_edge),
                 Pd_getroute (pathdiversity_getroute_got_exclusions ex_payment [12, 13]),
                 Pd_route_returned ex_pd_detour]\<rparr>,
      Pd_got_route (ex_payment\<lparr>pay_route := Some ex_pd_detour, pay_got_route := True\<rparr>))"
  unfolding pathdiversity_getroute_def
  by (rule getroute_step_done) (simp add: pd_defs ex_pd_defs)

lemma ex_detour_log:
  "pd_log (pathdiversity_requests ex_pd_env_detour [ex_payment, ex_payment]
             (new_pathdiversity_destination 0))
   = [Pd_popped None, Pd_routecache_cleared,
      Pd_getroute (pathdiversity_getroute_got_exclusions ex_payment []),
      Pd_route_returned ex_pd_route,
      Pd_popped (Some ex_edge),
      Pd_getroute (pathdiversity_getroute_got_exclusions ex_payment [12, 13]),
      Pd_route_returned ex_pd_detour]"
  by (simp add: ex_first_request ex_second_request_detour)

lemma ex_second_request_drain:
  "pathdiversity_getroute ex_pd_env ex_payment
     \<lparr>pd_q = [ex_edge], pd_rc = [[2]], pd_clock = Suc 0,
      pd_log = [Pd_popped None, Pd_routecache_cleared,
                Pd_getroute (pathdiversity_getroute_got_exclusions ex_payment []),
                Pd_route_returned ex_pd_route]\<rparr>
   = (\<lparr>pd_q = [ex_edge], pd_rc = [[2]], pd_clock = 4,
       pd_log = [Pd_popped None, Pd_routecache_cleared,
                 Pd_getroute (pathdiversity_getroute_got_exclusions ex_payment []),
                 Pd_route_returned ex_pd_route,
                 Pd_popped (Some ex_edge),
                 Pd_getroute (pathdiversity_getroute_got_exclusions ex_payment [12, 13]),
                 Pd_popped None, Pd_routecache_cleared,
                 Pd_getroute (pathdiversity_getroute_got_exclusions ex_payment []),
                 Pd_route_returned ex_pd_route]\<rparr>,
      Pd_got_route (ex_payment\<lparr>pay_route := Some ex_pd_route, pay_got_route := True\<rparr>))"
proof -
  have r1: "pathdiversity_getroute_round ex_pd_env ex_payment
     \<lparr>pd_q = [ex_edge], pd_rc = [[2]], pd_clock = Suc 0,
      pd_log = [Pd_popped None, Pd_routecache_cleared,
                Pd_getroute (pathdiversity_getroute_got_exclusions ex_payment []),
                Pd_route_returned ex_pd_route]\<rparr>
    = (\<lparr>pd_q = [], pd_rc = [[2]], pd_clock = 3,
       pd_log = [Pd_popped None, Pd_routecache_cleared,
                 Pd_getroute (pathdiversity_getroute_got_exclusions ex_payment []),
                 Pd_route_returned ex_pd_route,
                 Pd_popped (Some ex_edge),
                 Pd_getroute (pathdiversity_getroute_got_exclusions ex_payment [12, 13])]\<rparr>,
       Pd_step_again)"
    by (simp add: pd_defs ex_pd_defs)
  have r2: "pathdiversity_getroute_round ex_pd_env ex_payment
     \<lparr>pd_q = [], pd_rc = [[2]], pd_clock = 3,
       pd_log = [Pd_popped None, Pd_routecache_cleared,
                 Pd_getroute (pathdiversity_getroute_got_exclusions ex_payment []),
                 Pd_route_returned ex_pd_route,
                 Pd_popped (Some ex_edge),
                 Pd_getroute (pathdiversity_getroute_got_exclusions ex_payment [12, 13])]\<rparr>
    = (\<lparr>pd_q = [ex_edge], pd_rc = [[2]], pd_clock = 4,
       pd_log = [Pd_popped None, Pd_routecache_cleared,
                 Pd_getroute (pathdiversity_getroute_got_exclusions ex_payment []),
                 Pd_route_returned ex_pd_route,
                 Pd_popped (Some ex_edge),
                 Pd_getroute (pathdiversity_getroute_got_exclusions ex_payment [12, 13]),
                 Pd_popped None, Pd_routecache_cleared,
                 Pd_getroute (pathdiversity_getroute_got_exclusions ex_payment []),
                 Pd_route_returned ex_pd_route]\<rparr>,
       Pd_done (Pd_got_route (ex_payment\<lparr>pay_route := Some ex_pd_route, pay_got_route := True\<rparr>)))"
    by (simp add: pd_defs ex_pd_defs)
  show ?thesis
    unfolding pathdiversity_getroute_def getroute_step_again[OF r1]
    by (rule getroute_step_done[OF r2])
qed

lemma ex_drain_log:
  "pd_log (pathdiversity_requests ex_pd_env [ex_payment, ex_payment]
             (new_pathdiversity_destination 0))
   = [Pd_popped None, Pd_routecache_cleared,
      Pd_getroute (pathdiversity_getroute_got_exclusions ex_payment []),
      Pd_route_returned ex_pd_route,
      Pd_popped (Some ex_edge),
      Pd_getroute (pathdiversity_getroute_got_exclusions ex_payment [12, 13]),
      Pd_popped None, Pd_routecache_cleared,
      Pd_getroute (pathdiversity_getroute_got_exclusions ex_payment []),
      Pd_route_returned ex_pd_route]"
  by (simp add: ex_first_request ex_second_request_drain)

theorem pathdiversity_no_duplicate_witness:
  "pd_log (pathdiversity_requests ex_pd_env_detour [ex_payment, ex_payment]
             (new_pathdiversity_destination 0))
   = [Pd_popped None, Pd_routecache_cleared,
      Pd_getroute (pathdiversity_getroute_got_exclusions ex_payment [])]
     @ Pd_route_returned ex_pd_route
     # [Pd_popped (Some ex_edge),
        Pd_getroute (pathdiversity_getroute_got_exclusions ex_payment [12, 13])]
     @ Pd_route_returned ex_pd_detour # []
   \<and> map hop_nodeid ex_pd_route \<noteq> map hop_nodeid ex_pd_detour
   \<and> pathdiversity_getroute_ok ex_pd_env ex_payment (Some ex_edge) (Some ex_pd_route)
         \<lparr>pd_q = [], pd_rc = [[2]], pd_clock = 3, pd_log = []\<rparr>
       = (\<lparr>pd_q = [], pd_rc = [[2]], pd_clock = 3, pd_log = []\<rparr>, Pd_step_again)"
  using pathdiversity_no_duplicate[where env = ex_pd_env_detour
      and ps = "[ex_payment, ex_payment]" and clock = 0
      and xs = "[Pd_popped None, Pd_routecache_cleared,
                 Pd_getroute (pathdiversity_getroute_got_exclusions ex_payment [])]"
      and ?r1.0 = ex_pd_route
      and ys = "[Pd_popped (Some ex_edge),
                 Pd_getroute (pathdiversity_getroute_got_exclusions ex_payment [12, 13])]"
      and ?r2.0 = ex_pd_detour and zs = "[]"]
    pathdiversity_no_duplicate[where env = ex_pd_env and p = ex_payment
      and e = "Some ex_edge" and route = ex_pd_route
      and st = "\<lparr>pd_q = [], pd_rc = [[2]], pd_clock = 3, pd_log = []\<rparr>"]
    ex_detour_log
  by (simp add: ex_pd_route_def)

text \<open>The sentence as the specification has it, with the clears of the queue as the
  boundaries, fails: the second request pops the only edge, finds no route under it, pops
  nothing from the drained queue, clears the route cache and returns the route of the first
  request again, and the queue was never cleared.\<close>

theorem pathdiversity_duplicate_counterexample:
  "pd_log (pathdiversity_requests ex_pd_env [ex_payment, ex_payment]
             (new_pathdiversity_destination 0))
   = [Pd_popped None, Pd_routecache_cleared,
      Pd_getroute (pathdiversity_getroute_got_exclusions ex_payment [])]
     @ Pd_route_returned ex_pd_route
     # [Pd_popped (Some ex_edge),
        Pd_getroute (pathdiversity_getroute_got_exclusions ex_payment [12, 13]),
        Pd_popped None, Pd_routecache_cleared,
        Pd_getroute (pathdiversity_getroute_got_exclusions ex_payment [])]
     @ Pd_route_returned ex_pd_route # []
   \<and> Pd_queue_cleared \<notin> set (pd_log (pathdiversity_requests ex_pd_env [ex_payment, ex_payment]
             (new_pathdiversity_destination 0)))"
  unfolding ex_drain_log by simp

section \<open>The funding orchestrator: the shape of every execution\<close>

lemma early_config_mfc [simp]: "early_config (c\<lparr>mfc := m\<rparr>) = early_config c"
  by (simp add: early_config_def)

lemma early_config_set_destinations [simp]: "early_config (set_destinations d c) = early_config c"
  by (simp add: early_config_def set_destinations_def)

lemma early_config_emit [simp]:
  "early_config (emit evs c) = (early_config c \<and> list_all early_event evs)"
  by (auto simp: early_config_def emit_def)

lemma early_config_phase:
  "early_config c \<Longrightarrow> early_phase ph \<Longrightarrow> early_config (c\<lparr>phase := ph\<rparr>)"
  by (simp add: early_config_def)

lemma mfc_inv_early: "early_config c \<Longrightarrow> mfc_inv c"
  by (simp add: mfc_inv_def)

lemma mfc_inv_earlyD: "mfc_inv c \<Longrightarrow> early_phase (phase c) \<Longrightarrow> early_config c"
  by (auto simp: mfc_inv_def early_phase_def)

lemma mfc_inv_cleanupI:
  "phase c = Ph_cleanup k r \<Longrightarrow> list_all early_event pre \<Longrightarrow>
   trace c = pre @ mfc_cleanup_requests (mfc c) \<Longrightarrow> mfc_inv c"
  unfolding mfc_inv_def by blast

lemma mfc_inv_repliedI:
  "phase c = Ph_replied \<Longrightarrow> list_all early_event pre \<Longrightarrow>
   trace c = pre @ mfc_cleanup_requests (mfc c) @ [Ev_reply r] \<Longrightarrow> mfc_inv c"
  unfolding mfc_inv_def by blast

lemma mfc_inv_abortedI:
  "phase c = Ph_aborted \<Longrightarrow> list_all early_event pre \<Longrightarrow>
   trace c = pre @ [Ev_abort]
     \<or> trace c = pre @ all_done (length (destinations (mfc c))) @ [Ev_abort] \<Longrightarrow> mfc_inv c"
  unfolding mfc_inv_def by blast

lemma mfc_inv_txsendI:
  "list_all early_event pre \<Longrightarrow>
   trace c = pre @ all_done (length (destinations (mfc c))) @ Req_txsend t # ends \<Longrightarrow>
   txid (mfc c) = None \<Longrightarrow>
   list_all (\<lambda>dest. fundchannel_start_state dest = multifundchannel_done) (destinations (mfc c)) \<Longrightarrow>
   phase c = Ph_txsend \<and> ends = []
     \<or> phase c = Ph_aborted \<and> ends = [Ev_abort]
     \<or> phase c = Ph_replied \<and> (\<exists>r. ends = [Ev_reply r]) \<Longrightarrow> mfc_inv c"
  unfolding mfc_inv_def by blast

lemma mfc_abort_inv: "early_config c \<Longrightarrow> mfc_inv (mfc_abort c)"
  by (rule mfc_inv_abortedI[where pre = "trace c"])
     (simp_all add: mfc_abort_def emit_def early_config_def)

lemma mfc_cleanup_inv: "early_config c \<Longrightarrow> mfc_inv (mfc_cleanup r c)"
proof (cases "mfc_cleanup_requests (mfc c) = []")
  case True
  assume "early_config c"
  then show ?thesis
    by (intro mfc_inv_repliedI[where pre = "trace c" and r = r])
       (simp_all add: mfc_cleanup_def emit_def early_config_def True)
next
  case False
  assume "early_config c"
  then show ?thesis
    by (intro mfc_inv_cleanupI[where pre = "trace c" and r = r
          and k = "length (mfc_cleanup_requests (mfc c))"])
       (simp_all add: mfc_cleanup_def emit_def early_config_def False Let_def)
qed

lemma perform_txsend_inv: "early_config c \<Longrightarrow> mfc_inv (perform_txsend c)"
proof (cases "txid (mfc c)")
  case None
  assume "early_config c"
  then show ?thesis
    by (intro mfc_inv_abortedI[where pre = "trace c"])
       (simp_all add: perform_txsend_def Let_def emit_def set_destinations_def mfc_abort_def
          early_config_def None all_done_def)
next
  case (Some t)
  assume "early_config c"
  then show ?thesis
    by (intro mfc_inv_txsendI[where pre = "trace c" and t = t and ends = "[]"])
       (simp_all add: perform_txsend_def Let_def emit_def set_destinations_def
          early_config_def Some all_done_def list_all_iff)
qed

lemmas mfc_early_intros = mfc_inv_early mfc_abort_inv mfc_cleanup_inv perform_txsend_inv
  early_config_phase

lemma mfc_fail_inv: "early_config c \<Longrightarrow> mfc_inv (mfc_fail code msg c)"
  by (simp add: mfc_fail_def mfc_cleanup_inv)

lemma mfc_err_raw_inv: "early_config c \<Longrightarrow> mfc_inv (mfc_err_raw e c)"
  by (simp add: mfc_err_raw_def mfc_cleanup_inv)

lemma mfc_forward_error_inv: "early_config c \<Longrightarrow> mfc_inv (mfc_forward_error e c)"
  by (simp add: mfc_forward_error_def mfc_err_raw_inv)

lemma early_event_simps [simp]:
  "early_event (Req_multiconnect ids)"
  "early_event (Req_txprepare outs)"
  "early_event (Req_fundchannel_start d a an p)"
  "early_event (Req_txdiscard t)"
  "early_event (Req_fundchannel_complete d t k)"
  "early_event (Ev_set_state i s) = (s \<noteq> multifundchannel_done)"
  by (simp_all add: early_event_def)

lemma early_phase_simps [simp]:
  "early_phase Ph_multiconnect" "early_phase Ph_dryrun_txprepare"
  "early_phase Ph_fundchannel_start" "early_phase Ph_txdiscard" "early_phase Ph_txprepare"
  "early_phase Ph_fundchannel_complete"
  by (simp_all add: early_phase_def)

lemma perform_multiconnect_inv: "early_config c \<Longrightarrow> mfc_inv (perform_multiconnect c)"
  by (simp add: perform_multiconnect_def mfc_inv_early early_config_phase)

lemma perform_dryrun_txprepare_inv:
  "early_config c \<Longrightarrow> mfc_inv (perform_dryrun_txprepare env c)"
  by (simp add: perform_dryrun_txprepare_def Let_def mfc_inv_early early_config_phase)

lemma after_multiconnect_inv:
  "early_config c \<Longrightarrow> mfc_inv (after_multiconnect env ids features c)"
  by (simp add: after_multiconnect_def Let_def mfc_abort_inv mfc_fail_inv
      perform_dryrun_txprepare_inv split: option.splits)

lemma perform_fundchannel_start_inv:
  "early_config c \<Longrightarrow> mfc_inv (perform_fundchannel_start c)"
  by (simp add: perform_fundchannel_start_def Let_def mfc_abort_inv mfc_inv_early
      early_config_phase list_all_iff)

lemma after_dryrun_txprepare_inv:
  "early_config c \<Longrightarrow> mfc_inv (after_dryrun_txprepare env t tx c)"
  by (simp add: after_dryrun_txprepare_def Let_def mfc_abort_inv perform_fundchannel_start_inv
      split: option.splits)

lemma perform_txmodify_inv: "early_config c \<Longrightarrow> mfc_inv (perform_txmodify c)"
  by (simp add: perform_txmodify_def mfc_abort_inv mfc_inv_early early_config_phase
      split: option.splits)

lemma after_sparked_inv:
  assumes "early_config c" and "\<And>c. early_config c \<Longrightarrow> mfc_inv (continue c)"
  shows "mfc_inv (after_sparked failed continue c)"
  using assms
  by (simp add: after_sparked_def mfc_abort_inv mfc_err_raw_inv
      split: sparks_outcome.splits option.splits)

lemma plugin_spark_complete_inv:
  assumes "early_config c" and "\<And>c. early_config c \<Longrightarrow> mfc_inv (cb c)"
  shows "mfc_inv (plugin_spark_complete cb c)"
  using assms by (simp add: plugin_spark_complete_def mfc_inv_early)

lemma after_fundchannel_start_inv: "early_config c \<Longrightarrow> mfc_inv (after_fundchannel_start c)"
  by (simp add: after_fundchannel_start_def after_sparked_inv perform_txmodify_inv)

lemma fundchannel_start_ok_inv:
  "early_config c \<Longrightarrow> mfc_inv (fundchannel_start_ok i a sc c)"
  by (simp add: fundchannel_start_ok_def mfc_abort_inv plugin_spark_complete_inv
      after_fundchannel_start_inv split: option.splits)

lemma fundchannel_start_err_inv:
  "early_config c \<Longrightarrow> mfc_inv (fundchannel_start_err i e c)"
  by (simp add: fundchannel_start_err_def plugin_spark_complete_inv after_fundchannel_start_inv)

lemma perform_txprepare_inv: "early_config c \<Longrightarrow> mfc_inv (perform_txprepare c)"
  by (simp add: perform_txprepare_def mfc_abort_inv mfc_inv_early early_config_phase)

lemma after_txdiscard_inv: "early_config c \<Longrightarrow> mfc_inv (after_txdiscard c)"
  by (simp add: after_txdiscard_def perform_txprepare_inv)

lemma perform_fundchannel_complete_inv:
  "early_config c \<Longrightarrow> mfc_inv (perform_fundchannel_complete c)"
  by (simp add: perform_fundchannel_complete_def mfc_abort_inv mfc_inv_early early_config_phase
      list_all_iff split: option.splits)

lemma after_txprepare_inv: "early_config c \<Longrightarrow> mfc_inv (after_txprepare t tx c)"
  by (simp add: after_txprepare_def Let_def mfc_abort_inv perform_fundchannel_complete_inv
      split: option.splits)

lemma after_fundchannel_complete_inv:
  "early_config c \<Longrightarrow> mfc_inv (after_fundchannel_complete c)"
  by (simp add: after_fundchannel_complete_def after_sparked_inv perform_txsend_inv)

lemma fundchannel_complete_ok_inv:
  "early_config c \<Longrightarrow> mfc_inv (fundchannel_complete_ok i ch c)"
  by (simp add: fundchannel_complete_ok_def mfc_abort_inv plugin_spark_complete_inv
      after_fundchannel_complete_inv split: option.splits)

lemma fundchannel_complete_err_inv:
  "early_config c \<Longrightarrow> mfc_inv (fundchannel_complete_err i e c)"
  by (simp add: fundchannel_complete_err_def plugin_spark_complete_inv
      after_fundchannel_complete_inv)

lemma mfc_inv_txsendD:
  assumes "mfc_inv c" and "phase c = Ph_txsend"
  shows "\<exists>pre t. list_all early_event pre
     \<and> trace c = pre @ all_done (length (destinations (mfc c))) @ [Req_txsend t]
     \<and> txid (mfc c) = None
     \<and> list_all (\<lambda>dest. fundchannel_start_state dest = multifundchannel_done)
          (destinations (mfc c))"
  using assms by (auto simp: mfc_inv_def early_config_def early_phase_def)

lemma cleanup_requests_all_done:
  "txid m = None \<Longrightarrow>
   list_all (\<lambda>dest. fundchannel_start_state dest = multifundchannel_done) (destinations m) \<Longrightarrow>
   mfc_cleanup_requests m = []"
  by (auto simp: mfc_cleanup_requests_def list_all_iff filter_empty_conv)

lemma txsend_abort_inv:
  assumes "mfc_inv c" and "phase c = Ph_txsend"
    and "destinations m = destinations (mfc c)" and "txid m = txid (mfc c)"
  shows "mfc_inv (mfc_abort (c\<lparr>mfc := m\<rparr>))"
proof -
  from mfc_inv_txsendD[OF assms(1,2)] obtain pre t where
    p: "list_all early_event pre"
    "trace c = pre @ all_done (length (destinations (mfc c))) @ [Req_txsend t]"
    "txid (mfc c) = None"
    "list_all (\<lambda>dest. fundchannel_start_state dest = multifundchannel_done) (destinations (mfc c))"
    by blast
  show ?thesis
    by (rule mfc_inv_txsendI[where pre = pre and t = t and ends = "[Ev_abort]"])
       (use p assms(3,4) in \<open>simp_all add: mfc_abort_def emit_def\<close>)
qed

lemma txsend_cleanup_inv:
  assumes "mfc_inv c" and "phase c = Ph_txsend"
    and "destinations m = destinations (mfc c)" and "txid m = txid (mfc c)"
  shows "mfc_inv (mfc_cleanup r (c\<lparr>mfc := m\<rparr>))"
    and "mfc_cleanup r (c\<lparr>mfc := m\<rparr>) = (emit [Ev_reply r] (c\<lparr>mfc := m\<rparr>))\<lparr>phase := Ph_replied\<rparr>"
proof -
  from mfc_inv_txsendD[OF assms(1,2)] obtain pre t where
    p: "list_all early_event pre"
    "trace c = pre @ all_done (length (destinations (mfc c))) @ [Req_txsend t]"
    "txid (mfc c) = None"
    "list_all (\<lambda>dest. fundchannel_start_state dest = multifundchannel_done) (destinations (mfc c))"
    by blast
  have e: "mfc_cleanup_requests m = []"
    using p assms(3,4) by (simp add: cleanup_requests_all_done)
  show eq: "mfc_cleanup r (c\<lparr>mfc := m\<rparr>) = (emit [Ev_reply r] (c\<lparr>mfc := m\<rparr>))\<lparr>phase := Ph_replied\<rparr>"
    by (simp add: mfc_cleanup_def e)
  show "mfc_inv (mfc_cleanup r (c\<lparr>mfc := m\<rparr>))"
    unfolding eq
    by (rule mfc_inv_txsendI[where pre = pre and t = t and ends = "[Ev_reply r]"])
       (use p assms(3,4) in \<open>simp_all add: emit_def\<close>)
qed

lemma after_txsend_inv:
  assumes "mfc_inv c" and "phase c = Ph_txsend"
  shows "mfc_inv (after_txsend tx t c)"
proof -
  have c: "c\<lparr>mfc := mfc c\<rparr> = c" by simp
  from txsend_abort_inv[OF assms, of "mfc c"] have a: "mfc_inv (mfc_abort c)" by simp
  show ?thesis
    using a txsend_abort_inv[OF assms] txsend_cleanup_inv(1)[OF assms]
    by (simp add: after_txsend_def multifundchannel_finished_def mfc_finished_def
        split: option.splits)
qed

lemma txsend_forward_error:
  assumes "mfc_inv c" and "phase c = Ph_txsend"
  shows "mfc_inv (mfc_forward_error e c)"
    and "mfc_forward_error e c = (emit [Ev_reply (Reply_err_raw e)] c)\<lparr>phase := Ph_replied\<rparr>"
  using txsend_cleanup_inv[OF assms, of "mfc c" "Reply_err_raw e"]
  by (simp_all add: mfc_forward_error_def mfc_err_raw_def)

lemma mfc_cleanup_spark_done_inv:
  assumes "mfc_inv c" and "phase c = Ph_cleanup k r"
  shows "mfc_inv (mfc_cleanup_spark_done k r c)"
proof -
  from assms obtain pre where p: "list_all early_event pre"
    "trace c = pre @ mfc_cleanup_requests (mfc c)"
    by (auto simp: mfc_inv_def early_config_def early_phase_def)
  show ?thesis
  proof (cases "k \<le> 1")
    case True
    show ?thesis
      by (rule mfc_inv_repliedI[where pre = pre and r = r])
         (use p True in \<open>simp_all add: mfc_cleanup_spark_done_def emit_def\<close>)
  next
    case False
    show ?thesis
      by (rule mfc_inv_cleanupI[where pre = pre and r = r and k = "k - 1"])
         (use p False in \<open>simp_all add: mfc_cleanup_spark_done_def\<close>)
  qed
qed

lemma mfc_handle_inv:
  assumes inv: "mfc_inv c"
  shows "mfc_inv (mfc_handle env input c)"
proof (cases "early_phase (phase c)")
  case True
  with inv have e: "early_config c" by (rule mfc_inv_earlyD)
  note intros = mfc_inv_early[OF e] after_multiconnect_inv[OF e] mfc_forward_error_inv[OF e]
    after_dryrun_txprepare_inv[OF e] fundchannel_start_ok_inv[OF e]
    fundchannel_start_err_inv[OF e] after_txdiscard_inv[OF e] after_txprepare_inv[OF e]
    fundchannel_complete_ok_inv[OF e] fundchannel_complete_err_inv[OF e]
  from True show ?thesis
    by (cases "phase c"; cases input)
       (simp_all add: mfc_handle_def early_phase_def intros)
next
  case False
  show ?thesis
  proof (cases "phase c")
    case Ph_txsend
    with inv show ?thesis
      by (cases input)
         (simp_all add: mfc_handle_def after_txsend_inv txsend_forward_error(1))
  next
    case (Ph_cleanup k r)
    with inv show ?thesis
      by (cases input) (simp_all add: mfc_handle_def mfc_cleanup_spark_done_inv)
  next
    case Ph_replied
    with inv show ?thesis by (simp add: mfc_handle_def)
  next
    case Ph_aborted
    with inv show ?thesis by (simp add: mfc_handle_def)
  qed (use False in \<open>simp_all add: early_phase_def\<close>)
qed

lemma mfc_run_inv: "mfc_inv c \<Longrightarrow> mfc_inv (mfc_run env inputs c)"
  by (induction inputs arbitrary: c) (simp_all add: mfc_handle_inv)

lemma json_multifundchannel_inv: "mfc_inv (json_multifundchannel params)"
proof (cases params)
  case None
  then show ?thesis by (simp add: json_multifundchannel_def mfc_inv_def)
next
  case (Some prm)
  have e: "\<And>m. early_config \<lparr>mfc = m, phase = Ph_multiconnect, trace = []\<rparr>"
    by (simp add: early_config_def)
  have pf: "\<And>m. mfc_inv ((emit [Ev_reply Reply_param_failed]
               \<lparr>mfc = m, phase = Ph_multiconnect, trace = []\<rparr>)\<lparr>phase := Ph_replied\<rparr>)"
    by (simp add: mfc_inv_def emit_def)
  show ?thesis
    unfolding json_multifundchannel_def Some Let_def option.case
    by (simp add: e pf mfc_fail_inv perform_multiconnect_inv
        split: option.splits prod.splits cda_result.splits)
qed

lemma multifundchannel_inv: "mfc_inv (multifundchannel env params inputs)"
  by (simp add: multifundchannel_def mfc_run_inv json_multifundchannel_inv)

section \<open>The funding orchestrator: what a trace tells\<close>

lemma foldl_state_early:
  "list_all early_event xs \<Longrightarrow> s \<noteq> multifundchannel_done \<Longrightarrow>
   foldl (apply_state_event i) s xs \<noteq> multifundchannel_done"
  by (induction xs arbitrary: s)
     (auto simp: apply_state_event_def early_event_def split: mfc_event.splits)

lemma state_after_early:
  "list_all early_event xs \<Longrightarrow> state_after xs i \<noteq> multifundchannel_done"
  by (simp add: state_after_def foldl_state_early)

lemma foldl_state_all_done:
  "i < n \<Longrightarrow> foldl (apply_state_event i) s (all_done n) = multifundchannel_done"
  by (induction n) (auto simp: all_done_def apply_state_event_def less_Suc_eq)

lemma state_after_all_done:
  "i < n \<Longrightarrow> state_after (pre @ all_done n) i = multifundchannel_done"
  by (simp add: state_after_def foldl_state_all_done)

lemma nth_in_front:
  "j < length (pre @ rest) \<Longrightarrow> (pre @ rest) ! j \<notin> set rest \<Longrightarrow> j < length pre"
  by (rule ccontr) (simp add: nth_append)

lemma nth_in_middle:
  "length pre \<le> k \<Longrightarrow> k < length pre + length mid \<Longrightarrow> (pre @ mid @ rest) ! k \<in> set mid"
  by (auto simp: nth_append)

lemma nth_in_back:
  assumes "length pre + length mid < j" and "j < length (pre @ mid @ x # ends)"
  shows "(pre @ mid @ x # ends) ! j \<in> set ends"
proof -
  have "(pre @ mid @ x # ends) ! j = ((pre @ mid @ [x]) @ ends) ! j" by simp
  also have "\<dots> = ends ! (j - length (pre @ mid @ [x]))"
    using assms(1) by (subst nth_append) simp
  finally show ?thesis using assms by simp
qed

lemma early_no_txsend: "list_all early_event pre \<Longrightarrow> Req_txsend t \<notin> set pre"
  by (auto simp: list_all_iff early_event_def)

lemma all_done_events: "ev \<in> set (all_done n) \<Longrightarrow> \<exists>i. ev = Ev_set_state i multifundchannel_done"
  by (auto simp: all_done_def)

lemma cleanup_request_events:
  "ev \<in> set (mfc_cleanup_requests m) \<Longrightarrow>
   (\<exists>t. ev = Req_txdiscard t) \<or> (\<exists>d. ev = Req_fundchannel_cancel d)"
  by (auto simp: mfc_cleanup_requests_def split: option.splits)

lemma mfc_inv_shape:
  assumes "mfc_inv c"
  obtains (quiet) pre rest where "trace c = pre @ rest" "list_all early_event pre"
      "\<forall>ev \<in> set rest. (\<forall>t. ev \<noteq> Req_txsend t)
                        \<and> (\<forall>i. ev \<noteq> Ev_set_state i multifundchannel_started)"
  | (sent) pre t ends where
      "trace c = pre @ all_done (length (destinations (mfc c))) @ Req_txsend t # ends"
      "list_all early_event pre"
      "\<forall>ev \<in> set ends. (\<exists>r. ev = Ev_reply r) \<or> ev = Ev_abort"
proof -
  consider (a) "early_config c"
    | (b) k r pre where "phase c = Ph_cleanup k r" "list_all early_event pre"
            "trace c = pre @ mfc_cleanup_requests (mfc c)"
    | (c) r pre where "phase c = Ph_replied" "list_all early_event pre"
            "trace c = pre @ mfc_cleanup_requests (mfc c) @ [Ev_reply r]"
    | (d) "trace c = [Ev_reply Reply_param_failed]"
    | (e) pre where "list_all early_event pre" "trace c = pre @ [Ev_abort]"
    | (f) pre where "list_all early_event pre"
            "trace c = pre @ all_done (length (destinations (mfc c))) @ [Ev_abort]"
    | (g) pre t ends where "list_all early_event pre"
            "trace c = pre @ all_done (length (destinations (mfc c))) @ Req_txsend t # ends"
            "ends = [] \<or> ends = [Ev_abort] \<or> (\<exists>r. ends = [Ev_reply r])"
    using assms unfolding mfc_inv_def by blast
  then show thesis
  proof cases
    case a
    then show thesis by (intro quiet[of "trace c" "[]"]) (simp_all add: early_config_def)
  next
    case b
    show thesis
      by (rule quiet[OF b(3) b(2)]) (auto dest: cleanup_request_events)
  next
    case c
    show thesis
      by (rule quiet[OF c(3) c(2)]) (auto dest: cleanup_request_events)
  next
    case d
    then show thesis by (intro quiet[of "[]" "trace c"]) simp_all
  next
    case e
    show thesis by (rule quiet[OF e(2) e(1)]) simp
  next
    case f
    show thesis by (rule quiet[OF f(2) f(1)]) (auto dest: all_done_events)
  next
    case g
    show thesis by (rule sent[OF g(2) g(1)]) (use g(3) in auto)
  qed
qed

lemma txsend_position:
  assumes tr: "tr = pre @ all_done n @ Req_txsend t # ends"
    and pre: "list_all early_event pre"
    and ends: "\<forall>ev \<in> set ends. (\<exists>r. ev = Ev_reply r) \<or> ev = Ev_abort"
    and k: "k < length tr" "tr ! k = Req_txsend t'"
  shows "k = length pre + n"
proof -
  have len: "length (all_done n) = n" by (simp add: all_done_def)
  have "\<not> k < length pre"
  proof
    assume "k < length pre"
    then have "tr ! k \<in> set pre" by (simp add: tr nth_append)
    with k(2) pre show False by (simp add: early_no_txsend)
  qed
  moreover have "\<not> (length pre \<le> k \<and> k < length pre + n)"
  proof
    assume a: "length pre \<le> k \<and> k < length pre + n"
    with nth_in_middle[of pre k "all_done n" "Req_txsend t # ends"]
    have "tr ! k \<in> set (all_done n)" by (simp add: tr len)
    then show False using k(2) by (auto dest: all_done_events)
  qed
  moreover have "\<not> length pre + n < k"
  proof
    assume a: "length pre + n < k"
    with nth_in_back[of pre "all_done n" k "Req_txsend t" ends] k(1)
    have "tr ! k \<in> set ends" by (simp add: tr len)
    then show False using k(2) ends by auto
  qed
  ultimately show ?thesis by arith
qed

lemma txsend_after_all_done:
  assumes inv: "mfc_inv c" and k: "k < length (trace c)" "trace c ! k = Req_txsend t"
  shows "\<forall>i < length (destinations (mfc c)).
           state_after (take k (trace c)) i = multifundchannel_done"
    and "\<forall>j. k < j \<and> j < length (trace c) \<longrightarrow>
           (\<exists>r. trace c ! j = Ev_reply r) \<or> trace c ! j = Ev_abort"
proof -
  let ?n = "length (destinations (mfc c))"
  from inv obtain pre t' ends where
    tr: "trace c = pre @ all_done ?n @ Req_txsend t' # ends"
    and pre: "list_all early_event pre"
    and ends: "\<forall>ev \<in> set ends. (\<exists>r. ev = Ev_reply r) \<or> ev = Ev_abort"
  proof (cases rule: mfc_inv_shape)
    case (quiet pre rest)
    from nth_mem[OF k(1)] have "trace c ! k \<in> set (pre @ rest)"
      unfolding quiet(1)[symmetric] .
    with k(2) quiet(2,3) have False by (auto simp: early_no_txsend)
    then show ?thesis ..
  next
    case (sent pre t' ends)
    then show ?thesis using that by blast
  qed
  have len: "length (all_done ?n) = ?n" by (simp add: all_done_def)
  from txsend_position[OF tr pre ends k] have kk: "k = length pre + ?n" .
  have tk: "take k (trace c) = pre @ all_done ?n" by (simp add: tr kk len)
  show "\<forall>i < ?n. state_after (take k (trace c)) i = multifundchannel_done"
    unfolding tk by (simp add: state_after_all_done)
  show "\<forall>j. k < j \<and> j < length (trace c) \<longrightarrow>
           (\<exists>r. trace c ! j = Ev_reply r) \<or> trace c ! j = Ev_abort"
  proof (intro allI impI)
    fix j assume j: "k < j \<and> j < length (trace c)"
    with nth_in_back[of pre "all_done ?n" j "Req_txsend t'" ends]
    have "trace c ! j \<in> set ends" by (simp add: tr kk len)
    then show "(\<exists>r. trace c ! j = Ev_reply r) \<or> trace c ! j = Ev_abort"
      using ends by auto
  qed
qed

lemma started_never_after_done:
  assumes inv: "mfc_inv c" and j: "j < length (trace c)"
    "trace c ! j = Ev_set_state i multifundchannel_started"
  shows "state_after (take j (trace c)) i \<noteq> multifundchannel_done"
proof -
  from inv obtain pre rest where tr: "trace c = pre @ rest" and pre: "list_all early_event pre"
    and rest: "\<forall>ev \<in> set rest. \<forall>i. ev \<noteq> Ev_set_state i multifundchannel_started"
  proof (cases rule: mfc_inv_shape)
    case (quiet pre rest)
    then show ?thesis using that by blast
  next
    case (sent pre t ends)
    show ?thesis
      by (rule that[OF sent(1) sent(2)]) (use sent(3) in \<open>auto dest: all_done_events\<close>)
  qed
  from j rest have "j < length pre"
    unfolding tr by (intro nth_in_front[of j pre rest]) auto
  then have "take j (trace c) = take j pre" by (simp add: tr)
  moreover have "list_all early_event (take j pre)"
    using pre by (auto simp: list_all_iff dest: in_set_takeD)
  ultimately show ?thesis by (simp add: state_after_early)
qed

section \<open>The funding orchestrator: two runs\<close>

lemma ex_broadcast_fails_trace:
  "trace (multifundchannel ex_env (Some ex_mfc_params) ex_broadcast_fails) =
     [Req_multiconnect [''P1'', ''P2''],
      Req_txprepare [(Some (create_placeholder_addr ex_env ''P1''), Amount_sat 100000),
                     (Some (create_placeholder_addr ex_env ''P2''), Amount_sat 200000)],
      Req_fundchannel_start ''P1'' 100000 True 0,
      Req_fundchannel_start ''P2'' 200000 True 0,
      Ev_set_state 0 multifundchannel_started,
      Ev_set_state 1 multifundchannel_started,
      Req_txdiscard ''dryrun'',
      Req_txprepare [(Some ''addr1'', Amount_sat 100000), (Some ''addr2'', Amount_sat 200000)],
      Req_fundchannel_complete ''P1'' ''funding'' 1,
      Req_fundchannel_complete ''P2'' ''funding'' 0,
      Ev_set_state 0 multifundchannel_done,
      Ev_set_state 1 multifundchannel_done,
      Req_txsend ''funding'',
      Ev_reply (Reply_err_raw ''broadcast failed'')]"
  by code_simp

lemma ex_broadcast_fails_length:
  "length (destinations (mfc (multifundchannel ex_env (Some ex_mfc_params) ex_broadcast_fails))) = 2"
  by code_simp

lemma ex_before_broadcast:
  "phase (multifundchannel ex_env (Some ex_mfc_params)
            (ex_mfc_inputs @ [In_fundchannel_complete_ok 0 (Some ''ch1''),
                              In_fundchannel_complete_ok 1 (Some ''ch2'')])) = Ph_txsend"
  by code_simp



text \<open>Claim C2. In every execution of the command: when \<open>txsend\<close> is sent, the last
  assignment to the state of every destination before it is \<open>multifundchannel_done\<close>, and
  nothing follows it but the reply or an abort, so no \<open>fundchannel_cancel\<close>; a state is
  never set to \<open>multifundchannel_started\<close> after it was done; and when the broadcast
  fails, the cleanup has nothing to send and the error is the reply at once.\<close>

theorem mfc_done_before_txsend:
  "let c = multifundchannel env params inputs in
     (\<forall>k t. k < length (trace c) \<and> trace c ! k = Req_txsend t \<longrightarrow>
        (\<forall>i < length (destinations (mfc c)).
           state_after (take k (trace c)) i = multifundchannel_done)
        \<and> (\<forall>j. k < j \<and> j < length (trace c) \<longrightarrow>
              (\<exists>r. trace c ! j = Ev_reply r) \<or> trace c ! j = Ev_abort))
     \<and> (\<forall>j i. j < length (trace c) \<and> trace c ! j = Ev_set_state i multifundchannel_started \<longrightarrow>
          state_after (take j (trace c)) i \<noteq> multifundchannel_done)
     \<and> (phase c = Ph_txsend \<longrightarrow>
          (\<forall>e. mfc_handle env (In_rpc_err e) c
                = (emit [Ev_reply (Reply_err_raw e)] c)\<lparr>phase := Ph_replied\<rparr>))"
proof -
  let ?c = "multifundchannel env params inputs"
  have inv: "mfc_inv ?c" by (rule multifundchannel_inv)
  have a: "\<forall>k t. k < length (trace ?c) \<and> trace ?c ! k = Req_txsend t \<longrightarrow>
        (\<forall>i < length (destinations (mfc ?c)).
           state_after (take k (trace ?c)) i = multifundchannel_done)
        \<and> (\<forall>j. k < j \<and> j < length (trace ?c) \<longrightarrow>
              (\<exists>r. trace ?c ! j = Ev_reply r) \<or> trace ?c ! j = Ev_abort)"
    using txsend_after_all_done[OF inv] by blast
  have b: "\<forall>j i. j < length (trace ?c) \<and> trace ?c ! j = Ev_set_state i multifundchannel_started \<longrightarrow>
          state_after (take j (trace ?c)) i \<noteq> multifundchannel_done"
    using started_never_after_done[OF inv] by blast
  have c: "phase ?c = Ph_txsend \<longrightarrow>
          (\<forall>e. mfc_handle env (In_rpc_err e) ?c
                = (emit [Ev_reply (Reply_err_raw e)] ?c)\<lparr>phase := Ph_replied\<rparr>)"
    using txsend_forward_error(2)[OF inv] by (simp add: mfc_handle_def)
  show ?thesis unfolding Let_def using a b c by (intro conjI)
qed

theorem mfc_done_before_txsend_witness:
  "(let c = multifundchannel ex_env (Some ex_mfc_params) ex_broadcast_fails in
      trace c ! 12 = Req_txsend ''funding''
      \<and> state_after (take 12 (trace c)) 0 = multifundchannel_done
      \<and> state_after (take 12 (trace c)) 1 = multifundchannel_done
      \<and> trace c ! 13 = Ev_reply (Reply_err_raw ''broadcast failed'')
      \<and> trace c ! 4 = Ev_set_state 0 multifundchannel_started
      \<and> state_after (take 4 (trace c)) 0 \<noteq> multifundchannel_done)
   \<and> (let c = multifundchannel ex_env (Some ex_mfc_params)
                 (ex_mfc_inputs @ [In_fundchannel_complete_ok 0 (Some ''ch1''),
                                   In_fundchannel_complete_ok 1 (Some ''ch2'')]) in
        phase c = Ph_txsend
        \<and> mfc_handle ex_env (In_rpc_err ''broadcast failed'') c
            = (emit [Ev_reply (Reply_err_raw ''broadcast failed'')] c)\<lparr>phase := Ph_replied\<rparr>)"
proof -
  let ?c = "multifundchannel ex_env (Some ex_mfc_params) ex_broadcast_fails"
  let ?d = "multifundchannel ex_env (Some ex_mfc_params)
                 (ex_mfc_inputs @ [In_fundchannel_complete_ok 0 (Some ''ch1''),
                                   In_fundchannel_complete_ok 1 (Some ''ch2'')])"
  note T = mfc_done_before_txsend[of ex_env "Some ex_mfc_params" ex_broadcast_fails,
      unfolded Let_def]
  note U = mfc_done_before_txsend[of ex_env "Some ex_mfc_params"
      "ex_mfc_inputs @ [In_fundchannel_complete_ok 0 (Some ''ch1''),
                        In_fundchannel_complete_ok 1 (Some ''ch2'')]", unfolded Let_def]
  have k: "12 < length (trace ?c) \<and> trace ?c ! 12 = Req_txsend ''funding''"
    by (simp add: ex_broadcast_fails_trace)
  have j: "4 < length (trace ?c) \<and> trace ?c ! 4 = Ev_set_state 0 multifundchannel_started"
    by (simp add: ex_broadcast_fails_trace)
  from T have "(\<forall>i < length (destinations (mfc ?c)).
           state_after (take 12 (trace ?c)) i = multifundchannel_done)" using k by blast
  then have a: "state_after (take 12 (trace ?c)) 0 = multifundchannel_done"
    "state_after (take 12 (trace ?c)) 1 = multifundchannel_done"
    by (simp_all add: ex_broadcast_fails_length)
  from T have b: "state_after (take 4 (trace ?c)) 0 \<noteq> multifundchannel_done" using j by blast
  from U have c: "mfc_handle ex_env (In_rpc_err ''broadcast failed'') ?d
            = (emit [Ev_reply (Reply_err_raw ''broadcast failed'')] ?d)\<lparr>phase := Ph_replied\<rparr>"
    using ex_before_broadcast by blast
  have l: "trace ?c ! 13 = Ev_reply (Reply_err_raw ''broadcast failed'')"
    by (simp add: ex_broadcast_fails_trace)
  show ?thesis unfolding Let_def using k a b c l j ex_before_broadcast by (intro conjI) auto
qed






end
